(* ===== verification/Prelude.thy ===== *)
theory Prelude
  imports Main "HOL-Library.Word" "HOL-Library.Sublist"
begin

text \<open>
  Shared vocabulary of the webfuse development: the machine integers of the code, the exceptions
  it throws, the state-and-exception monad in which member functions are written, the C++
  \<open>switch\<close> over integers, and the conversion between the characters of a
  \<^verbatim>\<open>std::string\<close> and the bytes of a message buffer.

  Conventions. A \<^verbatim>\<open>uintN_t\<close> or \<^verbatim>\<open>intN_t\<close> is an \<open>N word\<close>; signed comparisons go through
  \<open>sint\<close>. \<^verbatim>\<open>int\<close> is 32 bits wide and \<^verbatim>\<open>char\<close> is signed, as on the Linux x86-64 platform the
  project targets. Positions and sizes of in-memory buffers (\<^verbatim>\<open>size_t\<close>) are natural numbers:
  a buffer never reaches \<open>2 ^ 64\<close> bytes, so their arithmetic does not wrap.
\<close>

unbundle bit_operations_syntax

subsection \<open>Collections of facts used as proof hints\<close>

named_theorems reader_rules \<open>composition rules of the reading calculus\<close>
named_theorems writer_simps \<open>what a write appends to the message buffer\<close>
named_theorems monad_defs \<open>definitions of the monad operations\<close>
named_theorems errno_defs \<open>values of the errno constants\<close>

subsection \<open>Machine integers\<close>

type_synonym u8 = "8 word"
type_synonym u16 = "16 word"
type_synonym u32 = "32 word"
type_synonym u64 = "64 word"
type_synonym i8 = "8 word"
type_synonym i32 = "32 word"

subsection \<open>Exceptions and the state-and-exception monad\<close>

text \<open>
  The exception classes thrown by the sources and by the standard library functions they call.
  \<open>Undefined_behaviour\<close> marks an access that C++ leaves undefined (a read behind the end of a
  buffer); it is no exception, and no handler of the model catches it.
\<close>

datatype exn =
    Runtime_error string
  | Out_of_range string
  | Invalid_argument string
  | Future_error string
  | Undefined_behaviour

type_synonym ('s, 'a) sm = "'s \<Rightarrow> (exn + 'a) \<times> 's"

definition return_m :: "'a \<Rightarrow> ('s, 'a) sm" where
  [monad_defs]: "return_m a = (\<lambda>s. (Inr a, s))"

definition throw_m :: "exn \<Rightarrow> ('s, 'a) sm" where
  [monad_defs]: "throw_m e = (\<lambda>s. (Inl e, s))"

definition bind_m :: "('s, 'a) sm \<Rightarrow> ('a \<Rightarrow> ('s, 'b) sm) \<Rightarrow> ('s, 'b) sm" where
  [monad_defs]: "bind_m m f = (\<lambda>s. case m s of (Inl e, s') \<Rightarrow> (Inl e, s') | (Inr a, s') \<Rightarrow> f a s')"

lemma bind_return [simp]: "bind_m (return_m a) f = f a"
  by (simp add: monad_defs)

lemma return_bind [simp]: "bind_m m return_m = m"
  by (rule ext) (simp add: monad_defs split: prod.splits sum.splits)

lemma bind_throw [simp]: "bind_m (throw_m e) f = throw_m e"
  by (simp add: monad_defs)

lemma bind_assoc: "bind_m (bind_m m f) g = bind_m m (\<lambda>a. bind_m (f a) g)"
  by (rule ext) (simp add: monad_defs split: prod.splits sum.splits)

lemma bind_step: "m s = (Inr a, s') \<Longrightarrow> bind_m m f s = f a s'"
  by (simp add: bind_m_def)

lemma bind_fail: "m s = (Inl e, s') \<Longrightarrow> bind_m m f s = (Inl e, s')"
  by (simp add: bind_m_def)

lemma return_apply: "return_m a s = (Inr a, s)"
  by (simp add: return_m_def)

lemma throw_apply: "throw_m e s = (Inl e, s)"
  by (simp add: throw_m_def)

subsection \<open>Switch over integers\<close>

text \<open>
  \<open>switch cs d v\<close> is \<^verbatim>\<open>switch (v) { case c: return r; ... default: return d; }\<close>: the first
  label equal to \<open>v\<close> decides.
\<close>

fun switch :: "('a \<times> 'b) list \<Rightarrow> 'b \<Rightarrow> 'a \<Rightarrow> 'b" where
  "switch [] d v = d"
| "switch ((c, r) # cs) d v = (if v = c then r else switch cs d v)"

lemma switch_default: "v \<notin> fst ` set cs \<Longrightarrow> switch cs d v = d"
  by (induction cs) auto

lemma switch_identity: "\<forall>(c, r) \<in> set cs. c = r \<Longrightarrow> switch cs v v = v"
  by (induction cs "v :: 'a" v rule: switch.induct) auto

subsection \<open>Characters and bytes\<close>

text \<open>
  A \<^verbatim>\<open>std::string\<close> that carries text (a path, a file's contents) is a \<open>string\<close>; a
  \<^verbatim>\<open>std::string\<close> or \<^verbatim>\<open>std::vector<uint8_t>\<close> used as a message buffer is a list of bytes.
  \<^verbatim>\<open>memcpy\<close> between the two converts each character.
\<close>

definition u8_of_char :: "char \<Rightarrow> u8" where
  "u8_of_char c = word_of_nat (of_char c)"

definition char_of_u8 :: "u8 \<Rightarrow> char" where
  "char_of_u8 b = char_of (unat b)"

lemma char_of_u8_of_char [simp]: "char_of_u8 (u8_of_char c) = c"
proof -
  have "of_char c < (256 :: nat)" by (cases c) (simp add: of_char_def horner_sum_simps)
  then have "unat (u8_of_char c) = of_char c"
    by (simp add: u8_of_char_def unat_of_nat take_bit_eq_mod)
  then show ?thesis by (simp add: char_of_u8_def)
qed

lemma u8_of_char_of_u8 [simp]: "u8_of_char (char_of_u8 b) = b"
proof -
  have "unat b < 2 ^ LENGTH(8)" by (rule unsigned_less)
  then have "of_char (char_of (unat b)) = (unat b :: nat)"
    by (simp add: of_char_of take_bit_eq_mod)
  then show ?thesis by (simp add: char_of_u8_def u8_of_char_def)
qed

abbreviation bytes_of :: "string \<Rightarrow> u8 list" where
  "bytes_of \<equiv> map u8_of_char"

abbreviation string_of :: "u8 list \<Rightarrow> string" where
  "string_of \<equiv> map char_of_u8"

lemma string_of_bytes_of [simp]: "string_of (bytes_of s) = s"
  by (simp add: comp_def)

lemma bytes_of_string_of [simp]: "bytes_of (string_of bs) = bs"
  by (simp add: comp_def)

subsection \<open>Lists: resizing and overwriting the tail of a buffer\<close>

lemma replicate_4: "replicate 4 x = [x, x, x, x]"
  by (simp add: numeral_eq_Suc)

lemma replicate_8: "replicate 8 x = [x, x, x, x, x, x, x, x]"
  by (simp add: numeral_eq_Suc)

lemma strict_prefix_append_cases:
  assumes "strict_prefix p (xs @ ys)"
  shows "strict_prefix p xs \<or> (\<exists>q. p = xs @ q \<and> strict_prefix q ys)"
  using assms by (fastforce simp: strict_prefix_def prefix_append)

lemma strict_prefix_take: "k < length xs \<Longrightarrow> strict_prefix (take k xs) xs"
  by (auto simp: strict_prefix_def take_is_prefix dest: arg_cong [of _ _ length])

subsection \<open>Big-endian words\<close>

text \<open>The reference encoding: the \<open>n\<close> bytes of a word, most significant byte first.\<close>

definition be_bytes :: "nat \<Rightarrow> 'a::len word \<Rightarrow> u8 list" where
  "be_bytes n w = map (\<lambda>i. ucast (drop_bit (8 * i) w)) (rev [0..<n])"

lemma length_be_bytes [simp]: "length (be_bytes n w) = n"
  by (simp add: be_bytes_def)

lemma be_bytes_nonempty [simp]: "be_bytes n w = [] \<longleftrightarrow> n = 0"
  by (simp add: be_bytes_def)

lemma be_bytes_4: "be_bytes 4 w =
  [ucast (drop_bit 24 w), ucast (drop_bit 16 w), ucast (drop_bit 8 w), ucast w]"
  by (simp add: be_bytes_def upt_rec numeral_eq_Suc)

lemma be_bytes_8: "be_bytes 8 w =
  [ucast (drop_bit 56 w), ucast (drop_bit 48 w), ucast (drop_bit 40 w), ucast (drop_bit 32 w),
   ucast (drop_bit 24 w), ucast (drop_bit 16 w), ucast (drop_bit 8 w), ucast w]"
  by (simp add: be_bytes_def upt_rec numeral_eq_Suc)

text \<open>Sign extension of a character followed by the mask \<open>0xff\<close> is zero extension.\<close>

lemma ff_eq_mask: "(0xff :: 'a::len word) = mask 8"
  by (simp add: mask_eq_exp_minus_1)

lemma scast_and_ff_32: "(scast (b :: u8) :: u32) AND 0xff = ucast b"
proof (rule bit_word_eqI)
  fix n :: nat
  assume n: "n < LENGTH(32)"
  have out: "\<not> bit b n" if "8 \<le> n"
    using that by (auto dest: bit_imp_le_length)
  consider "n < 7" | "n = 7" | "8 \<le> n" by linarith
  then show "bit ((scast b :: u32) AND 0xff) n = bit (ucast b :: u32) n"
    using n out unfolding ff_eq_mask
    by cases (simp_all add: bit_and_iff bit_signed_iff bit_unsigned_iff bit_mask_iff min_def)
qed

text \<open>A byte taken from a word by \<^verbatim>\<open>(value >> k) & 0xff\<close> is the truncated shift.\<close>

lemma and_ff_ucast: "(ucast ((w :: 'a::len word) AND 0xff) :: u8) = ucast w"
  unfolding ff_eq_mask
  by (rule bit_word_eqI) (auto simp: bit_and_iff bit_unsigned_iff bit_mask_iff dest: bit_imp_le_length)

subsection \<open>Null-terminated strings\<close>

text \<open>What a C function sees of the characters at a \<^verbatim>\<open>char const *\<close>: those before the first null character.\<close>

definition c_str :: "string \<Rightarrow> string" where
  "c_str buffer = takeWhile (\<lambda>c. c \<noteq> CHR 0x00) buffer"

lemma c_str_no_null [simp]: "CHR 0x00 \<notin> set (c_str s)"
  by (auto simp: c_str_def dest: set_takeWhileD)

lemma c_str_append_null:
  assumes "CHR 0x00 \<notin> set s"
  shows "c_str (s @ CHR 0x00 # t) = s"
proof -
  have "\<And>c. c \<in> set s \<Longrightarrow> c \<noteq> CHR 0x00" using assms by blast
  then show ?thesis by (simp add: c_str_def)
qed

lemma c_str_id: "CHR 0x00 \<notin> set s \<Longrightarrow> c_str s = s"
  unfolding c_str_def by (simp add: takeWhile_eq_all_conv) blast

end
