(* ===== verification/Message_Types.thy ===== *)
theory Message_Types
  imports Prelude
begin

text \<open>
  The message types of the protocol: the enumerations of \<^verbatim>\<open>request_type.hpp\<close> and
  \<^verbatim>\<open>response_type.hpp\<close> with their codes (\<^verbatim>\<open>static_cast<uint8_t>\<close>), \<^verbatim>\<open>get_request_type\<close> and
  \<^verbatim>\<open>get_response_type\<close>. \<open>get_response_type\<close> is called with values of the enumeration only.
\<close>

datatype request_type =
    request_unknown | request_access | request_getattr | request_readlink | request_symlink
  | request_link | request_rename | request_chmod | request_chown | request_truncate
  | request_fsync | request_open | request_mknod | request_create | request_release
  | request_unlink | request_read | request_write | request_mkdir | request_readdir
  | request_rmdir | request_statfs | request_utimens | request_getcreds

datatype response_type =
    response_unknown | response_access | response_getattr | response_readlink | response_symlink
  | response_link | response_rename | response_chmod | response_chown | response_truncate
  | response_fsync | response_open | response_mknod | response_create | response_release
  | response_unlink | response_read | response_write | response_mkdir | response_readdir
  | response_rmdir | response_statfs | response_utimens | response_getcreds

primrec request_code :: "request_type \<Rightarrow> u8" where
  "request_code request_unknown = 0x00"
| "request_code request_access = 0x01"
| "request_code request_getattr = 0x02"
| "request_code request_readlink = 0x03"
| "request_code request_symlink = 0x04"
| "request_code request_link = 0x05"
| "request_code request_rename = 0x06"
| "request_code request_chmod = 0x07"
| "request_code request_chown = 0x08"
| "request_code request_truncate = 0x09"
| "request_code request_fsync = 0x0a"
| "request_code request_open = 0x0b"
| "request_code request_mknod = 0x0c"
| "request_code request_create = 0x0d"
| "request_code request_release = 0x0e"
| "request_code request_unlink = 0x0f"
| "request_code request_read = 0x10"
| "request_code request_write = 0x11"
| "request_code request_mkdir = 0x12"
| "request_code request_readdir = 0x13"
| "request_code request_rmdir = 0x14"
| "request_code request_statfs = 0x15"
| "request_code request_utimens = 0x16"
| "request_code request_getcreds = 0x17"

primrec response_code :: "response_type \<Rightarrow> u8" where
  "response_code response_unknown = 0x80"
| "response_code response_access = 0x81"
| "response_code response_getattr = 0x82"
| "response_code response_readlink = 0x83"
| "response_code response_symlink = 0x84"
| "response_code response_link = 0x85"
| "response_code response_rename = 0x86"
| "response_code response_chmod = 0x87"
| "response_code response_chown = 0x88"
| "response_code response_truncate = 0x89"
| "response_code response_fsync = 0x8a"
| "response_code response_open = 0x8b"
| "response_code response_mknod = 0x8c"
| "response_code response_create = 0x8d"
| "response_code response_release = 0x8e"
| "response_code response_unlink = 0x8f"
| "response_code response_read = 0x90"
| "response_code response_write = 0x91"
| "response_code response_mkdir = 0x92"
| "response_code response_readdir = 0x93"
| "response_code response_rmdir = 0x94"
| "response_code response_statfs = 0x95"
| "response_code response_utimens = 0x96"
| "response_code response_getcreds = 0x97"

definition get_request_type :: "u8 \<Rightarrow> request_type" where
  "get_request_type value = switch
    [(request_code request_access, request_access),
     (request_code request_getattr, request_getattr),
     (request_code request_readlink, request_readlink),
     (request_code request_symlink, request_symlink),
     (request_code request_link, request_link),
     (request_code request_rename, request_rename),
     (request_code request_chmod, request_chmod),
     (request_code request_chown, request_chown),
     (request_code request_truncate, request_truncate),
     (request_code request_fsync, request_fsync),
     (request_code request_open, request_open),
     (request_code request_mknod, request_mknod),
     (request_code request_create, request_create),
     (request_code request_release, request_release),
     (request_code request_unlink, request_unlink),
     (request_code request_read, request_read),
     (request_code request_write, request_write),
     (request_code request_mkdir, request_mkdir),
     (request_code request_readdir, request_readdir),
     (request_code request_rmdir, request_rmdir),
     (request_code request_statfs, request_statfs),
     (request_code request_utimens, request_utimens),
     (request_code request_getcreds, request_getcreds)]
    request_unknown value"

primrec get_response_type :: "request_type \<Rightarrow> response_type" where
  "get_response_type request_access = response_access"
| "get_response_type request_getattr = response_getattr"
| "get_response_type request_readlink = response_readlink"
| "get_response_type request_symlink = response_symlink"
| "get_response_type request_link = response_link"
| "get_response_type request_rename = response_rename"
| "get_response_type request_chmod = response_chmod"
| "get_response_type request_chown = response_chown"
| "get_response_type request_truncate = response_truncate"
| "get_response_type request_fsync = response_fsync"
| "get_response_type request_open = response_open"
| "get_response_type request_mknod = response_mknod"
| "get_response_type request_create = response_create"
| "get_response_type request_release = response_release"
| "get_response_type request_unlink = response_unlink"
| "get_response_type request_read = response_read"
| "get_response_type request_write = response_write"
| "get_response_type request_mkdir = response_mkdir"
| "get_response_type request_readdir = response_readdir"
| "get_response_type request_rmdir = response_rmdir"
| "get_response_type request_statfs = response_statfs"
| "get_response_type request_utimens = response_utimens"
| "get_response_type request_getcreds = response_getcreds"
| "get_response_type request_unknown = response_unknown"

lemma request_code_inverse [simp]: "get_request_type (request_code t) = t"
  by (cases t) (simp_all add: get_request_type_def)

lemma request_code_inject [simp]: "request_code t = request_code t' \<longleftrightarrow> t = t'"
  using request_code_inverse by metis

lemma response_code_request: "response_code (get_response_type t) = request_code t OR 0x80"
  by (cases t) simp_all

lemma small_code_cases: "v \<le> 0x17 \<Longrightarrow>
     v = 0 \<or> v = 1 \<or> v = 2 \<or> v = 3 \<or> v = 4 \<or> v = 5 \<or> v = 6 \<or> v = 7
     \<or> v = 8 \<or> v = 9 \<or> v = 10 \<or> v = 11 \<or> v = 12 \<or> v = 13 \<or> v = 14
     \<or> v = 15 \<or> v = 16 \<or> v = 17 \<or> v = 18 \<or> v = 19 \<or> v = 20 \<or> v = 21
     \<or> v = 22 \<or> v = 23" for v :: u8
proof -
  assume "v \<le> 0x17"
  then have k: "unat v \<le> 23" by (simp add: word_le_nat_alt)
  define k where "k = unat v"
  then have "k = 0 \<or> k = 1 \<or> k = 2 \<or> k = 3 \<or> k = 4 \<or> k = 5 \<or> k = 6 \<or> k = 7
     \<or> k = 8 \<or> k = 9 \<or> k = 10 \<or> k = 11 \<or> k = 12 \<or> k = 13 \<or> k = 14
     \<or> k = 15 \<or> k = 16 \<or> k = 17 \<or> k = 18 \<or> k = 19 \<or> k = 20 \<or> k = 21
     \<or> k = 22 \<or> k = 23"
    using k by arith
  moreover have "v = word_of_nat k" by (simp add: k_def)
  ultimately show ?thesis by (elim disjE) simp_all
qed

lemma get_request_type_unknown:
  "get_request_type v = request_unknown \<longleftrightarrow> v = 0 \<or> 0x17 < v"
proof (cases "v \<le> 0x17")
  case True
  then show ?thesis
    by (elim small_code_cases [elim_format] disjE) (simp_all add: get_request_type_def)
next
  case False
  then show ?thesis by (auto simp: get_request_type_def)
qed

subsection \<open>Properties\<close>

text \<open>
  The type byte: every request type survives its encoding, the response type is the request type
  with the top bit set, and exactly the bytes 0 and above 23 are unknown requests.
\<close>

theorem message_type_codes:
  "get_request_type (request_code t) = t \<and>
   response_code (get_response_type t) = request_code t OR 0x80 \<and>
   (get_request_type v = request_unknown \<longleftrightarrow> v = 0 \<or> 0x17 < v)"
  by (simp add: response_code_request get_request_type_unknown)

end
