(* ===== verification/Fs_Values.thy ===== *)
theory Fs_Values
  imports Prelude
begin

text \<open>
  The value classes of \<^verbatim>\<open>src/webfuse/filesystem\<close>: \<^verbatim>\<open>status\<close>, \<^verbatim>\<open>access_mode\<close>, \<^verbatim>\<open>filemode\<close>,
  \<^verbatim>\<open>openflags\<close> and \<^verbatim>\<open>filesystem_statistics\<close>, together with the POSIX structures the protocol
  transports (\<^verbatim>\<open>struct stat\<close>, \<^verbatim>\<open>struct timespec\<close>, \<^verbatim>\<open>struct statvfs\<close>).

  Each value class wraps one integer \<^verbatim>\<open>value_\<close> with a converting constructor and a conversion
  operator, so an object of the class is that integer. The constants of \<^verbatim>\<open>errno.h\<close>,
  \<^verbatim>\<open>unistd.h\<close>, \<^verbatim>\<open>sys/stat.h\<close> and \<^verbatim>\<open>fcntl.h\<close> have their Linux x86-64 values; in particular
  \<^verbatim>\<open>O_LARGEFILE\<close> is 0 there.
\<close>

subsection \<open>errno constants\<close>

definition E2BIG :: i32 where [errno_defs]: "E2BIG = 7"
definition EACCES :: i32 where [errno_defs]: "EACCES = 13"
definition EAGAIN :: i32 where [errno_defs]: "EAGAIN = 11"
definition EBADF :: i32 where [errno_defs]: "EBADF = 9"
definition EBUSY :: i32 where [errno_defs]: "EBUSY = 16"
definition EDESTADDRREQ :: i32 where [errno_defs]: "EDESTADDRREQ = 89"
definition EDQUOT :: i32 where [errno_defs]: "EDQUOT = 122"
definition EEXIST :: i32 where [errno_defs]: "EEXIST = 17"
definition EFAULT :: i32 where [errno_defs]: "EFAULT = 14"
definition EFBIG :: i32 where [errno_defs]: "EFBIG = 27"
definition EINTR :: i32 where [errno_defs]: "EINTR = 4"
definition EINVAL :: i32 where [errno_defs]: "EINVAL = 22"
definition EIO :: i32 where [errno_defs]: "EIO = 5"
definition EISDIR :: i32 where [errno_defs]: "EISDIR = 21"
definition ELOOP :: i32 where [errno_defs]: "ELOOP = 40"
definition EMFILE :: i32 where [errno_defs]: "EMFILE = 24"
definition EMLINK :: i32 where [errno_defs]: "EMLINK = 31"
definition ENAMETOOLONG :: i32 where [errno_defs]: "ENAMETOOLONG = 36"
definition ENFILE :: i32 where [errno_defs]: "ENFILE = 23"
definition ENODATA :: i32 where [errno_defs]: "ENODATA = 61"
definition ENODEV :: i32 where [errno_defs]: "ENODEV = 19"
definition ENOENT :: i32 where [errno_defs]: "ENOENT = 2"
definition ENOMEM :: i32 where [errno_defs]: "ENOMEM = 12"
definition ENOSPC :: i32 where [errno_defs]: "ENOSPC = 28"
definition ENOSYS :: i32 where [errno_defs]: "ENOSYS = 38"
definition ENOTDIR :: i32 where [errno_defs]: "ENOTDIR = 20"
definition ENOTEMPTY :: i32 where [errno_defs]: "ENOTEMPTY = 39"
definition ENOTSUP :: i32 where [errno_defs]: "ENOTSUP = 95"
definition ENXIO :: i32 where [errno_defs]: "ENXIO = 6"
definition EOVERFLOW :: i32 where [errno_defs]: "EOVERFLOW = 75"
definition EPERM :: i32 where [errno_defs]: "EPERM = 1"
definition EPIPE :: i32 where [errno_defs]: "EPIPE = 32"
definition ERANGE :: i32 where [errno_defs]: "ERANGE = 34"
definition EROFS :: i32 where [errno_defs]: "EROFS = 30"
definition ETXTBSY :: i32 where [errno_defs]: "ETXTBSY = 26"
definition EXDEV :: i32 where [errno_defs]: "EXDEV = 18"

subsection \<open>status\<close>

type_synonym status = i32

text \<open>The constants of class \<^verbatim>\<open>status\<close>.\<close>

definition status_good :: status where [errno_defs]: "status_good = 0"
definition status_bad_e2big :: status where [errno_defs]: "status_bad_e2big = -7"
definition status_bad_eacces :: status where [errno_defs]: "status_bad_eacces = -13"
definition status_bad_eagain :: status where [errno_defs]: "status_bad_eagain = -11"
definition status_bad_ebadf :: status where [errno_defs]: "status_bad_ebadf = -9"
definition status_bad_ebusy :: status where [errno_defs]: "status_bad_ebusy = -16"
definition status_bad_edestaddrreq :: status where [errno_defs]: "status_bad_edestaddrreq = -89"
definition status_bad_edquot :: status where [errno_defs]: "status_bad_edquot = -122"
definition status_bad_eexist :: status where [errno_defs]: "status_bad_eexist = -17"
definition status_bad_efault :: status where [errno_defs]: "status_bad_efault = -14"
definition status_bad_efbig :: status where [errno_defs]: "status_bad_efbig = -27"
definition status_bad_eintr :: status where [errno_defs]: "status_bad_eintr = -4"
definition status_bad_einval :: status where [errno_defs]: "status_bad_einval = -22"
definition status_bad_eio :: status where [errno_defs]: "status_bad_eio = -5"
definition status_bad_eisdir :: status where [errno_defs]: "status_bad_eisdir = -21"
definition status_bad_eloop :: status where [errno_defs]: "status_bad_eloop = -40"
definition status_bad_emfile :: status where [errno_defs]: "status_bad_emfile = -24"
definition status_bad_emlink :: status where [errno_defs]: "status_bad_emlink = -31"
definition status_bad_enametoolong :: status where [errno_defs]: "status_bad_enametoolong = -36"
definition status_bad_enfile :: status where [errno_defs]: "status_bad_enfile = -23"
definition status_bad_enodata :: status where [errno_defs]: "status_bad_enodata = -61"
definition status_bad_enodev :: status where [errno_defs]: "status_bad_enodev = -19"
definition status_bad_enoent :: status where [errno_defs]: "status_bad_enoent = -2"
definition status_bad_enomem :: status where [errno_defs]: "status_bad_enomem = -12"
definition status_bad_enospc :: status where [errno_defs]: "status_bad_enospc = -28"
definition status_bad_enosys :: status where [errno_defs]: "status_bad_enosys = -38"
definition status_bad_enotdir :: status where [errno_defs]: "status_bad_enotdir = -20"
definition status_bad_enotempty :: status where [errno_defs]: "status_bad_enotempty = -39"
definition status_bad_enotsup :: status where [errno_defs]: "status_bad_enotsup = -95"
definition status_bad_enxio :: status where [errno_defs]: "status_bad_enxio = -6"
definition status_bad_eoverflow :: status where [errno_defs]: "status_bad_eoverflow = -75"
definition status_bad_eperm :: status where [errno_defs]: "status_bad_eperm = -1"
definition status_bad_epipe :: status where [errno_defs]: "status_bad_epipe = -32"
definition status_bad_erange :: status where [errno_defs]: "status_bad_erange = -34"
definition status_bad_erofs :: status where [errno_defs]: "status_bad_erofs = -30"
definition status_bad_etxtbsy :: status where [errno_defs]: "status_bad_etxtbsy = -26"
definition status_bad_exdev :: status where [errno_defs]: "status_bad_exdev = -18"
definition status_bad_ewouldblock :: status where [errno_defs]: "status_bad_ewouldblock = -11"

definition from_fusestatus :: "i32 \<Rightarrow> status" where
  "from_fusestatus value =
    (if 0 \<le> sint value then value
     else switch
       [(- E2BIG, status_bad_e2big),
        (- EACCES, status_bad_eacces),
        (- EAGAIN, status_bad_eagain),
        (- EBADF, status_bad_ebadf),
        (- EBUSY, status_bad_ebusy),
        (- EDESTADDRREQ, status_bad_edestaddrreq),
        (- EDQUOT, status_bad_edquot),
        (- EEXIST, status_bad_eexist),
        (- EFAULT, status_bad_efault),
        (- EFBIG, status_bad_efbig),
        (- EINTR, status_bad_eintr),
        (- EINVAL, status_bad_einval),
        (- EIO, status_bad_eio),
        (- EISDIR, status_bad_eisdir),
        (- ELOOP, status_bad_eloop),
        (- EMFILE, status_bad_emfile),
        (- EMLINK, status_bad_emlink),
        (- ENAMETOOLONG, status_bad_enametoolong),
        (- ENFILE, status_bad_enfile),
        (- ENODATA, status_bad_enodata),
        (- ENODEV, status_bad_enodev),
        (- ENOENT, status_bad_enoent),
        (- ENOMEM, status_bad_enomem),
        (- ENOSPC, status_bad_enospc),
        (- ENOSYS, status_bad_enosys),
        (- ENOTDIR, status_bad_enotdir),
        (- ENOTEMPTY, status_bad_enotempty),
        (- ENOTSUP, status_bad_enotsup),
        (- ENXIO, status_bad_enxio),
        (- EOVERFLOW, status_bad_eoverflow),
        (- EPERM, status_bad_eperm),
        (- EPIPE, status_bad_epipe),
        (- ERANGE, status_bad_erange),
        (- EROFS, status_bad_erofs),
        (- ETXTBSY, status_bad_etxtbsy),
        (- EXDEV, status_bad_exdev)]
       value value)"

definition to_fusestatus :: "status \<Rightarrow> i32" where
  "to_fusestatus v =
    (if 0 \<le> sint v then v
     else switch
       [(status_bad_e2big, - E2BIG),
        (status_bad_eacces, - EACCES),
        (status_bad_eagain, - EAGAIN),
        (status_bad_ebadf, - EBADF),
        (status_bad_ebusy, - EBUSY),
        (status_bad_edestaddrreq, - EDESTADDRREQ),
        (status_bad_edquot, - EDQUOT),
        (status_bad_eexist, - EEXIST),
        (status_bad_efault, - EFAULT),
        (status_bad_efbig, - EFBIG),
        (status_bad_eintr, - EINTR),
        (status_bad_einval, - EINVAL),
        (status_bad_eio, - EIO),
        (status_bad_eisdir, - EISDIR),
        (status_bad_eloop, - ELOOP),
        (status_bad_emfile, - EMFILE),
        (status_bad_emlink, - EMLINK),
        (status_bad_enametoolong, - ENAMETOOLONG),
        (status_bad_enfile, - ENFILE),
        (status_bad_enodata, - ENODATA),
        (status_bad_enodev, - ENODEV),
        (status_bad_enoent, - ENOENT),
        (status_bad_enomem, - ENOMEM),
        (status_bad_enospc, - ENOSPC),
        (status_bad_enosys, - ENOSYS),
        (status_bad_enotdir, - ENOTDIR),
        (status_bad_enotempty, - ENOTEMPTY),
        (status_bad_enotsup, - ENOTSUP),
        (status_bad_enxio, - ENXIO),
        (status_bad_eoverflow, - EOVERFLOW),
        (status_bad_eperm, - EPERM),
        (status_bad_epipe, - EPIPE),
        (status_bad_erange, - ERANGE),
        (status_bad_erofs, - EROFS),
        (status_bad_etxtbsy, - ETXTBSY),
        (status_bad_exdev, - EXDEV)]
       v v)"

definition is_good :: "status \<Rightarrow> bool" where
  "is_good v \<longleftrightarrow> v = status_good"

text \<open>Every label of both switches is paired with itself, so the two conversions are the identity.\<close>

lemma from_fusestatus_id [simp]: "from_fusestatus v = v"
  unfolding from_fusestatus_def by (simp add: switch_identity errno_defs)

lemma to_fusestatus_id [simp]: "to_fusestatus v = v"
  unfolding to_fusestatus_def by (simp add: switch_identity errno_defs)

subsection \<open>access_mode\<close>

type_synonym access_mode = i8

definition R_OK :: i32 where "R_OK = 4"
definition W_OK :: i32 where "W_OK = 2"
definition X_OK :: i32 where "X_OK = 1"

definition access_f_ok :: i8 where "access_f_ok = 0"
definition access_r_ok :: i8 where "access_r_ok = 4"
definition access_w_ok :: i8 where "access_w_ok = 2"
definition access_x_ok :: i8 where "access_x_ok = 1"

lemmas access_consts = R_OK_def W_OK_def X_OK_def access_f_ok_def access_r_ok_def access_w_ok_def
  access_x_ok_def

text \<open>\<^verbatim>\<open>if (c) { result |= flag; }\<close>\<close>

definition or_if :: "bool \<Rightarrow> 'a::len word \<Rightarrow> 'a word \<Rightarrow> 'a word" where
  "or_if c flag result = (if c then result OR flag else result)"

definition access_mode_from_int :: "i32 \<Rightarrow> access_mode" where
  "access_mode_from_int value =
    (let result = 0;
         result = or_if (0 \<noteq> value AND R_OK) access_r_ok result;
         result = or_if (0 \<noteq> value AND W_OK) access_w_ok result;
         result = or_if (0 \<noteq> value AND X_OK) access_x_ok result
     in result)"

definition access_mode_to_int :: "access_mode \<Rightarrow> i32" where
  "access_mode_to_int v =
    (let result = 0;
         result = or_if (0 \<noteq> v AND access_r_ok) R_OK result;
         result = or_if (0 \<noteq> v AND access_w_ok) W_OK result;
         result = or_if (0 \<noteq> v AND access_x_ok) X_OK result
     in result)"


subsection \<open>filemode\<close>

type_synonym filemode = u32

text \<open>
  The constants of \<^verbatim>\<open>sys/stat.h\<close>; \<^verbatim>\<open>S_ISREG(m)\<close> and its kin compare \<^verbatim>\<open>m & S_IFMT\<close> with one of
  them.
\<close>

definition S_IFMT :: u32 where "S_IFMT = 0xf000"
definition S_IFREG :: u32 where "S_IFREG = 0x8000"
definition S_IFDIR :: u32 where "S_IFDIR = 0x4000"
definition S_IFCHR :: u32 where "S_IFCHR = 0x2000"
definition S_IFBLK :: u32 where "S_IFBLK = 0x6000"
definition S_IFIFO :: u32 where "S_IFIFO = 0x1000"
definition S_IFLNK :: u32 where "S_IFLNK = 0xa000"
definition S_IFSOCK :: u32 where "S_IFSOCK = 0xc000"

text \<open>The constants of class \<^verbatim>\<open>filemode\<close>, written in octal in the header.\<close>

definition filemode_protection_mask :: u32 where "filemode_protection_mask = 0x1ff"
definition filemode_sticky_mask :: u32 where "filemode_sticky_mask = 0xe00"
definition filemode_suid :: u32 where "filemode_suid = 0x800"
definition filemode_sgid :: u32 where "filemode_sgid = 0x400"
definition filemode_svtx :: u32 where "filemode_svtx = 0x200"
definition filemode_filetype_mask :: u32 where "filemode_filetype_mask = 0xf000"
definition filemode_reg :: u32 where "filemode_reg = 0x8000"
definition filemode_dir :: u32 where "filemode_dir = 0x4000"
definition filemode_chr :: u32 where "filemode_chr = 0x2000"
definition filemode_blk :: u32 where "filemode_blk = 0x6000"
definition filemode_fifo :: u32 where "filemode_fifo = 0x1000"
definition filemode_lnk :: u32 where "filemode_lnk = 0xa000"
definition filemode_sock :: u32 where "filemode_sock = 0xc000"

lemmas filemode_consts = S_IFMT_def S_IFREG_def S_IFDIR_def S_IFCHR_def S_IFBLK_def S_IFIFO_def
  S_IFLNK_def S_IFSOCK_def
  filemode_filetype_mask_def filemode_reg_def filemode_dir_def filemode_chr_def filemode_blk_def
  filemode_fifo_def filemode_lnk_def filemode_sock_def

definition filemode_from_mode :: "u32 \<Rightarrow> filemode" where
  "filemode_from_mode value =
    (let result = value AND 0xfff;
         result = or_if (value AND S_IFMT = S_IFREG) filemode_reg result;
         result = or_if (value AND S_IFMT = S_IFDIR) filemode_dir result;
         result = or_if (value AND S_IFMT = S_IFCHR) filemode_chr result;
         result = or_if (value AND S_IFMT = S_IFBLK) filemode_blk result;
         result = or_if (value AND S_IFMT = S_IFIFO) filemode_fifo result;
         result = or_if (value AND S_IFMT = S_IFLNK) filemode_lnk result;
         result = or_if (value AND S_IFMT = S_IFSOCK) filemode_sock result
     in result)"

definition filemode_is_reg :: "filemode \<Rightarrow> bool" where
  "filemode_is_reg v \<longleftrightarrow> filemode_reg = v AND filemode_filetype_mask"

definition filemode_is_dir :: "filemode \<Rightarrow> bool" where
  "filemode_is_dir v \<longleftrightarrow> filemode_dir = v AND filemode_filetype_mask"

definition filemode_is_chr :: "filemode \<Rightarrow> bool" where
  "filemode_is_chr v \<longleftrightarrow> filemode_chr = v AND filemode_filetype_mask"

definition filemode_is_blk :: "filemode \<Rightarrow> bool" where
  "filemode_is_blk v \<longleftrightarrow> filemode_blk = v AND filemode_filetype_mask"

definition filemode_is_fifo :: "filemode \<Rightarrow> bool" where
  "filemode_is_fifo v \<longleftrightarrow> filemode_fifo = v AND filemode_filetype_mask"

definition filemode_is_lnk :: "filemode \<Rightarrow> bool" where
  "filemode_is_lnk v \<longleftrightarrow> filemode_lnk = v AND filemode_filetype_mask"

definition filemode_is_sock :: "filemode \<Rightarrow> bool" where
  "filemode_is_sock v \<longleftrightarrow> filemode_sock = v AND filemode_filetype_mask"

definition filemode_to_mode :: "filemode \<Rightarrow> u32" where
  "filemode_to_mode v =
    (let result = v AND 0xfff;
         result = or_if (filemode_is_reg v) S_IFREG result;
         result = or_if (filemode_is_dir v) S_IFDIR result;
         result = or_if (filemode_is_chr v) S_IFCHR result;
         result = or_if (filemode_is_blk v) S_IFBLK result;
         result = or_if (filemode_is_fifo v) S_IFIFO result;
         result = or_if (filemode_is_lnk v) S_IFLNK result;
         result = or_if (filemode_is_sock v) S_IFSOCK result
     in result)"

subsection \<open>openflags\<close>

type_synonym openflags = i32

text \<open>The constants of \<^verbatim>\<open>fcntl.h\<close>.\<close>

definition O_RDONLY :: i32 where "O_RDONLY = 0x0"
definition O_WRONLY :: i32 where "O_WRONLY = 0x1"
definition O_RDWR :: i32 where "O_RDWR = 0x2"
definition O_APPEND :: i32 where "O_APPEND = 0x400"
definition O_ASYNC :: i32 where "O_ASYNC = 0x2000"
definition O_CLOEXEC :: i32 where "O_CLOEXEC = 0x80000"
definition O_CREAT :: i32 where "O_CREAT = 0x40"
definition O_DIRECT :: i32 where "O_DIRECT = 0x4000"
definition O_DIRECTORY :: i32 where "O_DIRECTORY = 0x10000"
definition O_DSYNC :: i32 where "O_DSYNC = 0x1000"
definition O_EXCL :: i32 where "O_EXCL = 0x80"
definition O_LARGEFILE :: i32 where "O_LARGEFILE = 0x0"
definition O_NOATIME :: i32 where "O_NOATIME = 0x40000"
definition O_NOCTTY :: i32 where "O_NOCTTY = 0x100"
definition O_NOFOLLOW :: i32 where "O_NOFOLLOW = 0x20000"
definition O_NONBLOCK :: i32 where "O_NONBLOCK = 0x800"
definition O_NDELAY :: i32 where "O_NDELAY = 0x800"
definition O_PATH :: i32 where "O_PATH = 0x200000"
definition O_SYNC :: i32 where "O_SYNC = 0x101000"
definition O_TMPFILE :: i32 where "O_TMPFILE = 0x410000"
definition O_TRUNC :: i32 where "O_TRUNC = 0x200"

text \<open>The constants of class \<^verbatim>\<open>openflags\<close>, written in octal in the header.\<close>

definition openflags_rdonly :: i32 where "openflags_rdonly = 0x0"
definition openflags_wronly :: i32 where "openflags_wronly = 0x1"
definition openflags_rdwr :: i32 where "openflags_rdwr = 0x2"
definition openflags_append :: i32 where "openflags_append = 0x400"
definition openflags_async :: i32 where "openflags_async = 0x2000"
definition openflags_cloexec :: i32 where "openflags_cloexec = 0x80000"
definition openflags_creat :: i32 where "openflags_creat = 0x40"
definition openflags_direct :: i32 where "openflags_direct = 0x4000"
definition openflags_directory :: i32 where "openflags_directory = 0x10000"
definition openflags_dsync :: i32 where "openflags_dsync = 0x1000"
definition openflags_excl :: i32 where "openflags_excl = 0x80"
definition openflags_largefile :: i32 where "openflags_largefile = 0x8000"
definition openflags_noatime :: i32 where "openflags_noatime = 0x40000"
definition openflags_noctty :: i32 where "openflags_noctty = 0x100"
definition openflags_nofollow :: i32 where "openflags_nofollow = 0x20000"
definition openflags_nonblock :: i32 where "openflags_nonblock = 0x800"
definition openflags_ndelay :: i32 where "openflags_ndelay = 0x800"
definition openflags_path :: i32 where "openflags_path = 0x200000"
definition openflags_sync :: i32 where "openflags_sync = 0x101000"
definition openflags_tmpfile :: i32 where "openflags_tmpfile = 0x410000"
definition openflags_trunc :: i32 where "openflags_trunc = 0x200"

lemmas openflags_consts =
  O_RDONLY_def O_WRONLY_def O_RDWR_def O_APPEND_def O_ASYNC_def O_CLOEXEC_def O_CREAT_def
  O_DIRECT_def O_DIRECTORY_def O_DSYNC_def O_EXCL_def O_LARGEFILE_def O_NOATIME_def O_NOCTTY_def
  O_NOFOLLOW_def O_NONBLOCK_def O_NDELAY_def O_PATH_def O_SYNC_def O_TMPFILE_def O_TRUNC_def
  openflags_rdonly_def openflags_wronly_def openflags_rdwr_def openflags_append_def
  openflags_async_def openflags_cloexec_def openflags_creat_def openflags_direct_def
  openflags_directory_def openflags_dsync_def openflags_excl_def openflags_largefile_def
  openflags_noatime_def openflags_noctty_def openflags_nofollow_def openflags_nonblock_def
  openflags_ndelay_def openflags_path_def openflags_sync_def openflags_tmpfile_def
  openflags_trunc_def

definition openflags_from_int :: "i32 \<Rightarrow> openflags" where
  "openflags_from_int value =
    (let result = 0;
         result = or_if (O_RDONLY = value AND O_RDONLY) openflags_rdonly result;
         result = or_if (O_WRONLY = value AND O_WRONLY) openflags_wronly result;
         result = or_if (O_RDWR = value AND O_RDWR) openflags_rdwr result;
         result = or_if (O_APPEND = value AND O_APPEND) openflags_append result;
         result = or_if (O_ASYNC = value AND O_ASYNC) openflags_async result;
         result = or_if (O_CLOEXEC = value AND O_CLOEXEC) openflags_cloexec result;
         result = or_if (O_CREAT = value AND O_CREAT) openflags_creat result;
         result = or_if (O_DIRECT = value AND O_DIRECT) openflags_direct result;
         result = or_if (O_DIRECTORY = value AND O_DIRECTORY) openflags_directory result;
         result = or_if (O_DSYNC = value AND O_DSYNC) openflags_dsync result;
         result = or_if (O_EXCL = value AND O_EXCL) openflags_excl result;
         result = or_if (O_LARGEFILE = value AND O_LARGEFILE) openflags_largefile result;
         result = or_if (O_NOATIME = value AND O_NOATIME) openflags_noatime result;
         result = or_if (O_NOCTTY = value AND O_NOCTTY) openflags_noctty result;
         result = or_if (O_NOFOLLOW = value AND O_NOFOLLOW) openflags_nofollow result;
         result = or_if (O_NONBLOCK = value AND O_NONBLOCK) openflags_nonblock result;
         result = or_if (O_NDELAY = value AND O_NDELAY) openflags_ndelay result;
         result = or_if (O_PATH = value AND O_PATH) openflags_path result;
         result = or_if (O_SYNC = value AND O_SYNC) openflags_sync result;
         result = or_if (O_TMPFILE = value AND O_TMPFILE) openflags_tmpfile result;
         result = or_if (O_TRUNC = value AND O_TRUNC) openflags_trunc result
     in result)"

definition openflags_to_int :: "openflags \<Rightarrow> i32" where
  "openflags_to_int v =
    (let result = 0;
         result = or_if (openflags_rdonly = v AND openflags_rdonly) O_RDONLY result;
         result = or_if (openflags_wronly = v AND openflags_wronly) O_WRONLY result;
         result = or_if (openflags_rdwr = v AND openflags_rdwr) O_RDWR result;
         result = or_if (openflags_append = v AND openflags_append) O_APPEND result;
         result = or_if (openflags_async = v AND openflags_async) O_ASYNC result;
         result = or_if (openflags_cloexec = v AND openflags_cloexec) O_CLOEXEC result;
         result = or_if (openflags_creat = v AND openflags_creat) O_CREAT result;
         result = or_if (openflags_direct = v AND openflags_direct) O_DIRECT result;
         result = or_if (openflags_directory = v AND openflags_directory) O_DIRECTORY result;
         result = or_if (openflags_dsync = v AND openflags_dsync) O_DSYNC result;
         result = or_if (openflags_excl = v AND openflags_excl) O_EXCL result;
         result = or_if (openflags_largefile = v AND openflags_largefile) O_LARGEFILE result;
         result = or_if (openflags_noatime = v AND openflags_noatime) O_NOATIME result;
         result = or_if (openflags_noctty = v AND openflags_noctty) O_NOCTTY result;
         result = or_if (openflags_nofollow = v AND openflags_nofollow) O_NOFOLLOW result;
         result = or_if (openflags_nonblock = v AND openflags_nonblock) O_NONBLOCK result;
         result = or_if (openflags_ndelay = v AND openflags_ndelay) O_NDELAY result;
         result = or_if (openflags_path = v AND openflags_path) O_PATH result;
         result = or_if (openflags_sync = v AND openflags_sync) O_SYNC result;
         result = or_if (openflags_tmpfile = v AND openflags_tmpfile) O_TMPFILE result;
         result = or_if (openflags_trunc = v AND openflags_trunc) O_TRUNC result
     in result)"

subsection \<open>POSIX structures and filesystem_statistics\<close>

text \<open>
  All members that the code reads or writes, and the remaining ones (\<^verbatim>\<open>st_dev\<close>, \<^verbatim>\<open>st_blksize\<close>,
  \<^verbatim>\<open>f_favail\<close>, \<^verbatim>\<open>f_fsid\<close>, \<^verbatim>\<open>f_flag\<close>), which the protocol leaves alone.
\<close>

record timespec =
  tv_sec :: u64
  tv_nsec :: u64

record stat =
  st_dev :: u64
  st_ino :: u64
  st_nlink :: u64
  st_mode :: u32
  st_uid :: u32
  st_gid :: u32
  st_rdev :: u64
  st_size :: u64
  st_blksize :: u64
  st_blocks :: u64
  st_atim :: timespec
  st_mtim :: timespec
  st_ctim :: timespec

record statvfs =
  f_bsize :: u64
  f_frsize :: u64
  f_blocks :: u64
  f_bfree :: u64
  f_bavail :: u64
  f_files :: u64
  f_ffree :: u64
  f_favail :: u64
  f_fsid :: u64
  f_flag :: u64
  f_namemax :: u64

text \<open>Objects with all bytes zero, as \<^verbatim>\<open>memset\<close> leaves them.\<close>

definition time_zero :: timespec where
  "time_zero = \<lparr>tv_sec = 0, tv_nsec = 0\<rparr>"

definition stat_zero :: stat where
  "stat_zero = \<lparr>st_dev = 0, st_ino = 0, st_nlink = 0, st_mode = 0, st_uid = 0, st_gid = 0,
    st_rdev = 0, st_size = 0, st_blksize = 0, st_blocks = 0, st_atim = time_zero,
    st_mtim = time_zero, st_ctim = time_zero\<rparr>"

definition statvfs_zero :: statvfs where
  "statvfs_zero = \<lparr>f_bsize = 0, f_frsize = 0, f_blocks = 0, f_bfree = 0, f_bavail = 0, f_files = 0,
    f_ffree = 0, f_favail = 0, f_fsid = 0, f_flag = 0, f_namemax = 0\<rparr>"

record filesystem_statistics =
  fss_bsize :: u64
  fss_frsize :: u64
  fss_blocks :: u64
  fss_bfree :: u64
  fss_bavail :: u64
  fss_files :: u64
  fss_ffree :: u64
  fss_namemax :: u64

definition filesystem_statistics_default :: filesystem_statistics where
  "filesystem_statistics_default =
    \<lparr>fss_bsize = 0, fss_frsize = 0, fss_blocks = 0, fss_bfree = 0, fss_bavail = 0, fss_files = 0,
     fss_ffree = 0, fss_namemax = 0\<rparr>"

definition filesystem_statistics_of :: "statvfs \<Rightarrow> filesystem_statistics" where
  "filesystem_statistics_of other =
    \<lparr>fss_bsize = f_bsize other, fss_frsize = f_frsize other, fss_blocks = f_blocks other,
     fss_bfree = f_bfree other, fss_bavail = f_bavail other, fss_files = f_files other,
     fss_ffree = f_ffree other, fss_namemax = f_namemax other\<rparr>"

definition filesystem_statistics_copy_to :: "filesystem_statistics \<Rightarrow> statvfs \<Rightarrow> statvfs" where
  "filesystem_statistics_copy_to s other = other
    \<lparr>f_bsize := fss_bsize s, f_frsize := fss_frsize s, f_blocks := fss_blocks s,
     f_bfree := fss_bfree s, f_bavail := fss_bavail s, f_files := fss_files s,
     f_ffree := fss_ffree s, f_namemax := fss_namemax s\<rparr>"

lemma filesystem_statistics_copy_of:
  "filesystem_statistics_of (filesystem_statistics_copy_to s other) = s"
  by (simp add: filesystem_statistics_of_def filesystem_statistics_copy_to_def)

subsection \<open>Bits of flag words\<close>

lemma and_exp: "v AND 2 ^ k = (if bit v k then 2 ^ k else 0)" for v :: "'a::len word"
  by (rule bit_word_eqI) (auto simp: bit_and_iff bit_exp_iff)

lemma or_if_exp: "or_if (2 ^ k = v AND 2 ^ k) (2 ^ k) r = r OR (v AND 2 ^ k)" for v :: "'a::len word"
  unfolding or_if_def and_exp by auto

subsection \<open>access_mode: round trip\<close>

lemma access_mode_to_from: "access_mode_to_int (access_mode_from_int v) = v AND 7"
proof -
  have m: "(7 :: i32) = 4 OR 2 OR 1" by simp
  show ?thesis
    unfolding access_mode_to_int_def access_mode_from_int_def Let_def access_consts or_if_def m
      bit.conj_disj_distrib and_exp [of v 2, simplified] and_exp [of v 1, simplified]
      and_exp [of v 0, simplified]
    by simp
qed

subsection \<open>filemode: normal form and round trip\<close>

text \<open>The file type bits survive only when they name one of the seven file types.\<close>

definition filemode_known :: "u32 \<Rightarrow> u32" where
  "filemode_known t =
    (if t \<in> {S_IFREG, S_IFDIR, S_IFCHR, S_IFBLK, S_IFIFO, S_IFLNK, S_IFSOCK} then t else 0)"

lemma filemode_from_mode_eq:
  "filemode_from_mode v = (v AND 0xfff) OR filemode_known (v AND S_IFMT)"
  unfolding filemode_from_mode_def Let_def or_if_def filemode_known_def filemode_consts by simp

lemma filemode_to_mode_eq: "filemode_to_mode v = filemode_from_mode v"
  unfolding filemode_to_mode_def filemode_from_mode_def Let_def filemode_is_reg_def
    filemode_is_dir_def filemode_is_chr_def filemode_is_blk_def filemode_is_fifo_def
    filemode_is_lnk_def filemode_is_sock_def filemode_consts
  by (simp only: eq_commute [of _ "v AND 0xf000"])

text \<open>The masks of the class take a mode apart, and the sticky bits are the three named ones.\<close>

lemma filemode_masks:
  "filemode_sticky_mask = filemode_suid OR filemode_sgid OR filemode_svtx"
  "filemode_protection_mask OR filemode_sticky_mask = 0xfff"
  "filemode_protection_mask AND filemode_sticky_mask = 0"
  "(filemode_protection_mask OR filemode_sticky_mask) AND filemode_filetype_mask = 0"
  by (simp_all add: filemode_protection_mask_def filemode_sticky_mask_def filemode_suid_def filemode_sgid_def
      filemode_svtx_def filemode_filetype_mask_def)

lemma filemode_known_and:
  "filemode_known t AND 0xfff = 0"
  "filemode_known t AND 0xf000 = filemode_known t"
  "filemode_known t AND - 0x10000 = 0"
  "filemode_known (filemode_known t) = filemode_known t"
  by (auto simp: filemode_known_def filemode_consts)

lemma filemode_parts:
  "(p AND 0xfff OR filemode_known t) AND 0xfff = p AND 0xfff"
  "(p AND 0xfff OR filemode_known t) AND 0xf000 = filemode_known t"
  "(p AND 0xfff OR filemode_known t) AND - 0x10000 = 0"
  by (simp_all add: bit.conj_disj_distrib2 and.assoc filemode_known_and)

lemma filemode_from_mode_idem: "filemode_from_mode (filemode_from_mode v) = filemode_from_mode v"
  by (simp add: filemode_from_mode_eq filemode_parts filemode_known_and S_IFMT_def)

lemma filemode_roundtrip_iff:
  "filemode_to_mode (filemode_from_mode v) = v \<longleftrightarrow>
    v AND NOT 0xffff = 0 \<and>
    v AND S_IFMT \<in> {0, S_IFREG, S_IFDIR, S_IFCHR, S_IFBLK, S_IFIFO, S_IFLNK, S_IFSOCK}"
proof -
  let ?k = "filemode_known (v AND 0xf000)"
  have eq: "filemode_to_mode (filemode_from_mode v) = (v AND 0xfff) OR ?k"
    by (simp add: filemode_to_mode_eq filemode_from_mode_idem)
       (simp add: filemode_from_mode_eq S_IFMT_def)
  have split: "v = (v AND 0xfff) OR (v AND 0xf000) OR (v AND - 0x10000)"
    by (rule bit_word_eqI) (simp flip: bit.conj_disj_distrib)
  have "(v AND 0xfff) OR ?k = v \<longleftrightarrow> v AND - 0x10000 = 0 \<and> v AND 0xf000 = ?k"
    using split filemode_parts [of v "v AND 0xf000"] by (metis or.right_neutral)
  then show ?thesis
    unfolding eq by (auto simp: filemode_known_def S_IFMT_def)
qed

subsection \<open>openflags: normal form and round trip\<close>

text \<open>
  All supported flags but \<^verbatim>\<open>O_SYNC\<close> and \<^verbatim>\<open>O_TMPFILE\<close> are single bits; \<open>openflags_simple\<close> is their
  union. \<^verbatim>\<open>O_LARGEFILE\<close> is 0 in \<^verbatim>\<open>fcntl.h\<close>, so \<^verbatim>\<open>from_int\<close> always sets the protocol's flag and
  \<^verbatim>\<open>to_int\<close> drops it again.
\<close>

definition openflags_simple :: i32 where "openflags_simple = 0x2f7fc3"

definition flag_part :: "i32 \<Rightarrow> i32 \<Rightarrow> i32" where
  "flag_part c v = (if v AND c = c then c else 0)"

lemma flag_part_exp: "flag_part (2 ^ k) v = v AND 2 ^ k"
  unfolding flag_part_def and_exp by auto

lemmas flag_part_bits = flag_part_exp [of 0, simplified] flag_part_exp [of 1, simplified]
  flag_part_exp [of 6, simplified] flag_part_exp [of 7, simplified] flag_part_exp [of 8, simplified]
  flag_part_exp [of 9, simplified] flag_part_exp [of 10, simplified] flag_part_exp [of 11, simplified]
  flag_part_exp [of 12, simplified] flag_part_exp [of 13, simplified] flag_part_exp [of 14, simplified]
  flag_part_exp [of 15, simplified] flag_part_exp [of 16, simplified] flag_part_exp [of 17, simplified]
  flag_part_exp [of 18, simplified] flag_part_exp [of 19, simplified] flag_part_exp [of 21, simplified]

lemma or_if_part: "or_if (v AND c = c) c r = r OR flag_part c v"
 by (simp add: or_if_def flag_part_def)

lemma flag_part_0 [simp]: "flag_part 0 v = 0" by (simp add: flag_part_def)

lemma openflags_simple_bits: "v AND openflags_simple =
  v AND (0x1 OR 0x2 OR 0x400 OR 0x2000 OR 0x80000 OR 0x40 OR 0x4000 OR 0x10000 OR 0x1000 OR 0x80
    OR 0x40000 OR 0x100 OR 0x20000 OR 0x800 OR 0x200000 OR 0x200)"
    by (simp add: openflags_simple_def)

lemma openflags_from_int_eq: "openflags_from_int v =
   (v AND openflags_simple) OR openflags_largefile OR flag_part O_SYNC v OR flag_part O_TMPFILE v"
    unfolding openflags_from_int_def Let_def openflags_consts openflags_simple_bits
    by (simp only: eq_commute [of _ "v AND _"] or_if_part flag_part_bits bit.conj_disj_distrib)
       (simp add: or_if_def or.assoc or.commute or.left_commute)

lemma openflags_to_int_eq: "openflags_to_int v =
   (v AND openflags_simple) OR flag_part O_SYNC v OR flag_part O_TMPFILE v"
    unfolding openflags_to_int_def Let_def openflags_consts openflags_simple_bits
    by (simp only: eq_commute [of _ "v AND _"] or_if_part flag_part_bits bit.conj_disj_distrib)
       (simp add: or_if_def or.assoc or.commute or.left_commute)

lemma bit_O_SYNC: "bit O_SYNC n \<longleftrightarrow> n = 12 \<or> n = 20"
proof -
  have c: "O_SYNC = 2 ^ 12 OR 2 ^ 20" by (simp add: O_SYNC_def)
  show ?thesis unfolding c bit_or_iff bit_exp_iff by auto
qed

lemma bit_O_TMPFILE: "bit O_TMPFILE n \<longleftrightarrow> n = 16 \<or> n = 22"
proof -
  have c: "O_TMPFILE = 2 ^ 16 OR 2 ^ 22" by (simp add: O_TMPFILE_def)
  show ?thesis unfolding c bit_or_iff bit_exp_iff by auto
qed

lemma and_eq_bits: "v AND c = c \<longleftrightarrow> (\<forall>n. bit c n \<longrightarrow> bit v n)" for v c :: "'a::len word"
  by (auto simp: bit_eq_iff bit_and_iff dest: bit_imp_le_length)

lemma bit_flag_part:
  "bit (flag_part O_SYNC v) n \<longleftrightarrow> (n = 12 \<or> n = 20) \<and> bit v 12 \<and> bit v 20"
  "bit (flag_part O_TMPFILE v) n \<longleftrightarrow> (n = 16 \<or> n = 22) \<and> bit v 16 \<and> bit v 22"
  by (auto simp: flag_part_def and_eq_bits bit_O_SYNC bit_O_TMPFILE)

lemma bit_openflags_simple:
  "bit openflags_simple 12" "bit openflags_simple 16" "\<not> bit openflags_simple 15"
  "\<not> bit openflags_simple 20" "\<not> bit openflags_simple 22"
  by (simp_all add: openflags_simple_def)

lemma bit_openflags_largefile: "bit openflags_largefile n \<longleftrightarrow> n = 15"
  using bit_exp_iff [of 15 n, where 'a = "32 word"] by (auto simp: openflags_largefile_def)

lemmas openflags_bit_simps = bit_or_iff bit_and_iff bit_flag_part bit_openflags_simple bit_openflags_largefile

lemma openflags_to_from: "openflags_to_int (openflags_from_int v) =
   (v AND openflags_simple) OR flag_part O_SYNC v OR flag_part O_TMPFILE v"
  unfolding openflags_to_int_eq openflags_from_int_eq
  by (rule bit_word_eqI) (auto simp: openflags_bit_simps)

lemma openflags_roundtrip_iff:
  "openflags_to_int (openflags_from_int v) = v \<longleftrightarrow>
    v AND NOT (openflags_simple OR O_SYNC OR O_TMPFILE) = 0 \<and>
    (bit v 20 \<longrightarrow> bit v 12) \<and> (bit v 22 \<longrightarrow> bit v 16)"
  (is "_ \<longleftrightarrow> ?ok")
proof
  assume eq: "openflags_to_int (openflags_from_int v) = v"
  let ?w = "openflags_to_int (openflags_from_int v)"
  have "(bit ?w 20 \<longrightarrow> bit ?w 12) \<and> (bit ?w 22 \<longrightarrow> bit ?w 16)"
    by (auto simp: openflags_to_from openflags_bit_simps)
  moreover have "?w AND NOT (openflags_simple OR O_SYNC OR O_TMPFILE) = 0"
    unfolding openflags_to_from
    by (rule bit_word_eqI)
      (auto simp: openflags_bit_simps bit_not_iff bit_O_SYNC bit_O_TMPFILE)
  ultimately show ?ok unfolding eq by blast
next
  assume ?ok
  then show "openflags_to_int (openflags_from_int v) = v"
    unfolding openflags_to_from bit_eq_iff [where 'a = "32 word"]
    by (auto simp: openflags_bit_simps bit_not_iff bit_O_SYNC bit_O_TMPFILE)
qed

subsection \<open>Properties\<close>

text \<open>
  The conversions between \<^verbatim>\<open>mode_t\<close> and the protocol's file mode lose nothing exactly for modes of at
  most 16 bits whose file type is absent or one of the seven types of the protocol.
\<close>

theorem filemode_roundtrip:
  "filemode_to_mode (filemode_from_mode v) = v \<longleftrightarrow>
    v AND NOT 0xffff = 0 \<and>
    v AND S_IFMT \<in> {0, S_IFREG, S_IFDIR, S_IFCHR, S_IFBLK, S_IFIFO, S_IFLNK, S_IFSOCK}"
  by (rule filemode_roundtrip_iff)

text \<open>
  The conversions between the flags of \<^verbatim>\<open>open\<close> and the protocol's flags lose nothing exactly for
  combinations of the supported flags in which \<^verbatim>\<open>O_SYNC\<close> and \<^verbatim>\<open>O_TMPFILE\<close>, which consist of two bits
  each, are complete.
\<close>

theorem openflags_roundtrip:
  "openflags_to_int (openflags_from_int v) = v \<longleftrightarrow>
    v AND NOT (openflags_simple OR O_SYNC OR O_TMPFILE) = 0 \<and>
    (bit v 20 \<longrightarrow> bit v 12) \<and> (bit v 22 \<longrightarrow> bit v 16)"
  by (rule openflags_roundtrip_iff)

theorem openflags_roundtrip_witness:
  "openflags_to_int (openflags_from_int (O_RDWR OR O_CREAT OR O_SYNC)) = O_RDWR OR O_CREAT OR O_SYNC"
  unfolding openflags_roundtrip
  by (simp add: openflags_simple_def O_SYNC_def O_TMPFILE_def O_RDWR_def O_CREAT_def)

end
