(* ===== verification/Message_Writer.thy ===== *)
theory Message_Writer
  imports Message_Types Fs_Values
begin

text \<open>
  Class \<^verbatim>\<open>messagewriter\<close> (\<^verbatim>\<open>ws/messagewriter.cpp\<close>): a message under construction is its id and a byte
  buffer that starts with \<^verbatim>\<open>LWS_PRE\<close> bytes reserved for libwebsockets. \<^verbatim>\<open>LWS_PRE\<close> is a constant of
  that library, so the definitions that use it take it as the argument \<open>lws_pre\<close>.

  The definitions follow the code's \<^verbatim>\<open>resize\<close> and indexed stores; the lemmas in \<open>writer_simps\<close> say
  what each member function appends to the buffer, in terms of the big-endian reference encoding
  \<open>be_bytes\<close> and of the wire formats \<open>enc_str\<close>, \<open>enc_strings\<close>, \<open>enc_time\<close>, \<open>enc_attr\<close> and
  \<open>enc_statistics\<close> of \<^verbatim>\<open>doc/protocol.md\<close>.
\<close>

subsection \<open>The class\<close>

record messagewriter =
  mw_id :: u32
  mw_data :: "u8 list"

abbreviation push_back :: "u8 \<Rightarrow> messagewriter \<Rightarrow> messagewriter" where
  "push_back b w \<equiv> w\<lparr>mw_data := mw_data w @ [b]\<rparr>"

definition set_id :: "nat \<Rightarrow> u32 \<Rightarrow> messagewriter \<Rightarrow> messagewriter" where
  "set_id lws_pre value w =
    (let w = w\<lparr>mw_id := value\<rparr>;
         data = mw_data w;
         data = data[lws_pre := ucast (drop_bit 24 value AND 0xff)];
         data = data[lws_pre + 1 := ucast (drop_bit 16 value AND 0xff)];
         data = data[lws_pre + 2 := ucast (drop_bit 8 value AND 0xff)];
         data = data[lws_pre + 3 := ucast (value AND 0xff)]
     in w\<lparr>mw_data := data\<rparr>)"

definition get_id :: "messagewriter \<Rightarrow> u32" where
  "get_id w = mw_id w"

definition write_bool :: "bool \<Rightarrow> messagewriter \<Rightarrow> messagewriter" where
  "write_bool value w = push_back (if value then 1 else 0) w"

definition write_u8 :: "u8 \<Rightarrow> messagewriter \<Rightarrow> messagewriter" where
  "write_u8 value w = push_back value w"

definition write_i8 :: "i8 \<Rightarrow> messagewriter \<Rightarrow> messagewriter" where
  "write_i8 value w = push_back value w"

definition write_u32 :: "u32 \<Rightarrow> messagewriter \<Rightarrow> messagewriter" where
  "write_u32 value w =
    (let data = mw_data w;
         offset = length data;
         data = data @ replicate 4 0;
         data = data[offset := ucast (drop_bit 24 value AND 0xff)];
         data = data[offset + 1 := ucast (drop_bit 16 value AND 0xff)];
         data = data[offset + 2 := ucast (drop_bit 8 value AND 0xff)];
         data = data[offset + 3 := ucast (value AND 0xff)]
     in w\<lparr>mw_data := data\<rparr>)"

definition write_i32 :: "i32 \<Rightarrow> messagewriter \<Rightarrow> messagewriter" where
  "write_i32 value w = write_u32 value w"

definition write_u64 :: "u64 \<Rightarrow> messagewriter \<Rightarrow> messagewriter" where
  "write_u64 value w =
    (let data = mw_data w;
         offset = length data;
         data = data @ replicate 8 0;
         data = data[offset := ucast (drop_bit 56 value AND 0xff)];
         data = data[offset + 1 := ucast (drop_bit 48 value AND 0xff)];
         data = data[offset + 2 := ucast (drop_bit 40 value AND 0xff)];
         data = data[offset + 3 := ucast (drop_bit 32 value AND 0xff)];
         data = data[offset + 4 := ucast (drop_bit 24 value AND 0xff)];
         data = data[offset + 5 := ucast (drop_bit 16 value AND 0xff)];
         data = data[offset + 6 := ucast (drop_bit 8 value AND 0xff)];
         data = data[offset + 7 := ucast (value AND 0xff)]
     in w\<lparr>mw_data := data\<rparr>)"

definition messagewriter_request :: "nat \<Rightarrow> request_type \<Rightarrow> messagewriter" where
  "messagewriter_request lws_pre req_type =
    (let w = \<lparr>mw_id = 0, mw_data = replicate lws_pre 0\<rparr>;
         w = write_u32 0 w
     in write_u8 (request_code req_type) w)"

definition messagewriter_response :: "nat \<Rightarrow> response_type \<Rightarrow> messagewriter" where
  "messagewriter_response lws_pre res_type =
    (let w = \<lparr>mw_id = 0, mw_data = replicate lws_pre 0\<rparr>;
         w = write_u32 0 w
     in write_u8 (response_code res_type) w)"

text \<open>
  Move construction and move assignment, on a store of objects; \<open>left\<close> is what \<^verbatim>\<open>std::move\<close> leaves in the source's
  vector, which the language does not specify.
\<close>

definition messagewriter_move_construct ::
    "u8 list \<Rightarrow> nat \<Rightarrow> nat \<Rightarrow> (nat \<rightharpoonup> messagewriter) \<Rightarrow> (nat \<rightharpoonup> messagewriter)" where
  "messagewriter_move_construct left this other st =
    (let w = the (st other) in st(this \<mapsto> \<lparr>mw_id = mw_id w, mw_data = mw_data w\<rparr>, other \<mapsto> w\<lparr>mw_data := left\<rparr>))"

definition messagewriter_move_assign ::
    "u8 list \<Rightarrow> nat \<Rightarrow> nat \<Rightarrow> (nat \<rightharpoonup> messagewriter) \<Rightarrow> (nat \<rightharpoonup> messagewriter)" where
  "messagewriter_move_assign left this other st =
    (if this \<noteq> other
     then (let w = the (st other) in st(this \<mapsto> \<lparr>mw_id = mw_id w, mw_data = mw_data w\<rparr>, other \<mapsto> w\<lparr>mw_data := left\<rparr>))
     else st)"

text \<open>
  \<open>buffer\<close> is the memory behind the pointer and has at least \<open>len\<close> characters; the caller that
  could break this (\<^verbatim>\<open>provider::detail::fs_read\<close>) is modelled with the check in front.
\<close>

definition write_data :: "string \<Rightarrow> nat \<Rightarrow> messagewriter \<Rightarrow> messagewriter" where
  "write_data buffer len w =
    (let effective_size = len mod 2 ^ 32;
         w = write_u32 (word_of_nat effective_size) w
     in if 0 < len then w\<lparr>mw_data := mw_data w @ bytes_of (take effective_size buffer)\<rparr> else w)"

definition write_str :: "string \<Rightarrow> messagewriter \<Rightarrow> messagewriter" where
  "write_str value w = write_data value (length value) w"

definition write_strings :: "string list \<Rightarrow> messagewriter \<Rightarrow> messagewriter" where
  "write_strings list w =
    (let w = write_u32 (word_of_nat (length list mod 2 ^ 32)) w
     in fold write_str list w)"

definition write_access_mode :: "i32 \<Rightarrow> messagewriter \<Rightarrow> messagewriter" where
  "write_access_mode value w = write_i8 (access_mode_from_int value) w"

definition RENAME_NOREPLACE :: u32 where "RENAME_NOREPLACE = 1"
definition RENAME_EXCHANGE :: u32 where "RENAME_EXCHANGE = 2"

definition rename_noreplace :: u8 where "rename_noreplace = 1"
definition rename_exchange :: u8 where "rename_exchange = 2"

definition write_rename_flags :: "u32 \<Rightarrow> messagewriter \<Rightarrow> messagewriter" where
  "write_rename_flags value w =
    (let flags = 0;
         flags = or_if (RENAME_NOREPLACE = value AND RENAME_NOREPLACE) rename_noreplace flags;
         flags = or_if (RENAME_EXCHANGE = value AND RENAME_EXCHANGE) rename_exchange flags
     in write_u8 flags w)"

definition write_mode :: "u32 \<Rightarrow> messagewriter \<Rightarrow> messagewriter" where
  "write_mode value w = write_u32 (filemode_from_mode value) w"

definition write_uid :: "u32 \<Rightarrow> messagewriter \<Rightarrow> messagewriter" where
  "write_uid value w = write_u32 value w"

definition write_gid :: "u32 \<Rightarrow> messagewriter \<Rightarrow> messagewriter" where
  "write_gid value w = write_u32 value w"

definition write_openflags :: "i32 \<Rightarrow> messagewriter \<Rightarrow> messagewriter" where
  "write_openflags value w = write_i32 (openflags_from_int value) w"

definition write_time :: "timespec \<Rightarrow> messagewriter \<Rightarrow> messagewriter" where
  "write_time value w =
    (let w = write_u64 (tv_sec value) w
     in write_u32 (ucast (tv_nsec value)) w)"

definition write_attr :: "stat \<Rightarrow> messagewriter \<Rightarrow> messagewriter" where
  "write_attr attr w =
    (let w = write_u64 (st_ino attr) w;
         w = write_u64 (st_nlink attr) w;
         w = write_mode (filemode_from_mode (st_mode attr)) w;
         w = write_u32 (st_uid attr) w;
         w = write_u32 (st_gid attr) w;
         w = write_u64 (st_rdev attr) w;
         w = write_u64 (st_size attr) w;
         w = write_u64 (st_blocks attr) w;
         w = write_time (st_atim attr) w;
         w = write_time (st_mtim attr) w
     in write_time (st_ctim attr) w)"

definition write_statistics :: "statvfs \<Rightarrow> messagewriter \<Rightarrow> messagewriter" where
  "write_statistics statistics w =
    (let w = write_u64 (f_bsize statistics) w;
         w = write_u64 (f_frsize statistics) w;
         w = write_u64 (f_blocks statistics) w;
         w = write_u64 (f_bfree statistics) w;
         w = write_u64 (f_bavail statistics) w;
         w = write_u64 (f_files statistics) w;
         w = write_u64 (f_ffree statistics) w
     in write_u64 (f_namemax statistics) w)"

text \<open>
  \<^verbatim>\<open>get_data\<close> returns a pointer behind the reserved prefix and the number of bytes from there on:
  together, the bytes handed to \<^verbatim>\<open>lws_write\<close>.
\<close>

definition get_data :: "nat \<Rightarrow> messagewriter \<Rightarrow> u8 list" where
  "get_data lws_pre w =
    (let n = length (mw_data w) - lws_pre in take n (drop lws_pre (mw_data w)))"

subsection \<open>The wire formats of the protocol\<close>

definition enc_str :: "string \<Rightarrow> u8 list" where
  "enc_str s = be_bytes 4 (word_of_nat (length s) :: u32) @ bytes_of s"

definition enc_strings :: "string list \<Rightarrow> u8 list" where
  "enc_strings ss = be_bytes 4 (word_of_nat (length ss) :: u32) @ concat (map enc_str ss)"

definition enc_time :: "timespec \<Rightarrow> u8 list" where
  "enc_time t = be_bytes 8 (tv_sec t) @ be_bytes 4 (ucast (tv_nsec t) :: u32)"

definition enc_attr :: "stat \<Rightarrow> u8 list" where
  "enc_attr a = be_bytes 8 (st_ino a) @ be_bytes 8 (st_nlink a) @
    be_bytes 4 (filemode_from_mode (st_mode a)) @ be_bytes 4 (st_uid a) @ be_bytes 4 (st_gid a) @
    be_bytes 8 (st_rdev a) @ be_bytes 8 (st_size a) @ be_bytes 8 (st_blocks a) @
    enc_time (st_atim a) @ enc_time (st_mtim a) @ enc_time (st_ctim a)"

definition enc_statistics :: "statvfs \<Rightarrow> u8 list" where
  "enc_statistics s = be_bytes 8 (f_bsize s) @ be_bytes 8 (f_frsize s) @ be_bytes 8 (f_blocks s) @
    be_bytes 8 (f_bfree s) @ be_bytes 8 (f_bavail s) @ be_bytes 8 (f_files s) @
    be_bytes 8 (f_ffree s) @ be_bytes 8 (f_namemax s)"

text \<open>
  Strings and lists the 32-bit length fields can describe. The writer cuts a longer string to its
  length modulo \<open>2 ^ 32\<close>; of a longer list it announces only the length modulo \<open>2 ^ 32\<close> entries,
  but writes all of them.
\<close>

definition str_ok :: "string \<Rightarrow> bool" where
  "str_ok s \<longleftrightarrow> length s < 2 ^ 32"

definition strings_ok :: "string list \<Rightarrow> bool" where
  "strings_ok ss \<longleftrightarrow> length ss < 2 ^ 32 \<and> list_all str_ok ss"

definition recv_str :: "string \<Rightarrow> string" where
  "recv_str s = take (length s mod 2 ^ 32) s"

definition recv_strings :: "string list \<Rightarrow> string list" where
  "recv_strings ss = map recv_str (take (length ss mod 2 ^ 32) ss)"

lemma min_mod [simp]: "min n (n mod m) = n mod m" for m n :: nat
  by simp

lemma str_ok_recv_str [simp]: "str_ok (recv_str s)"
  by (simp add: str_ok_def recv_str_def)

lemma recv_str_id: "str_ok s \<Longrightarrow> recv_str s = s"
  by (simp add: str_ok_def recv_str_def)

lemma strings_ok_recv_strings [simp]: "strings_ok (recv_strings ss)"
  by (simp add: strings_ok_def recv_strings_def list_all_iff)

lemma recv_strings_id: "strings_ok ss \<Longrightarrow> recv_strings ss = ss"
  by (simp add: strings_ok_def recv_strings_def list_all_iff recv_str_id map_idI)

subsection \<open>What each member function appends\<close>

text \<open>Appending bytes to the buffer, leaving the rest of the object alone.\<close>

definition append_data :: "u8 list \<Rightarrow> messagewriter \<Rightarrow> messagewriter" where
  "append_data bs w = w\<lparr>mw_data := mw_data w @ bs\<rparr>"

lemma append_data_append [simp]: "append_data cs (append_data bs w) = append_data (bs @ cs) w"
  by (simp add: append_data_def)

lemma append_data_Nil [simp]: "append_data [] w = w"
  by (simp add: append_data_def)

lemma append_data_sel [simp]:
  "mw_id (append_data bs w) = mw_id w" "mw_data (append_data bs w) = mw_data w @ bs"
  by (simp_all add: append_data_def)

lemma write_u8_append [writer_simps]: "write_u8 v w = append_data [v] w"
  by (simp add: write_u8_def append_data_def)

lemma write_i8_append [writer_simps]: "write_i8 v w = append_data [v] w"
  by (simp add: write_i8_def append_data_def)

lemma write_bool_append [writer_simps]: "write_bool b w = append_data [if b then 1 else 0] w"
  by (simp add: write_bool_def append_data_def)

lemma write_u32_append [writer_simps]: "write_u32 v w = append_data (be_bytes 4 v) w"
  by (simp add: write_u32_def append_data_def Let_def list_update_append and_ff_ucast be_bytes_4
      replicate_4)

lemma write_i32_append [writer_simps]: "write_i32 v w = append_data (be_bytes 4 v) w"
  by (simp add: write_i32_def write_u32_append)

lemma write_u64_append [writer_simps]: "write_u64 v w = append_data (be_bytes 8 v) w"
  by (simp add: write_u64_def append_data_def Let_def list_update_append and_ff_ucast be_bytes_8
      replicate_8)

lemma write_data_append [writer_simps]:
  "n \<le> length b \<Longrightarrow> write_data b n w = append_data (enc_str (take (n mod 2 ^ 32) b)) w"
proof -
  assume n: "n \<le> length b"
  have "n mod 4294967296 \<le> length b" using n mod_less_eq_dividend order_trans by blast
  then show ?thesis
    by (simp add: write_data_def Let_def write_u32_append enc_str_def append_data_def min_absorb2)
qed

lemma write_str_append [writer_simps]: "write_str s w = append_data (enc_str (recv_str s)) w"
  by (simp add: write_str_def write_data_append recv_str_def)

lemma fold_write_str:
  "fold write_str ss w = append_data (concat (map (\<lambda>s. enc_str (recv_str s)) ss)) w"
  by (induction ss arbitrary: w) (simp_all add: write_str_append)

lemma write_strings_rest:
  "\<exists>rest. \<forall>w. write_strings ss w = append_data (enc_strings (recv_strings ss) @ rest) w"
proof -
  let ?n = "length ss mod 2 ^ 32" and ?e = "\<lambda>s. enc_str (recv_str s)"
  have "concat (map ?e ss) = concat (map ?e (take ?n ss)) @ concat (map ?e (drop ?n ss))"
    by (simp flip: concat_append map_append)
  moreover have "length (recv_strings ss) = ?n"
    by (simp add: recv_strings_def)
  ultimately have "write_strings ss w =
      append_data (enc_strings (recv_strings ss) @ concat (map ?e (drop ?n ss))) w" for w
    by (simp add: write_strings_def Let_def fold_write_str enc_strings_def write_u32_append
        recv_strings_def comp_def)
  then show ?thesis by blast
qed

lemma write_strings_append [writer_simps]:
  "strings_ok ss \<Longrightarrow> write_strings ss w = append_data (enc_strings ss) w"
  by (simp add: write_strings_def Let_def fold_write_str strings_ok_def enc_strings_def
      write_u32_append recv_str_id list_all_iff cong: map_cong)

lemma write_access_mode_append [writer_simps]:
  "write_access_mode v w = append_data [access_mode_from_int v] w"
  by (simp add: write_access_mode_def write_i8_append)

lemma write_rename_flags_append [writer_simps]:
  "write_rename_flags v w = append_data [ucast (v AND 3)] w"
proof -
  have m: "(3 :: u32) = 1 OR 2" by simp
  have "or_if (RENAME_EXCHANGE = v AND RENAME_EXCHANGE) rename_exchange
      (or_if (RENAME_NOREPLACE = v AND RENAME_NOREPLACE) rename_noreplace 0) = ucast (v AND 3)"
    unfolding m bit.conj_disj_distrib RENAME_NOREPLACE_def RENAME_EXCHANGE_def
      and_exp [of v 0, simplified] and_exp [of v 1, simplified] or_if_def rename_noreplace_def
      rename_exchange_def
    by simp
  then show ?thesis by (simp add: write_rename_flags_def write_u8_append)
qed

lemma write_mode_append [writer_simps]:
  "write_mode v w = append_data (be_bytes 4 (filemode_from_mode v)) w"
  by (simp add: write_mode_def write_u32_append)

lemma write_uid_append [writer_simps]: "write_uid v w = append_data (be_bytes 4 v) w"
  by (simp add: write_uid_def write_u32_append)

lemma write_gid_append [writer_simps]: "write_gid v w = append_data (be_bytes 4 v) w"
  by (simp add: write_gid_def write_u32_append)

lemma write_openflags_append [writer_simps]:
  "write_openflags v w = append_data (be_bytes 4 (openflags_from_int v)) w"
  by (simp add: write_openflags_def write_i32_append)

lemma write_time_append [writer_simps]: "write_time t w = append_data (enc_time t) w"
  by (simp add: write_time_def writer_simps enc_time_def)

lemma write_attr_append [writer_simps]: "write_attr a w = append_data (enc_attr a) w"
  by (simp add: write_attr_def Let_def writer_simps enc_attr_def filemode_from_mode_idem)

lemma write_statistics_append [writer_simps]:
  "write_statistics s w = append_data (enc_statistics s) w"
  by (simp add: write_statistics_def Let_def writer_simps enc_statistics_def)

subsection \<open>The message header\<close>

definition header :: "u32 \<Rightarrow> u8 \<Rightarrow> u8 list" where
  "header msg_id code = be_bytes 4 msg_id @ [code]"

lemma length_header [simp]: "length (header i c) = 5"
  by (simp add: header_def)

lemma messagewriter_request_eq:
  "messagewriter_request pre t = \<lparr>mw_id = 0, mw_data = replicate pre 0 @ header 0 (request_code t)\<rparr>"
  by (simp add: messagewriter_request_def writer_simps header_def append_data_def)

lemma messagewriter_response_eq:
  "messagewriter_response pre t =
    \<lparr>mw_id = 0, mw_data = replicate pre 0 @ header 0 (response_code t)\<rparr>"
  by (simp add: messagewriter_response_def writer_simps header_def append_data_def)

lemma set_id_header:
  "set_id pre i \<lparr>mw_id = j, mw_data = replicate pre 0 @ header k c @ body\<rparr> =
    \<lparr>mw_id = i, mw_data = replicate pre 0 @ header i c @ body\<rparr>"
  by (simp add: set_id_def Let_def list_update_append header_def be_bytes_4 and_ff_ucast)

lemma get_data_message:
  "get_data pre \<lparr>mw_id = i, mw_data = replicate pre 0 @ bs\<rparr> = bs"
  by (simp add: get_data_def Let_def)

end
