(* ===== verification/Message_Reader.thy ===== *)
theory Message_Reader
  imports Message_Writer
begin

text \<open>
  Class \<^verbatim>\<open>messagereader\<close> (\<^verbatim>\<open>ws/messagereader.cpp\<close>): the bytes of a received message and a position in
  them. A member function is a computation in the state-and-exception monad; a read behind the end
  throws \<^verbatim>\<open>std::runtime_error("out of bounds")\<close>. Functions that fill a caller's object through a
  pointer or reference (\<^verbatim>\<open>read_attr\<close>, \<^verbatim>\<open>read_statistics\<close>, \<^verbatim>\<open>read_strings\<close>, \<^verbatim>\<open>read_time\<close>) run on the
  pair of that object and the reader, so that what they stored before an exception is kept.

  The second half is a small calculus of reading: \<open>reads m bs v\<close> says that \<open>m\<close> consumes exactly the
  bytes \<open>bs\<close> and returns \<open>v\<close>, \<open>rejects m bs\<close> that \<open>m\<close> throws on every proper prefix of \<open>bs\<close>, and
  \<open>reader_safe m\<close> that \<open>m\<close> never moves the position behind the end and never changes the bytes.
\<close>

subsection \<open>The class\<close>

record messagereader =
  mr_data :: "u8 list"
  mr_pos :: nat

type_synonym 'a reader_m = "(messagereader, 'a) sm"
type_synonym ('o, 'a) reader_out_m = "('o \<times> messagereader, 'a) sm"

definition messagereader_new :: "u8 list \<Rightarrow> messagereader" where
  "messagereader_new value = \<lparr>mr_data = value, mr_pos = 0\<rparr>"

text \<open>
  Move construction and move assignment, on a store of objects; \<open>left\<close> is what \<^verbatim>\<open>std::move\<close> leaves in the source's
  string, which the language does not specify.
\<close>

definition messagereader_move_construct ::
    "u8 list \<Rightarrow> nat \<Rightarrow> nat \<Rightarrow> (nat \<rightharpoonup> messagereader) \<Rightarrow> (nat \<rightharpoonup> messagereader)" where
  "messagereader_move_construct left this other st =
    (let r = the (st other) in st(this \<mapsto> \<lparr>mr_data = mr_data r, mr_pos = mr_pos r\<rparr>, other \<mapsto> r\<lparr>mr_data := left\<rparr>))"

definition messagereader_move_assign ::
    "u8 list \<Rightarrow> nat \<Rightarrow> nat \<Rightarrow> (nat \<rightharpoonup> messagereader) \<Rightarrow> (nat \<rightharpoonup> messagereader)" where
  "messagereader_move_assign left this other st =
    (if this \<noteq> other
     then (let r = the (st other) in st(this \<mapsto> \<lparr>mr_data = mr_data r, mr_pos = mr_pos r\<rparr>, other \<mapsto> r\<lparr>mr_data := left\<rparr>))
     else st)"

definition out_of_bounds :: exn where
  "out_of_bounds = Runtime_error ''out of bounds''"

definition read_u8 :: "u8 reader_m" where
  "read_u8 = (\<lambda>r.
    if mr_pos r < length (mr_data r)
    then (Inr (mr_data r ! mr_pos r), r\<lparr>mr_pos := mr_pos r + 1\<rparr>)
    else (Inl out_of_bounds, r))"

definition read_bool :: "bool reader_m" where
  "read_bool = bind_m read_u8 (\<lambda>value. return_m (1 = value))"

text \<open>
  \<^verbatim>\<open>static_cast<uint32_t>(data[pos])\<close> sign-extends the signed character before the mask.
\<close>

definition read_u32 :: "u32 reader_m" where
  "read_u32 = (\<lambda>r.
    let data = mr_data r; pos = mr_pos r in
    if pos + 3 < length data
    then
      (let value =
         push_bit 24 ((scast (data ! pos) :: u32) AND 0xff) OR
         push_bit 16 ((scast (data ! (pos + 1)) :: u32) AND 0xff) OR
         push_bit 8 ((scast (data ! (pos + 2)) :: u32) AND 0xff) OR
         ((scast (data ! (pos + 3)) :: u32) AND 0xff)
       in (Inr value, r\<lparr>mr_pos := pos + 4\<rparr>))
    else (Inl out_of_bounds, r))"

text \<open>
  The sum of the eight shifted bytes has 64 bits, but the code stores it in a
  \<^verbatim>\<open>uint32_t value\<close> before returning it as \<^verbatim>\<open>uint64_t\<close>.
\<close>

definition read_u64 :: "u64 reader_m" where
  "read_u64 = (\<lambda>r.
    let data = mr_data r; pos = mr_pos r in
    if pos + 7 < length data
    then
      (let value = ucast (
         push_bit 56 (ucast ((scast (data ! pos) :: i32) AND 0xff) :: u64) OR
         push_bit 48 (ucast ((scast (data ! (pos + 1)) :: i32) AND 0xff)) OR
         push_bit 40 (ucast ((scast (data ! (pos + 2)) :: i32) AND 0xff)) OR
         push_bit 32 (ucast ((scast (data ! (pos + 3)) :: i32) AND 0xff)) OR
         push_bit 24 (ucast ((scast (data ! (pos + 4)) :: i32) AND 0xff)) OR
         push_bit 16 (ucast ((scast (data ! (pos + 5)) :: i32) AND 0xff)) OR
         push_bit 8 (ucast ((scast (data ! (pos + 6)) :: i32) AND 0xff)) OR
         ucast ((scast (data ! (pos + 7)) :: i32) AND 0xff)) :: u32
       in (Inr (ucast value), r\<lparr>mr_pos := pos + 8\<rparr>))
    else (Inl out_of_bounds, r))"

definition read_i32 :: "i32 reader_m" where
  "read_i32 = bind_m read_u32 return_m"

definition read_bytes :: "string reader_m" where
  "read_bytes = bind_m read_u32 (\<lambda>len r.
    if mr_pos r + unat len \<le> length (mr_data r)
    then (Inr (string_of (take (unat len) (drop (mr_pos r) (mr_data r)))),
          r\<lparr>mr_pos := mr_pos r + unat len\<rparr>)
    else (Inl out_of_bounds, r))"

definition read_str :: "string reader_m" where
  "read_str = read_bytes"

definition read_result :: "i32 reader_m" where
  "read_result = bind_m read_i32 (\<lambda>value. return_m (to_fusestatus value))"

definition read_access_mode :: "i32 reader_m" where
  "read_access_mode = bind_m read_u8 (\<lambda>value. return_m (access_mode_to_int value))"

definition read_mode :: "u32 reader_m" where
  "read_mode = bind_m read_u32 (\<lambda>value. return_m (filemode_to_mode value))"

definition read_openflags :: "i32 reader_m" where
  "read_openflags = bind_m read_i32 (\<lambda>value. return_m (openflags_to_int value))"

subsection \<open>Reading into a caller's object\<close>

text \<open>\<^verbatim>\<open>object.field = reader.read_...()\<close>: the store happens only when the read returns.\<close>

definition assign :: "('a \<Rightarrow> 'o \<Rightarrow> 'o) \<Rightarrow> 'a reader_m \<Rightarrow> ('o, unit) reader_out_m" where
  "assign store m = (\<lambda>(obj, r).
    case m r of (Inl e, r') \<Rightarrow> (Inl e, (obj, r')) | (Inr a, r') \<Rightarrow> (Inr (), (store a obj, r')))"

text \<open>A read whose result is a local value.\<close>

definition local_read :: "'a reader_m \<Rightarrow> ('o, 'a) reader_out_m" where
  "local_read m = (\<lambda>(obj, r). case m r of (v, r') \<Rightarrow> (v, (obj, r')))"

definition then_m :: "('s, unit) sm \<Rightarrow> ('s, 'b) sm \<Rightarrow> ('s, 'b) sm" where
  "then_m m n = bind_m m (\<lambda>_. n)"

definition read_attr :: "(stat, unit) reader_out_m" where
  "read_attr =
    then_m (assign (\<lambda>v a. a\<lparr>st_ino := v\<rparr>) read_u64)
    (then_m (assign (\<lambda>v a. a\<lparr>st_nlink := v\<rparr>) read_u64)
    (then_m (assign (\<lambda>v a. a\<lparr>st_mode := v\<rparr>) read_mode)
    (then_m (assign (\<lambda>v a. a\<lparr>st_uid := v\<rparr>) read_u32)
    (then_m (assign (\<lambda>v a. a\<lparr>st_gid := v\<rparr>) read_u32)
    (then_m (assign (\<lambda>v a. a\<lparr>st_rdev := v\<rparr>) read_u64)
    (then_m (assign (\<lambda>v a. a\<lparr>st_size := v\<rparr>) read_u64)
    (then_m (assign (\<lambda>v a. a\<lparr>st_blocks := v\<rparr>) read_u64)
    (then_m (assign (\<lambda>v a. a\<lparr>st_atim := (st_atim a)\<lparr>tv_sec := v\<rparr>\<rparr>) read_u64)
    (then_m (assign (\<lambda>v a. a\<lparr>st_atim := (st_atim a)\<lparr>tv_nsec := ucast v\<rparr>\<rparr>) read_u32)
    (then_m (assign (\<lambda>v a. a\<lparr>st_mtim := (st_mtim a)\<lparr>tv_sec := v\<rparr>\<rparr>) read_u64)
    (then_m (assign (\<lambda>v a. a\<lparr>st_mtim := (st_mtim a)\<lparr>tv_nsec := ucast v\<rparr>\<rparr>) read_u32)
    (then_m (assign (\<lambda>v a. a\<lparr>st_ctim := (st_ctim a)\<lparr>tv_sec := v\<rparr>\<rparr>) read_u64)
    (assign (\<lambda>v a. a\<lparr>st_ctim := (st_ctim a)\<lparr>tv_nsec := ucast v\<rparr>\<rparr>) read_u32)))))))))))))"

definition read_statistics :: "(statvfs, unit) reader_out_m" where
  "read_statistics =
    then_m (assign (\<lambda>v s. s\<lparr>f_bsize := v\<rparr>) read_u64)
    (then_m (assign (\<lambda>v s. s\<lparr>f_frsize := v\<rparr>) read_u64)
    (then_m (assign (\<lambda>v s. s\<lparr>f_blocks := v\<rparr>) read_u64)
    (then_m (assign (\<lambda>v s. s\<lparr>f_bfree := v\<rparr>) read_u64)
    (then_m (assign (\<lambda>v s. s\<lparr>f_bavail := v\<rparr>) read_u64)
    (then_m (assign (\<lambda>v s. s\<lparr>f_files := v\<rparr>) read_u64)
    (then_m (assign (\<lambda>v s. s\<lparr>f_ffree := v\<rparr>) read_u64)
    (assign (\<lambda>v s. s\<lparr>f_namemax := v\<rparr>) read_u64)))))))"

definition read_time :: "(timespec, unit) reader_out_m" where
  "read_time =
    then_m (assign (\<lambda>v t. t\<lparr>tv_sec := v\<rparr>) read_u64)
    (assign (\<lambda>v t. t\<lparr>tv_nsec := ucast v\<rparr>) read_u32)"

text \<open>The loop of \<^verbatim>\<open>read_strings\<close>, with the number of iterations left.\<close>

fun read_strings_loop :: "nat \<Rightarrow> (string list, unit) reader_out_m" where
  "read_strings_loop 0 = return_m ()"
| "read_strings_loop (Suc n) =
    then_m (assign (\<lambda>entry entries. entries @ [entry]) read_str) (read_strings_loop n)"

definition read_strings :: "(string list, unit) reader_out_m" where
  "read_strings = bind_m (local_read read_u32) (\<lambda>count. read_strings_loop (unat count))"

subsection \<open>The bytes ahead\<close>

definition remaining :: "messagereader \<Rightarrow> u8 list" where
  "remaining r = drop (mr_pos r) (mr_data r)"

definition advance :: "nat \<Rightarrow> messagereader \<Rightarrow> messagereader" where
  "advance n r = r\<lparr>mr_pos := mr_pos r + n\<rparr>"

lemma remaining_new [simp]: "remaining (messagereader_new bs) = bs"
  by (simp add: remaining_def messagereader_new_def)

lemma advance_0 [simp]: "advance 0 r = r"
  by (simp add: advance_def)

lemma advance_advance [simp]: "advance n (advance m r) = advance (m + n) r"
  by (simp add: advance_def add.assoc)

lemma remaining_advance [simp]: "remaining (advance n r) = drop n (remaining r)"
  by (simp add: remaining_def advance_def add.commute)

lemma remaining_length: "length (remaining r) = length (mr_data r) - mr_pos r"
  by (simp add: remaining_def)

lemma remaining_nth: "i < length (remaining r) \<Longrightarrow> mr_data r ! (mr_pos r + i) = remaining r ! i"
  by (simp add: remaining_def)

subsection \<open>Reading exactly some bytes\<close>

definition reads :: "'a reader_m \<Rightarrow> u8 list \<Rightarrow> 'a \<Rightarrow> bool" where
  "reads m bs v \<longleftrightarrow>
    (\<forall>r rest. remaining r = bs @ rest \<longrightarrow> m r = (Inr v, advance (length bs) r))"

lemma readsD: "reads m bs v \<Longrightarrow> remaining r = bs @ rest \<Longrightarrow> m r = (Inr v, advance (length bs) r)"
  by (auto simp: reads_def)

lemma reads_return [reader_rules]: "reads (return_m v) [] v"
  by (simp add: reads_def return_apply)

lemma reads_bind [reader_rules]:
  assumes "reads m bs x" and "reads (f x) cs v"
  shows "reads (bind_m m f) (bs @ cs) v"
  unfolding reads_def
proof (intro allI impI)
  fix r rest
  assume "remaining r = (bs @ cs) @ rest"
  then have r: "remaining r = bs @ cs @ rest" by simp
  then have "m r = (Inr x, advance (length bs) r)"
    by (rule readsD [OF assms(1)])
  moreover have "f x (advance (length bs) r) = (Inr v, advance (length bs + length cs) r)"
    using readsD [OF assms(2), of "advance (length bs) r" rest] r by simp
  ultimately show "bind_m m f r = (Inr v, advance (length (bs @ cs)) r)"
    by (simp add: bind_step)
qed

lemma reads_map: "reads m bs x \<Longrightarrow> reads (bind_m m (\<lambda>x. return_m (f x))) bs (f x)"
  using reads_bind [of m bs x "\<lambda>x. return_m (f x)" "[]" "f x"] by (simp add: reads_return)

text \<open>The same for reads into a caller's object.\<close>

definition reads_out :: "('o, 'a) reader_out_m \<Rightarrow> 'o \<Rightarrow> u8 list \<Rightarrow> 'a \<Rightarrow> 'o \<Rightarrow> bool" where
  "reads_out m obj bs v obj' \<longleftrightarrow>
    (\<forall>r rest. remaining r = bs @ rest \<longrightarrow> m (obj, r) = (Inr v, (obj', advance (length bs) r)))"

lemma reads_outD:
  "reads_out m obj bs v obj' \<Longrightarrow> remaining r = bs @ rest \<Longrightarrow>
    m (obj, r) = (Inr v, (obj', advance (length bs) r))"
  by (auto simp: reads_out_def)

lemma reads_out_return [reader_rules]: "reads_out (return_m v) obj [] v obj"
  by (simp add: reads_out_def return_apply)

lemma reads_out_bind [reader_rules]:
  assumes "reads_out m obj bs x obj'" and "reads_out (f x) obj' cs v obj''"
  shows "reads_out (bind_m m f) obj (bs @ cs) v obj''"
  unfolding reads_out_def
proof (intro allI impI)
  fix r rest
  assume "remaining r = (bs @ cs) @ rest"
  then have r: "remaining r = bs @ cs @ rest" by simp
  then have "m (obj, r) = (Inr x, (obj', advance (length bs) r))"
    by (rule reads_outD [OF assms(1)])
  moreover have "f x (obj', advance (length bs) r) =
      (Inr v, (obj'', advance (length bs + length cs) r))"
    using reads_outD [OF assms(2), of "advance (length bs) r" rest] r by simp
  ultimately show "bind_m m f (obj, r) = (Inr v, (obj'', advance (length (bs @ cs)) r))"
    by (simp add: bind_step)
qed

lemma reads_out_then [reader_rules]:
  "reads_out m obj bs () obj' \<Longrightarrow> reads_out n obj' cs v obj'' \<Longrightarrow>
    reads_out (then_m m n) obj (bs @ cs) v obj''"
  by (simp add: then_m_def reads_out_bind)

lemma reads_out_assign [reader_rules]:
  "reads m bs v \<Longrightarrow> reads_out (assign store m) obj bs () (store v obj)"
  by (auto simp: reads_out_def reads_def assign_def)

lemma reads_out_local [reader_rules]:
  "reads m bs v \<Longrightarrow> reads_out (local_read m) obj bs v obj"
  by (auto simp: reads_out_def reads_def local_read_def)

subsection \<open>Rejecting truncated input\<close>

definition rejects :: "'a reader_m \<Rightarrow> u8 list \<Rightarrow> bool" where
  "rejects m bs \<longleftrightarrow>
    (\<forall>r. strict_prefix (remaining r) bs \<longrightarrow> (\<exists>r'. m r = (Inl out_of_bounds, r')))"

lemma rejectsD:
  "rejects m bs \<Longrightarrow> strict_prefix (remaining r) bs \<Longrightarrow> \<exists>r'. m r = (Inl out_of_bounds, r')"
  by (simp add: rejects_def)

lemma rejects_Nil [simp]: "rejects m []"
  by (simp add: rejects_def)

lemma rejects_bind:
  assumes "rejects m bs" and "reads m bs x" and "rejects (f x) cs"
  shows "rejects (bind_m m f) (bs @ cs)"
  unfolding rejects_def
proof (intro allI impI)
  fix r
  assume "strict_prefix (remaining r) (bs @ cs)"
  then consider "strict_prefix (remaining r) bs"
    | q where "remaining r = bs @ q" "strict_prefix q cs"
    using strict_prefix_append_cases by blast
  then show "\<exists>r'. bind_m m f r = (Inl out_of_bounds, r')"
  proof cases
    case 1
    then show ?thesis using rejectsD [OF assms(1)] by (metis bind_fail)
  next
    case 2
    then have "m r = (Inr x, advance (length bs) r)"
      using readsD [OF assms(2)] by blast
    moreover have "\<exists>r'. f x (advance (length bs) r) = (Inl out_of_bounds, r')"
      using 2 by (intro rejectsD [OF assms(3)]) simp
    ultimately show ?thesis by (auto simp: bind_step)
  qed
qed

lemma rejects_map: "rejects m bs \<Longrightarrow> rejects (bind_m m (\<lambda>x. return_m (f x))) bs"
  unfolding rejects_def by (metis bind_fail)

definition rejects_out :: "('o, 'a) reader_out_m \<Rightarrow> 'o \<Rightarrow> u8 list \<Rightarrow> bool" where
  "rejects_out m obj bs \<longleftrightarrow>
    (\<forall>r. strict_prefix (remaining r) bs \<longrightarrow> (\<exists>s'. m (obj, r) = (Inl out_of_bounds, s')))"

lemma rejects_outD:
  "rejects_out m obj bs \<Longrightarrow> strict_prefix (remaining r) bs \<Longrightarrow>
    \<exists>s'. m (obj, r) = (Inl out_of_bounds, s')"
  by (simp add: rejects_out_def)

lemma rejects_out_bind:
  assumes "rejects_out m obj bs" and "reads_out m obj bs x obj'" and "rejects_out (f x) obj' cs"
  shows "rejects_out (bind_m m f) obj (bs @ cs)"
  unfolding rejects_out_def
proof (intro allI impI)
  fix r
  assume "strict_prefix (remaining r) (bs @ cs)"
  then consider "strict_prefix (remaining r) bs"
    | q where "remaining r = bs @ q" "strict_prefix q cs"
    using strict_prefix_append_cases by blast
  then show "\<exists>s'. bind_m m f (obj, r) = (Inl out_of_bounds, s')"
  proof cases
    case 1
    then show ?thesis using assms(1) unfolding rejects_out_def by (metis bind_fail)
  next
    case 2
    then have "m (obj, r) = (Inr x, (obj', advance (length bs) r))"
      using reads_outD [OF assms(2)] by blast
    moreover have "\<exists>s'. f x (obj', advance (length bs) r) = (Inl out_of_bounds, s')"
      using 2 assms(3) by (simp add: rejects_out_def)
    ultimately show ?thesis by (auto simp: bind_step)
  qed
qed

lemma rejects_out_then:
  "rejects_out m obj bs \<Longrightarrow> reads_out m obj bs () obj' \<Longrightarrow> rejects_out n obj' cs \<Longrightarrow>
    rejects_out (then_m m n) obj (bs @ cs)"
  unfolding then_m_def by (rule rejects_out_bind)

lemma rejects_out_local: "rejects m bs \<Longrightarrow> rejects_out (local_read m) obj bs"
  by (fastforce simp: rejects_out_def rejects_def local_read_def)

lemma rejects_out_assign: "rejects m bs \<Longrightarrow> rejects_out (assign store m) obj bs"
  by (fastforce simp: rejects_out_def rejects_def assign_def)

end
