(* ===== verification/Message_Codec.thy ===== *)
theory Message_Codec
  imports Message_Reader
begin

text \<open>
  What the reader makes of what the writer wrote. Each wire type is one instance of the interface
  \<open>codec\<close>: a member function of \<^verbatim>\<open>messagewriter\<close>, the bytes it appends, the member function of
  \<^verbatim>\<open>messagereader\<close> that reads them, and the value that arrives. Its laws give, once and for all, the
  round trip and the rejection of truncated messages.

  The value that arrives is not always the value sent: a \<^verbatim>\<open>u64\<close> arrives with its upper half cleared,
  because \<^verbatim>\<open>messagereader::read_u64\<close> collects the bytes in a 32-bit variable; modes and flags arrive
  normalised.
\<close>

subsection \<open>The value that arrives\<close>

definition low32 :: "u64 \<Rightarrow> u64" where
  "low32 v = take_bit 32 v"

definition recv_time :: "timespec \<Rightarrow> timespec" where
  "recv_time t = \<lparr>tv_sec = low32 (tv_sec t), tv_nsec = low32 (tv_nsec t)\<rparr>"

definition recv_attr :: "stat \<Rightarrow> stat \<Rightarrow> stat" where
  "recv_attr a obj = obj
    \<lparr>st_ino := low32 (st_ino a), st_nlink := low32 (st_nlink a),
     st_mode := filemode_from_mode (st_mode a), st_uid := st_uid a, st_gid := st_gid a,
     st_rdev := low32 (st_rdev a), st_size := low32 (st_size a), st_blocks := low32 (st_blocks a),
     st_atim := recv_time (st_atim a), st_mtim := recv_time (st_mtim a),
     st_ctim := recv_time (st_ctim a)\<rparr>"

definition recv_statistics :: "statvfs \<Rightarrow> statvfs \<Rightarrow> statvfs" where
  "recv_statistics s obj = obj
    \<lparr>f_bsize := low32 (f_bsize s), f_frsize := low32 (f_frsize s), f_blocks := low32 (f_blocks s),
     f_bfree := low32 (f_bfree s), f_bavail := low32 (f_bavail s), f_files := low32 (f_files s),
     f_ffree := low32 (f_ffree s), f_namemax := low32 (f_namemax s)\<rparr>"

subsection \<open>The primitive reads\<close>


lemma join_be_4:
  "push_bit 24 (ucast (ucast (drop_bit 24 v) :: u8) :: u32) OR
   push_bit 16 (ucast (ucast (drop_bit 16 v) :: u8)) OR
   push_bit 8 (ucast (ucast (drop_bit 8 v) :: u8)) OR
   ucast (ucast v :: u8) = v" (is "?l = v") for v :: u32
proof (rule bit_word_eqI)
  fix n :: nat
  assume n: "n < LENGTH(32)"
  then consider "n < 8" | "8 \<le> n \<and> n < 16" | "16 \<le> n \<and> n < 24" | "24 \<le> n" by linarith
  then show "bit ?l n = bit v n"
    using n by cases (auto simp: bit_or_iff bit_push_bit_iff bit_unsigned_iff bit_drop_bit_eq)
qed

lemma join_be_8:
  "(ucast (push_bit 56 (ucast (ucast (ucast (drop_bit 56 v) :: u8) :: i32) :: u64) OR
   push_bit 48 (ucast (ucast (ucast (drop_bit 48 v) :: u8) :: i32)) OR
   push_bit 40 (ucast (ucast (ucast (drop_bit 40 v) :: u8) :: i32)) OR
   push_bit 32 (ucast (ucast (ucast (drop_bit 32 v) :: u8) :: i32)) OR
   push_bit 24 (ucast (ucast (ucast (drop_bit 24 v) :: u8) :: i32)) OR
   push_bit 16 (ucast (ucast (ucast (drop_bit 16 v) :: u8) :: i32)) OR
   push_bit 8 (ucast (ucast (ucast (drop_bit 8 v) :: u8) :: i32)) OR
   ucast (ucast (ucast v :: u8) :: i32)) :: u32) = ucast v" (is "?l = _") for v :: u64
proof (rule bit_word_eqI)
  fix n :: nat
  assume n: "n < LENGTH(32)"
  then consider "n < 8" | "8 \<le> n \<and> n < 16" | "16 \<le> n \<and> n < 24" | "24 \<le> n" by linarith
  then show "bit ?l n = bit (ucast v :: u32) n"
    using n by cases (auto simp: bit_or_iff bit_push_bit_iff bit_unsigned_iff bit_drop_bit_eq)
qed

lemma low32_ucast: "ucast (ucast v :: u32) = low32 v"
  by (rule bit_word_eqI) (auto simp: low32_def bit_take_bit_iff bit_unsigned_iff)

lemma low32_id: "low32 v = v \<longleftrightarrow> v < 2 ^ 32"
  unfolding low32_def
  by (simp add: word_less_nat_alt word_unat_eq_iff unsigned_take_bit_eq take_bit_nat_eq_self_iff)

lemma remaining_bytes:
  assumes "remaining r = bs @ rest"
  shows "i < length bs \<Longrightarrow> mr_data r ! (mr_pos r + i) = bs ! i"
    and "bs \<noteq> [] \<Longrightarrow> mr_pos r + length bs \<le> length (mr_data r)"
proof -
  show "i < length bs \<Longrightarrow> mr_data r ! (mr_pos r + i) = bs ! i"
    using assms remaining_nth [of i r] by (simp add: nth_append)
  show "bs \<noteq> [] \<Longrightarrow> mr_pos r + length bs \<le> length (mr_data r)"
    using arg_cong [OF assms, of length] remaining_length [of r] by (cases bs) auto
qed

lemma reads_u8 [reader_rules]: "reads read_u8 [b] b"
  unfolding reads_def
proof (intro allI impI)
  fix r rest
  assume r: "remaining r = [b] @ rest"
  note b = remaining_bytes [OF r]
  show "read_u8 r = (Inr b, advance (length [b]) r)"
    using b(1) [of 0] b(2) by (simp add: read_u8_def advance_def)
qed

lemma reads_u32 [reader_rules]: "reads read_u32 (be_bytes 4 v) v"
  unfolding reads_def
proof (intro allI impI)
  fix r rest assume r: "remaining r = be_bytes 4 v @ rest"
  note b = remaining_bytes [OF r]
  have "mr_pos r + 3 < length (mr_data r)" using b(2) by simp
  moreover have "mr_data r ! mr_pos r = ucast (drop_bit 24 v)" 
    "mr_data r ! (mr_pos r + 1) = ucast (drop_bit 16 v)" 
    "mr_data r ! (mr_pos r + 2) = ucast (drop_bit 8 v)" 
    "mr_data r ! (mr_pos r + 3) = ucast v" 
    using b(1)[of 0] b(1)[of 1] b(1)[of 2] b(1)[of 3] by (simp_all add: be_bytes_4)
  ultimately show "read_u32 r = (Inr v, advance (length (be_bytes 4 v)) r)"
    by (simp add: read_u32_def Let_def scast_and_ff_32 join_be_4 advance_def)
qed

lemma reads_u64 [reader_rules]: "reads read_u64 (be_bytes 8 v) (low32 v)"
  unfolding reads_def
proof (intro allI impI)
  fix r rest assume r: "remaining r = be_bytes 8 v @ rest"
  note b = remaining_bytes [OF r]
  have "mr_pos r + 7 < length (mr_data r)" using b(2) by simp
  moreover have "mr_data r ! mr_pos r = ucast (drop_bit 56 v)" 
    "mr_data r ! (mr_pos r + 1) = ucast (drop_bit 48 v)" 
    "mr_data r ! (mr_pos r + 2) = ucast (drop_bit 40 v)" 
    "mr_data r ! (mr_pos r + 3) = ucast (drop_bit 32 v)" 
    "mr_data r ! (mr_pos r + 4) = ucast (drop_bit 24 v)" 
    "mr_data r ! (mr_pos r + 5) = ucast (drop_bit 16 v)" 
    "mr_data r ! (mr_pos r + 6) = ucast (drop_bit 8 v)" 
    "mr_data r ! (mr_pos r + 7) = ucast v" 
    using b(1)[of 0] b(1)[of 1] b(1)[of 2] b(1)[of 3] b(1)[of 4] b(1)[of 5] b(1)[of 6] b(1)[of 7]
    by (simp_all add: be_bytes_8)
  ultimately show "read_u64 r = (Inr (low32 v), advance (length (be_bytes 8 v)) r)"
    by (simp add: read_u64_def Let_def scast_and_ff_32 join_be_8 low32_ucast advance_def)
qed

lemma rejects_short:
  assumes "\<And>r. length (mr_data r) < mr_pos r + n \<Longrightarrow> m r = (Inl out_of_bounds, r)" "length bs = n"
  shows "rejects m bs"
  unfolding rejects_def
proof (intro allI impI exI)
  fix r
  assume "strict_prefix (remaining r) bs"
  then have "length (remaining r) < n" using assms(2) by (auto dest: prefix_length_less)
  then have "length (mr_data r) < mr_pos r + n" by (simp add: remaining_length)
  then show "m r = (Inl out_of_bounds, r)" by (rule assms(1))
qed

lemma rejects_u8: "rejects read_u8 [b]"
  by (rule rejects_short [of 1]) (simp_all add: read_u8_def)

lemma rejects_u32: "rejects read_u32 (be_bytes 4 v)"
  by (rule rejects_short [of 4]) (simp_all add: read_u32_def Let_def)

lemma rejects_u64: "rejects read_u64 (be_bytes 8 v)"
  by (rule rejects_short [of 8]) (simp_all add: read_u64_def Let_def)

text \<open>The number that four bytes stand for.\<close>

definition u32_of :: "u8 list \<Rightarrow> u32" where
  "u32_of bs = foldl (\<lambda>v b. push_bit 8 v OR ucast b) 0 bs"

lemma u32_of_be_bytes: "u32_of (be_bytes 4 v) = v"
proof (rule bit_word_eqI)
  fix n :: nat
  assume n: "n < LENGTH(32)"
  then consider "n < 8" | "8 \<le> n \<and> n < 16" | "16 \<le> n \<and> n < 24" | "24 \<le> n" by linarith
  then show "bit (u32_of (be_bytes 4 v)) n = bit v n"
    using n by cases (auto simp: u32_of_def be_bytes_4 bit_or_iff bit_push_bit_iff bit_unsigned_iff bit_drop_bit_eq)
qed

lemma length_4: "length bs = 4 \<Longrightarrow> \<exists>a b c d. bs = [a, b, c, d]"
  by (auto simp: numeral_eq_Suc length_Suc_conv)

lemma be_bytes_u32_of: "length bs = 4 \<Longrightarrow> be_bytes 4 (u32_of bs) = bs"
proof -
  assume "length bs = 4"
  then obtain a b c d where bs: "bs = [a, b, c, d]" using length_4 by blast
  show ?thesis
    unfolding bs be_bytes_4 list.inject
    by (intro conjI bit_word_eqI TrueI)
      (auto simp: u32_of_def bit_or_iff bit_push_bit_iff bit_unsigned_iff bit_drop_bit_eq dest: bit_imp_le_length)
qed

subsection \<open>The derived reads\<close>

lemma read_i32_eq: "read_i32 = read_u32"
  by (simp add: read_i32_def)

lemma reads_i32 [reader_rules]: "reads read_i32 (be_bytes 4 v) v"
  by (simp add: read_i32_eq reads_u32)

lemma reads_result [reader_rules]: "reads read_result (be_bytes 4 v) v"
  using reads_map [OF reads_i32, of to_fusestatus] by (simp add: read_result_def)

lemma reads_bool [reader_rules]: "reads read_bool [if b then 1 else 0] b"
  using reads_map [OF reads_u8, of "\<lambda>v. 1 = v" "if b then 1 else 0"]
  by (cases b) (simp_all add: read_bool_def)

lemma reads_access_mode [reader_rules]:
  "reads read_access_mode [access_mode_from_int v] (v AND 7)"
  using reads_map [OF reads_u8, of access_mode_to_int "access_mode_from_int v"]
  by (simp add: read_access_mode_def access_mode_to_from)

lemma reads_mode [reader_rules]:
  "reads read_mode (be_bytes 4 (filemode_from_mode v)) (filemode_from_mode v)"
  using reads_map [OF reads_u32, of filemode_to_mode "filemode_from_mode v"]
  by (simp add: read_mode_def filemode_to_mode_eq filemode_from_mode_idem)

lemma reads_openflags [reader_rules]:
  "reads read_openflags (be_bytes 4 (openflags_from_int v)) (openflags_to_int (openflags_from_int v))"
  using reads_map [OF reads_i32, of openflags_to_int "openflags_from_int v"]
  by (simp add: read_openflags_def)

text \<open>The body of a string: \<open>n\<close> bytes from the current position.\<close>

definition read_block :: "nat \<Rightarrow> string reader_m" where
  "read_block n = (\<lambda>r.
    if mr_pos r + n \<le> length (mr_data r)
    then (Inr (string_of (take n (remaining r))), advance n r)
    else (Inl out_of_bounds, r))"

lemma read_bytes_eq: "read_bytes = bind_m read_u32 (\<lambda>len. read_block (unat len))"
  by (simp add: read_bytes_def read_block_def remaining_def advance_def cong: if_cong)

lemma reads_block: "s \<noteq> [] \<Longrightarrow> reads (read_block (length s)) (bytes_of s) s"
  unfolding reads_def
proof (intro allI impI)
  fix r rest
  assume "s \<noteq> []" and r: "remaining r = bytes_of s @ rest"
  then have "mr_pos r + length s \<le> length (mr_data r)"
    using remaining_bytes(2) [OF r] by simp
  then show "read_block (length s) r = (Inr s, advance (length (bytes_of s)) r)"
    using r by (simp add: read_block_def comp_def)
qed

text \<open>An empty string is read at any position that a four-byte read left in range.\<close>

lemma reads_bytes_empty: "reads read_bytes (be_bytes 4 (0 :: u32)) []"
  unfolding reads_def
proof (intro allI impI)
  fix r rest
  assume r: "remaining r = be_bytes 4 (0 :: u32) @ rest"
  then have "read_u32 r = (Inr 0, advance 4 r)"
    using readsD [OF reads_u32 r] by simp
  moreover have "mr_pos r + 4 \<le> length (mr_data r)"
    using remaining_bytes(2) [OF r] by simp
  ultimately show "read_bytes r = (Inr [], advance (length (be_bytes 4 (0 :: u32))) r)"
    by (simp add: read_bytes_eq bind_step read_block_def) (simp add: advance_def)
qed

lemma reads_bytes [reader_rules]:
  assumes "length s < 2 ^ 32"
  shows "reads read_bytes (enc_str s) s"
proof (cases "s = []")
  case True
  then show ?thesis using reads_bytes_empty by (simp add: enc_str_def)
next
  case False
  have "unat (word_of_nat (length s) :: u32) = length s"
    using assms by (simp add: unat_of_nat take_bit_nat_eq_self)
  then show ?thesis
    using reads_bind [OF reads_u32, of "\<lambda>len. read_block (unat len)" "word_of_nat (length s)"]
      reads_block [OF False] by (simp add: read_bytes_eq enc_str_def)
qed

lemma reads_str [reader_rules]: "str_ok s \<Longrightarrow> reads read_str (enc_str s) s"
  by (simp add: read_str_def reads_bytes str_ok_def)

lemma rejects_block: "rejects (read_block (length bs)) bs"
  by (rule rejects_short [of "length bs"]) (simp_all add: read_block_def)

lemma rejects_bytes:
  assumes "length s < 2 ^ 32"
  shows "rejects read_bytes (enc_str s)"
proof -
  have "unat (word_of_nat (length s) :: u32) = length s"
    using assms by (simp add: unat_of_nat take_bit_nat_eq_self)
  then show ?thesis
    using rejects_bind [OF rejects_u32 reads_u32, of "\<lambda>len. read_block (unat len)"
        "word_of_nat (length s)" "bytes_of s"] rejects_block [of "bytes_of s"]
    by (simp add: read_bytes_eq enc_str_def)
qed

lemma timespec_update [simp]: "t\<lparr>tv_sec := a, tv_nsec := b\<rparr> = \<lparr>tv_sec = a, tv_nsec = b\<rparr>"
  for t :: timespec
  by (cases t) simp

lemma reads_out_assignI:
  "reads m bs v \<Longrightarrow> store v obj = obj' \<Longrightarrow> reads_out (assign store m) obj bs () obj'"
  using reads_out_assign by metis

lemmas reads_field = reads_out_then [OF reads_out_assign]

lemma reads_out_time [reader_rules]: "reads_out read_time obj (enc_time t) () (recv_time t)"
proof -
  have "reads_out read_time obj (enc_time t) ()
      (obj\<lparr>tv_sec := low32 (tv_sec t)\<rparr>\<lparr>tv_nsec := ucast (ucast (tv_nsec t) :: u32)\<rparr>)"
    unfolding read_time_def enc_time_def by (rule reader_rules)+
  then show ?thesis by (simp add: recv_time_def low32_ucast)
qed

lemma reads_out_statistics [reader_rules]:
  "reads_out read_statistics obj (enc_statistics s) () (recv_statistics s obj)"
  unfolding read_statistics_def enc_statistics_def recv_statistics_def by (rule reader_rules)+

lemma reads_out_attr [reader_rules]:
  "reads_out read_attr obj (enc_attr a) () (recv_attr a obj)"
  unfolding read_attr_def enc_attr_def enc_time_def append_assoc
  by (rule reads_field reads_out_assignI, rule reader_rules)+
    (simp add: recv_attr_def recv_time_def low32_ucast)

lemma reads_out_strings_loop:
  "list_all str_ok ss \<Longrightarrow>
    reads_out (read_strings_loop (length ss)) obj (concat (map enc_str ss)) () (obj @ ss)"
proof (induction ss arbitrary: obj)
  case Nil
  show ?case by (simp add: reads_out_return)
next
  case (Cons s ss)
  then have "reads_out (read_strings_loop (length ss)) (obj @ [s]) (concat (map enc_str ss)) ()
      ((obj @ [s]) @ ss)"
    by (intro Cons.IH) simp
  moreover have "reads read_str (enc_str s) s"
    using Cons.prems by (simp add: reads_str)
  ultimately show ?case by (simp add: reads_field)
qed

lemma reads_out_strings [reader_rules]:
  assumes "strings_ok ss"
  shows "reads_out read_strings obj (enc_strings ss) () (obj @ ss)"
proof -
  have "unat (word_of_nat (length ss) :: u32) = length ss"
    using assms by (simp add: strings_ok_def unat_of_nat)
  then have "reads_out (read_strings_loop (unat (word_of_nat (length ss) :: u32))) obj
      (concat (map enc_str ss)) () (obj @ ss)"
    using assms reads_out_strings_loop by (simp add: strings_ok_def)
  then show ?thesis
    unfolding read_strings_def enc_strings_def
    by (rule reads_out_bind [OF reads_out_local [OF reads_u32]])
qed

subsection \<open>Truncated messages\<close>

lemma rejects_str: "str_ok s \<Longrightarrow> rejects read_str (enc_str s)"
  by (simp add: read_str_def rejects_bytes str_ok_def)

lemma rejects_result: "rejects read_result (be_bytes 4 v)"
  unfolding read_result_def read_i32_eq by (rule rejects_map [OF rejects_u32])

lemma rejects_mode: "rejects read_mode (be_bytes 4 v)"
  unfolding read_mode_def by (rule rejects_map [OF rejects_u32])

lemma rejects_openflags: "rejects read_openflags (be_bytes 4 v)"
  unfolding read_openflags_def read_i32_eq by (rule rejects_map [OF rejects_u32])

lemma rejects_access_mode: "rejects read_access_mode [b]"
  unfolding read_access_mode_def by (rule rejects_map [OF rejects_u8])

lemma rejects_bool: "rejects read_bool [b]"
  unfolding read_bool_def by (rule rejects_map [OF rejects_u8])

lemmas rejects_field =
  rejects_out_then [OF rejects_out_assign [OF rejects_u64] reads_out_assign [OF reads_u64]]
  rejects_out_then [OF rejects_out_assign [OF rejects_u32] reads_out_assign [OF reads_u32]]
  rejects_out_then [OF rejects_out_assign [OF rejects_mode] reads_out_assign [OF reads_mode]]
  rejects_out_assign [OF rejects_u64]
  rejects_out_assign [OF rejects_u32]

lemma rejects_out_time: "rejects_out read_time obj (enc_time t)"
  unfolding read_time_def enc_time_def by (rule rejects_field)+

lemma rejects_out_attr: "rejects_out read_attr obj (enc_attr a)"
  unfolding read_attr_def enc_attr_def enc_time_def append_assoc by (rule rejects_field)+

lemma rejects_out_statistics: "rejects_out read_statistics obj (enc_statistics s)"
  unfolding read_statistics_def enc_statistics_def by (rule rejects_field)+

lemma rejects_out_strings_loop:
  "list_all str_ok ss \<Longrightarrow>
    rejects_out (read_strings_loop (length ss)) obj (concat (map enc_str ss))"
proof (induction ss arbitrary: obj)
  case Nil
  show ?case by (simp add: rejects_out_def)
next
  case (Cons s ss)
  then show ?case
    by (auto intro!: rejects_out_then [OF rejects_out_assign [OF rejects_str]
          reads_out_assign [OF reads_str]])
qed

lemma rejects_out_strings:
  assumes "strings_ok ss"
  shows "rejects_out read_strings obj (enc_strings ss)"
proof -
  have "unat (word_of_nat (length ss) :: u32) = length ss"
    using assms by (simp add: strings_ok_def unat_of_nat)
  then have "rejects_out (read_strings_loop (unat (word_of_nat (length ss) :: u32))) obj
      (concat (map enc_str ss))"
    using assms rejects_out_strings_loop by (simp add: strings_ok_def)
  then show ?thesis
    unfolding read_strings_def enc_strings_def
    by (rule rejects_out_bind [OF rejects_out_local [OF rejects_u32] reads_out_local [OF reads_u32]])
qed

subsection \<open>The interface of a wire type\<close>

text \<open>
  \<open>wr\<close> writes a value, \<open>enc\<close> is its wire format, \<open>rd\<close> reads it back as \<open>val\<close>, for the values that
  satisfy \<open>ok\<close>.
\<close>

locale codec =
  fixes wr :: "'a \<Rightarrow> messagewriter \<Rightarrow> messagewriter"
    and enc :: "'a \<Rightarrow> u8 list"
    and rd :: "'b reader_m"
    and val :: "'a \<Rightarrow> 'b"
    and ok :: "'a \<Rightarrow> bool"
  assumes wr_enc: "ok x \<Longrightarrow> wr x w = append_data (enc x) w"
    and rd_enc: "ok x \<Longrightarrow> reads rd (enc x) (val x)"
    and rd_truncated: "ok x \<Longrightarrow> rejects rd (enc x)"
begin

text \<open>Reading from where the writer stood gives the value and stops where the writer stopped.\<close>

lemma write_read:
  assumes "ok x"
  shows "rd \<lparr>mr_data = mw_data (wr x w) @ rest, mr_pos = length (mw_data w)\<rparr> =
    (Inr (val x), \<lparr>mr_data = mw_data (wr x w) @ rest, mr_pos = length (mw_data (wr x w))\<rparr>)"
proof -
  let ?r = "\<lparr>mr_data = mw_data (wr x w) @ rest, mr_pos = length (mw_data w)\<rparr>"
  have "remaining ?r = enc x @ rest"
    by (simp add: wr_enc [OF assms] remaining_def)
  from readsD [OF rd_enc [OF assms] this] show ?thesis
    by (simp add: wr_enc [OF assms] advance_def)
qed

text \<open>A message cut inside the value is rejected, whatever comes before it.\<close>

lemma write_read_truncated:
  assumes "ok x" and "k < length (enc x)"
  shows "\<exists>r'. rd \<lparr>mr_data = take (length (mw_data w) + k) (mw_data (wr x w)),
      mr_pos = length (mw_data w)\<rparr> = (Inl out_of_bounds, r')"
proof (rule rejectsD [OF rd_truncated [OF assms(1)]])
  show "strict_prefix (remaining \<lparr>mr_data = take (length (mw_data w) + k) (mw_data (wr x w)),
      mr_pos = length (mw_data w)\<rparr>) (enc x)"
    using assms(2) by (simp add: remaining_def wr_enc [OF assms(1)] strict_prefix_take)
qed

end

text \<open>The same interface for values read into an object of the caller.\<close>

locale codec_out =
  fixes wr :: "'a \<Rightarrow> messagewriter \<Rightarrow> messagewriter"
    and enc :: "'a \<Rightarrow> u8 list"
    and rd :: "('o, unit) reader_out_m"
    and val :: "'a \<Rightarrow> 'o \<Rightarrow> 'o"
    and ok :: "'a \<Rightarrow> bool"
  assumes wr_enc: "ok x \<Longrightarrow> wr x w = append_data (enc x) w"
    and rd_enc: "ok x \<Longrightarrow> reads_out rd obj (enc x) () (val x obj)"
    and rd_truncated: "ok x \<Longrightarrow> rejects_out rd obj (enc x)"
begin

lemma write_read:
  assumes "ok x"
  shows "rd (obj, \<lparr>mr_data = mw_data (wr x w) @ rest, mr_pos = length (mw_data w)\<rparr>) =
    (Inr (), (val x obj,
      \<lparr>mr_data = mw_data (wr x w) @ rest, mr_pos = length (mw_data (wr x w))\<rparr>))"
proof -
  let ?r = "\<lparr>mr_data = mw_data (wr x w) @ rest, mr_pos = length (mw_data w)\<rparr>"
  have "remaining ?r = enc x @ rest"
    by (simp add: wr_enc [OF assms] remaining_def)
  from reads_outD [OF rd_enc [OF assms] this] show ?thesis
    by (simp add: wr_enc [OF assms] advance_def)
qed

lemma write_read_truncated:
  assumes "ok x" and "k < length (enc x)"
  shows "\<exists>s'. rd (obj, \<lparr>mr_data = take (length (mw_data w) + k) (mw_data (wr x w)),
      mr_pos = length (mw_data w)\<rparr>) = (Inl out_of_bounds, s')"
proof (rule rejects_outD [OF rd_truncated [OF assms(1)]])
  show "strict_prefix (remaining \<lparr>mr_data = take (length (mw_data w) + k) (mw_data (wr x w)),
      mr_pos = length (mw_data w)\<rparr>) (enc x)"
    using assms(2) by (simp add: remaining_def wr_enc [OF assms(1)] strict_prefix_take)
qed

end

text \<open>\<^verbatim>\<open>object = reader.read()\<close>: a wire type read into a variable.\<close>

sublocale codec \<subseteq> var: codec_out wr enc "assign (\<lambda>v _. v) rd" "\<lambda>x _. val x" ok
  by unfold_locales
    (simp_all add: wr_enc reads_out_assignI [OF rd_enc] rejects_out_assign [OF rd_truncated])

subsection \<open>The wire types of the protocol\<close>

interpretation u8_codec: codec write_u8 "\<lambda>v. [v]" read_u8 "\<lambda>v. v" "\<lambda>_. True"
  by unfold_locales (simp_all add: writer_simps reads_u8 rejects_u8)

interpretation bool_codec: codec write_bool "\<lambda>b. [if b then 1 else 0]" read_bool "\<lambda>b. b" "\<lambda>_. True"
  by unfold_locales (simp_all only: writer_simps reads_bool rejects_bool)

interpretation u32_codec: codec write_u32 "be_bytes 4" read_u32 "\<lambda>v. v" "\<lambda>_. True"
  by unfold_locales (simp_all add: writer_simps reads_u32 rejects_u32)

interpretation result_codec: codec write_i32 "be_bytes 4" read_result "\<lambda>v. v" "\<lambda>_. True"
  by unfold_locales (simp_all add: writer_simps reads_result rejects_result)

interpretation u64_codec: codec write_u64 "be_bytes 8" read_u64 low32 "\<lambda>_. True"
  by unfold_locales (simp_all add: writer_simps reads_u64 rejects_u64)

interpretation str_codec: codec write_str "\<lambda>s. enc_str (recv_str s)" read_str recv_str "\<lambda>_. True"
  by unfold_locales (simp_all add: writer_simps reads_str rejects_str)

interpretation access_mode_codec: codec write_access_mode "\<lambda>v. [access_mode_from_int v]"
    read_access_mode "\<lambda>v. v AND 7" "\<lambda>_. True"
  by unfold_locales (simp_all add: writer_simps reads_access_mode rejects_access_mode)

interpretation rename_flags_codec: codec write_rename_flags "\<lambda>v. [ucast (v AND 3)]" read_u8
    "\<lambda>v. ucast (v AND 3)" "\<lambda>_. True"
  by unfold_locales (simp_all add: writer_simps reads_u8 rejects_u8)

interpretation mode_codec: codec write_mode "\<lambda>v. be_bytes 4 (filemode_from_mode v)" read_mode
    filemode_from_mode "\<lambda>_. True"
  by unfold_locales (simp_all add: writer_simps reads_mode rejects_mode)

interpretation openflags_codec: codec write_openflags "\<lambda>v. be_bytes 4 (openflags_from_int v)"
    read_openflags "\<lambda>v. openflags_to_int (openflags_from_int v)" "\<lambda>_. True"
  by unfold_locales (simp_all add: writer_simps reads_openflags rejects_openflags)

interpretation time_codec: codec_out write_time enc_time read_time "\<lambda>t _. recv_time t" "\<lambda>_. True"
  by unfold_locales (simp_all add: writer_simps reads_out_time rejects_out_time)

interpretation attr_codec: codec_out write_attr enc_attr read_attr recv_attr "\<lambda>_. True"
  by unfold_locales (simp_all add: writer_simps reads_out_attr rejects_out_attr)

interpretation statistics_codec: codec_out write_statistics enc_statistics read_statistics
    recv_statistics "\<lambda>_. True"
  by unfold_locales (simp_all add: writer_simps reads_out_statistics rejects_out_statistics)

interpretation strings_codec: codec_out write_strings enc_strings read_strings "\<lambda>ss es. es @ ss"
    strings_ok
  by unfold_locales (simp_all add: writer_simps reads_out_strings rejects_out_strings)

subsection \<open>Memory safety of the reader\<close>

text \<open>
  On arbitrary bytes: a read never changes the message, never moves backwards and never leaves the
  message, whether it returns or throws. \<open>proj\<close> finds the reader in the state of the computation.
\<close>

definition safe_on :: "('s \<Rightarrow> messagereader) \<Rightarrow> ('s, 'a) sm \<Rightarrow> bool" where
  "safe_on proj m \<longleftrightarrow> (\<forall>s. mr_pos (proj s) \<le> length (mr_data (proj s)) \<longrightarrow>
    (let r = proj s; r' = proj (snd (m s)) in
      mr_data r' = mr_data r \<and> mr_pos r \<le> mr_pos r' \<and> mr_pos r' \<le> length (mr_data r)))"

lemma safe_on_return: "safe_on proj (return_m v)"
  by (simp add: safe_on_def return_apply)

lemma safe_on_bind:
  assumes "safe_on proj m" and "\<And>x. safe_on proj (f x)"
  shows "safe_on proj (bind_m m f)"
  unfolding safe_on_def
proof (intro allI impI)
  fix s
  assume s: "mr_pos (proj s) \<le> length (mr_data (proj s))"
  obtain v s' where m: "m s = (v, s')" by (cases "m s")
  have m': "mr_data (proj s') = mr_data (proj s)" "mr_pos (proj s) \<le> mr_pos (proj s')"
      "mr_pos (proj s') \<le> length (mr_data (proj s'))"
    using assms(1) s m by (auto simp: safe_on_def Let_def)
  show "let r = proj s; r' = proj (snd (bind_m m f s)) in
      mr_data r' = mr_data r \<and> mr_pos r \<le> mr_pos r' \<and> mr_pos r' \<le> length (mr_data r)"
  proof (cases v)
    case (Inl e)
    then show ?thesis using m m' by (simp add: bind_m_def Let_def)
  next
    case (Inr x)
    then show ?thesis
      using m m' assms(2) [of x, unfolded safe_on_def, rule_format, of s']
      by (auto simp: bind_m_def Let_def)
  qed
qed

lemma safe_on_then: "safe_on proj m \<Longrightarrow> safe_on proj n \<Longrightarrow> safe_on proj (then_m m n)"
  by (simp add: then_m_def safe_on_bind)

lemma safe_on_assign: "safe_on (\<lambda>r. r) m \<Longrightarrow> safe_on snd (assign store m)"
  by (auto simp: safe_on_def assign_def Let_def split: prod.splits sum.splits)

lemma safe_on_local: "safe_on (\<lambda>r. r) m \<Longrightarrow> safe_on snd (local_read m)"
  by (auto simp: safe_on_def local_read_def Let_def split: prod.splits)

lemma safe_u8: "safe_on (\<lambda>r. r) read_u8"
  by (simp add: safe_on_def read_u8_def Let_def)

lemma safe_u32: "safe_on (\<lambda>r. r) read_u32"
  by (simp add: safe_on_def read_u32_def Let_def)

lemma safe_u64: "safe_on (\<lambda>r. r) read_u64"
  by (simp add: safe_on_def read_u64_def Let_def)

lemma safe_block: "safe_on (\<lambda>r. r) (read_block n)"
  by (simp add: safe_on_def read_block_def advance_def Let_def)

lemma safe_str: "safe_on (\<lambda>r. r) read_str"
  unfolding read_str_def read_bytes_eq by (intro safe_on_bind safe_u32 safe_block)

lemma safe_mode: "safe_on (\<lambda>r. r) read_mode"
  unfolding read_mode_def by (intro safe_on_bind safe_on_return safe_u32)

lemma safe_strings_loop: "safe_on snd (read_strings_loop n)"
  by (induction n) (simp_all add: safe_on_return safe_on_then safe_on_assign safe_str)

lemmas safe_reads = safe_on_bind safe_on_return safe_on_then safe_on_assign safe_on_local safe_u8
  safe_u32 safe_u64 safe_str safe_mode safe_strings_loop

subsection \<open>Properties\<close>

text \<open>
  A 64-bit value written by \<^verbatim>\<open>write_u64\<close> is read back by \<^verbatim>\<open>read_u64\<close> with its upper 32 bits cleared; it
  survives exactly when it is below \<open>2 ^ 32\<close>.
\<close>

theorem u64_truncated:
  "fst (read_u64 \<lparr>mr_data = mw_data (write_u64 v w) @ rest, mr_pos = length (mw_data w)\<rparr>) =
     Inr (take_bit 32 v) \<and>
   (take_bit 32 v = v \<longleftrightarrow> v < 2 ^ 32)"
  using u64_codec.write_read [of v w rest] low32_id [of v] by (simp add: low32_def)

text \<open>
  Attributes: whatever surrounds them in the message, \<^verbatim>\<open>read_attr\<close> consumes exactly what \<^verbatim>\<open>write_attr\<close>
  wrote, sets eleven members of the caller's object and keeps the others.
\<close>

theorem attr_write_read:
  "read_attr (obj, \<lparr>mr_data = mw_data (write_attr a w) @ rest, mr_pos = length (mw_data w)\<rparr>) =
    (Inr (), (obj
       \<lparr>st_ino := low32 (st_ino a), st_nlink := low32 (st_nlink a),
        st_mode := filemode_from_mode (st_mode a), st_uid := st_uid a, st_gid := st_gid a,
        st_rdev := low32 (st_rdev a), st_size := low32 (st_size a),
        st_blocks := low32 (st_blocks a), st_atim := recv_time (st_atim a),
        st_mtim := recv_time (st_mtim a), st_ctim := recv_time (st_ctim a)\<rparr>,
     \<lparr>mr_data = mw_data (write_attr a w) @ rest, mr_pos = length (mw_data (write_attr a w))\<rparr>))"
  using attr_codec.write_read [of obj a w rest] by (simp add: recv_attr_def)

text \<open>
  Directory entries: \<^verbatim>\<open>read_strings\<close> appends the entries \<^verbatim>\<open>write_strings\<close> wrote to the caller's list and
  consumes exactly their bytes, for lists and strings whose lengths fit the 32-bit length fields.
\<close>

theorem strings_write_read:
  assumes "length ss < 2 ^ 32" and "\<forall>s \<in> set ss. length s < 2 ^ 32"
  shows "read_strings (es, \<lparr>mr_data = mw_data (write_strings ss w) @ rest, mr_pos = length (mw_data w)\<rparr>) =
    (Inr (), (es @ ss,
      \<lparr>mr_data = mw_data (write_strings ss w) @ rest, mr_pos = length (mw_data (write_strings ss w))\<rparr>))"
  using assms by (intro strings_codec.write_read) (simp add: strings_ok_def str_ok_def list_all_iff)

theorem strings_write_read_witness:
  "read_strings ([''.''], \<lparr>mr_data = mw_data (write_strings [''a'', ''''] \<lparr>mw_id = 7, mw_data = []\<rparr>) @ [9],
      mr_pos = 0\<rparr>) =
    (Inr (), ([''.'', ''a'', ''''],
      \<lparr>mr_data = mw_data (write_strings [''a'', ''''] \<lparr>mw_id = 7, mw_data = []\<rparr>) @ [9],
       mr_pos = length (mw_data (write_strings [''a'', ''''] \<lparr>mw_id = 7, mw_data = []\<rparr>))\<rparr>))"
  using strings_write_read [of "[''a'', '''']" "[''.'']" "\<lparr>mw_id = 7, mw_data = []\<rparr>" "[9]"] by auto

text \<open>
  C32. Truncated responses: attributes, statistics and directory entries cut off anywhere inside are
  rejected with \<^verbatim>\<open>out of bounds\<close>, whatever comes before them in the message.
\<close>

theorem truncated_rejected:
  assumes "k < length (enc_attr a)" and "l < length (enc_statistics st)"
    and "strings_ok ss" and "m < length (enc_strings ss)"
  shows "(\<exists>s'. read_attr (attr, \<lparr>mr_data = take (length (mw_data w) + k) (mw_data (write_attr a w)),
        mr_pos = length (mw_data w)\<rparr>) = (Inl out_of_bounds, s')) \<and>
    (\<exists>s'. read_statistics (sv, \<lparr>mr_data = take (length (mw_data w) + l) (mw_data (write_statistics st w)),
        mr_pos = length (mw_data w)\<rparr>) = (Inl out_of_bounds, s')) \<and>
    (\<exists>s'. read_strings (es, \<lparr>mr_data = take (length (mw_data w) + m) (mw_data (write_strings ss w)),
        mr_pos = length (mw_data w)\<rparr>) = (Inl out_of_bounds, s'))"
  using assms attr_codec.write_read_truncated statistics_codec.write_read_truncated
    strings_codec.write_read_truncated by simp

theorem truncated_rejected_witness:
  "\<exists>s'. read_strings ([], \<lparr>mr_data = take 6 (mw_data (write_strings [''ab''] \<lparr>mw_id = 0, mw_data = []\<rparr>)),
        mr_pos = 0\<rparr>) = (Inl out_of_bounds, s')"
  using truncated_rejected [of 0 stat_zero 0 statvfs_zero "[''ab'']" 6 stat_zero
      "\<lparr>mw_id = 0, mw_data = []\<rparr>" statvfs_zero "[]"]
  by (simp add: enc_attr_def enc_time_def enc_statistics_def strings_ok_def str_ok_def
      enc_strings_def enc_str_def)

end
