(* ===== verification/Filesystem_Interface.thy ===== *)
theory Filesystem_Interface
  imports Fs_Values
begin

text \<open>
  The abstract class \<^verbatim>\<open>filesystem_i\<close> as a record of operations over a state \<open>'s\<close>, and its
  implementation \<^verbatim>\<open>empty_filesystem\<close>, which the service falls back to while no provider answers.

  An operation takes its arguments and returns the status; an object that the C++ operation fills
  through a pointer or reference is passed in and comes back with the status. An operation may throw.
\<close>

record 's filesystem_i =
  fsi_access :: "string \<Rightarrow> i32 \<Rightarrow> ('s, i32) sm"
  fsi_getattr :: "string \<Rightarrow> stat \<Rightarrow> ('s, i32 \<times> stat) sm"
  fsi_readlink :: "string \<Rightarrow> string \<Rightarrow> ('s, i32 \<times> string) sm"
  fsi_symlink :: "string \<Rightarrow> string \<Rightarrow> ('s, i32) sm"
  fsi_link :: "string \<Rightarrow> string \<Rightarrow> ('s, i32) sm"
  fsi_rename :: "string \<Rightarrow> string \<Rightarrow> i32 \<Rightarrow> ('s, i32) sm"
  fsi_chmod :: "string \<Rightarrow> u32 \<Rightarrow> ('s, i32) sm"
  fsi_chown :: "string \<Rightarrow> u32 \<Rightarrow> u32 \<Rightarrow> ('s, i32) sm"
  fsi_truncate :: "string \<Rightarrow> u64 \<Rightarrow> u64 \<Rightarrow> ('s, i32) sm"
  fsi_fsync :: "string \<Rightarrow> bool \<Rightarrow> u64 \<Rightarrow> ('s, i32) sm"
  fsi_utimens :: "string \<Rightarrow> timespec \<times> timespec \<Rightarrow> u64 \<Rightarrow> ('s, i32) sm"
  fsi_open :: "string \<Rightarrow> i32 \<Rightarrow> u64 \<Rightarrow> ('s, i32 \<times> u64) sm"
  fsi_mknod :: "string \<Rightarrow> u32 \<Rightarrow> u64 \<Rightarrow> ('s, i32) sm"
  fsi_create :: "string \<Rightarrow> u32 \<Rightarrow> u64 \<Rightarrow> ('s, i32 \<times> u64) sm"
  fsi_release :: "string \<Rightarrow> u64 \<Rightarrow> ('s, i32) sm"
  fsi_unlink :: "string \<Rightarrow> ('s, i32) sm"
  fsi_read :: "string \<Rightarrow> string \<Rightarrow> nat \<Rightarrow> u64 \<Rightarrow> u64 \<Rightarrow> ('s, i32 \<times> string) sm"
  fsi_write :: "string \<Rightarrow> string \<Rightarrow> nat \<Rightarrow> u64 \<Rightarrow> u64 \<Rightarrow> ('s, i32) sm"
  fsi_mkdir :: "string \<Rightarrow> u32 \<Rightarrow> ('s, i32) sm"
  fsi_readdir :: "string \<Rightarrow> string list \<Rightarrow> ('s, i32 \<times> string list) sm"
  fsi_rmdir :: "string \<Rightarrow> ('s, i32) sm"
  fsi_statfs :: "string \<Rightarrow> statvfs \<Rightarrow> ('s, i32 \<times> statvfs) sm"
  fsi_get_credentials :: "('s, string) sm"

definition invalid_handle :: u64 where
  "invalid_handle = - 1"

subsection \<open>empty_filesystem\<close>

definition empty_access :: "string \<Rightarrow> i32 \<Rightarrow> i32" where
  "empty_access path mode = (if path = ''/'' then 0 else - ENOENT)"

definition empty_getattr :: "string \<Rightarrow> stat \<Rightarrow> i32 \<times> stat" where
  "empty_getattr path attr =
    (if path = ''/''
     then (0, attr\<lparr>st_ino := 1, st_nlink := 1, st_mode := S_IFDIR OR 0x16d\<rparr>)
     else (- ENOENT, attr))"

definition empty_readlink :: "string \<Rightarrow> string \<Rightarrow> i32 \<times> string" where
  "empty_readlink path out = (- ENOENT, out)"

definition empty_symlink :: "string \<Rightarrow> string \<Rightarrow> i32" where
  "empty_symlink target linkpath = - ENOENT"

definition empty_link :: "string \<Rightarrow> string \<Rightarrow> i32" where
  "empty_link old_path new_path = - ENOENT"

definition empty_rename :: "string \<Rightarrow> string \<Rightarrow> i32 \<Rightarrow> i32" where
  "empty_rename old_path new_path flags = - ENOENT"

definition empty_chmod :: "string \<Rightarrow> u32 \<Rightarrow> i32" where
  "empty_chmod path mode = - EPERM"

definition empty_chown :: "string \<Rightarrow> u32 \<Rightarrow> u32 \<Rightarrow> i32" where
  "empty_chown path uid gid = - EPERM"

definition empty_truncate :: "string \<Rightarrow> u64 \<Rightarrow> u64 \<Rightarrow> i32" where
  "empty_truncate path len handle = - EPERM"

definition empty_fsync :: "string \<Rightarrow> bool \<Rightarrow> u64 \<Rightarrow> i32" where
  "empty_fsync path is_datasync handle = 0"

definition empty_utimens :: "string \<Rightarrow> timespec \<times> timespec \<Rightarrow> u64 \<Rightarrow> i32" where
  "empty_utimens path tv handle = - ENOSYS"

definition empty_open :: "string \<Rightarrow> i32 \<Rightarrow> u64 \<Rightarrow> i32 \<times> u64" where
  "empty_open path flags handle = (- ENOENT, handle)"

definition empty_mknod :: "string \<Rightarrow> u32 \<Rightarrow> u64 \<Rightarrow> i32" where
  "empty_mknod path mode rdev = - EPERM"

definition empty_create :: "string \<Rightarrow> u32 \<Rightarrow> u64 \<Rightarrow> i32 \<times> u64" where
  "empty_create path mode handle = (- EPERM, handle)"

definition empty_release :: "string \<Rightarrow> u64 \<Rightarrow> i32" where
  "empty_release path handle = 0"

definition empty_unlink :: "string \<Rightarrow> i32" where
  "empty_unlink path = - EPERM"

definition empty_read :: "string \<Rightarrow> string \<Rightarrow> nat \<Rightarrow> u64 \<Rightarrow> u64 \<Rightarrow> i32 \<times> string" where
  "empty_read path buffer buffer_size offset handle = (- EBADF, buffer)"

definition empty_write :: "string \<Rightarrow> string \<Rightarrow> nat \<Rightarrow> u64 \<Rightarrow> u64 \<Rightarrow> i32" where
  "empty_write path buffer buffer_size offset handle = - EBADF"

definition empty_mkdir :: "string \<Rightarrow> u32 \<Rightarrow> i32" where
  "empty_mkdir path mode = - EPERM"

definition empty_readdir :: "string \<Rightarrow> string list \<Rightarrow> i32 \<times> string list" where
  "empty_readdir path entries = (if path = ''/'' then 0 else - ENOENT, entries)"

definition empty_rmdir :: "string \<Rightarrow> i32" where
  "empty_rmdir path = - EPERM"

definition empty_statfs :: "string \<Rightarrow> statvfs \<Rightarrow> i32 \<times> statvfs" where
  "empty_statfs path statistics = (- ENOSYS, statistics)"

definition empty_get_credentials :: string where
  "empty_get_credentials = ''''"

lemmas empty_defs = empty_access_def empty_getattr_def empty_readlink_def empty_symlink_def
  empty_link_def empty_rename_def empty_chmod_def empty_chown_def empty_truncate_def
  empty_fsync_def empty_utimens_def empty_open_def empty_mknod_def empty_create_def
  empty_release_def empty_unlink_def empty_read_def empty_write_def empty_mkdir_def
  empty_readdir_def empty_rmdir_def empty_statfs_def empty_get_credentials_def

text \<open>The object: an implementation of the interface without state.\<close>

definition empty_filesystem :: "'s filesystem_i" where
  "empty_filesystem =
    \<lparr>fsi_access = \<lambda>p m. return_m (empty_access p m),
     fsi_getattr = \<lambda>p a. return_m (empty_getattr p a),
     fsi_readlink = \<lambda>p out. return_m (empty_readlink p out),
     fsi_symlink = \<lambda>t l. return_m (empty_symlink t l),
     fsi_link = \<lambda>p q. return_m (empty_link p q),
     fsi_rename = \<lambda>p q f. return_m (empty_rename p q f),
     fsi_chmod = \<lambda>p m. return_m (empty_chmod p m),
     fsi_chown = \<lambda>p u g. return_m (empty_chown p u g),
     fsi_truncate = \<lambda>p n h. return_m (empty_truncate p n h),
     fsi_fsync = \<lambda>p d h. return_m (empty_fsync p d h),
     fsi_utimens = \<lambda>p tv h. return_m (empty_utimens p tv h),
     fsi_open = \<lambda>p f h. return_m (empty_open p f h),
     fsi_mknod = \<lambda>p m d. return_m (empty_mknod p m d),
     fsi_create = \<lambda>p m h. return_m (empty_create p m h),
     fsi_release = \<lambda>p h. return_m (empty_release p h),
     fsi_unlink = \<lambda>p. return_m (empty_unlink p),
     fsi_read = \<lambda>p b n off h. return_m (empty_read p b n off h),
     fsi_write = \<lambda>p b n off h. return_m (empty_write p b n off h),
     fsi_mkdir = \<lambda>p m. return_m (empty_mkdir p m),
     fsi_readdir = \<lambda>p es. return_m (empty_readdir p es),
     fsi_rmdir = \<lambda>p. return_m (empty_rmdir p),
     fsi_statfs = \<lambda>p s. return_m (empty_statfs p s),
     fsi_get_credentials = return_m empty_get_credentials\<rparr>"

subsection \<open>What a caller of the interface relies on\<close>

text \<open>
  The provider copies as many bytes out of the read buffer as \<^verbatim>\<open>read\<close> reports. An implementation must
  therefore keep the length of the buffer and never report more than that length.
\<close>

locale filesystem_contract =
  fixes fs :: "'s filesystem_i"
  assumes read_bound:
    "fsi_read fs path buffer n offset handle s = (Inr (result, buffer'), s') \<Longrightarrow>
      n = length buffer \<Longrightarrow> 0 < sint result \<Longrightarrow> unat result \<le> length buffer'"

interpretation empty_fs: filesystem_contract empty_filesystem
  by unfold_locales (simp add: empty_filesystem_def empty_defs return_apply errno_defs)

end
