(* ===== verification/Provider.thy ===== *)
theory Provider
  imports Message_Codec Filesystem_Interface
begin

text \<open>
  Class \<^verbatim>\<open>provider::detail\<close> (\<^verbatim>\<open>provider.cpp\<close>): the handler \<^verbatim>\<open>on_message\<close> decodes a request, calls the
  file system and encodes the response. A handler runs on the pair of the file system's state and
  the reader; it takes the response under construction and returns it.

  \<open>serves h bs m\<close> says what a handler does with the request bytes \<open>bs\<close>: it consumes exactly these and
  behaves as the file system computation \<open>m\<close>. The lemmas \<open>serves_...\<close> state this for every request
  in its wire format.
\<close>

subsection \<open>The handlers\<close>

text \<open>
  The contents of local variables that \<^verbatim>\<open>fs_getattr\<close> and \<^verbatim>\<open>fs_utimens\<close> leave uninitialised.
\<close>

record uninit =
  un_stat :: stat
  un_times :: "timespec \<times> timespec"

definition uninit_zero :: uninit where
  "uninit_zero = \<lparr>un_stat = stat_zero, un_times = (time_zero, time_zero)\<rparr>"

text \<open>A call of the file system from a handler.\<close>

definition call_fs :: "('s, 'a) sm \<Rightarrow> ('s, 'a) reader_out_m" where
  "call_fs m = (\<lambda>(s, r). case m s of (v, s') \<Rightarrow> (v, (s', r)))"

text \<open>A read into a local object.\<close>

definition read_into :: "'o \<Rightarrow> ('o, unit) reader_out_m \<Rightarrow> ('s, 'o) reader_out_m" where
  "read_into obj m = (\<lambda>(s, r).
    case m (obj, r) of (Inl e, (_, r')) \<Rightarrow> (Inl e, (s, r')) | (Inr _, (obj', r')) \<Rightarrow> (Inr obj', (s, r')))"

type_synonym 's handler = "'s filesystem_i \<Rightarrow> messagewriter \<Rightarrow> ('s, messagewriter) reader_out_m"

definition provider_fs_access :: "'s handler" where
  "provider_fs_access fs writer =
    bind_m (local_read read_str) (\<lambda>path.
    bind_m (local_read read_access_mode) (\<lambda>mode.
    bind_m (call_fs (fsi_access fs path mode)) (\<lambda>result.
    return_m (write_i32 result writer))))"

definition provider_fs_getattr :: "uninit \<Rightarrow> 's handler" where
  "provider_fs_getattr un fs writer =
    bind_m (local_read read_str) (\<lambda>path.
    bind_m (call_fs (fsi_getattr fs path (un_stat un))) (\<lambda>(result, buffer).
    let writer = write_i32 result writer in
    return_m (if 0 = result then write_attr buffer writer else writer)))"

definition provider_fs_readlink :: "'s handler" where
  "provider_fs_readlink fs writer =
    bind_m (local_read read_str) (\<lambda>path.
    bind_m (call_fs (fsi_readlink fs path [])) (\<lambda>(result, out).
    let writer = write_i32 result writer in
    return_m (if 0 = result then write_str out writer else writer)))"

definition provider_fs_symlink :: "'s handler" where
  "provider_fs_symlink fs writer =
    bind_m (local_read read_str) (\<lambda>from.
    bind_m (local_read read_str) (\<lambda>to.
    bind_m (call_fs (fsi_symlink fs from to)) (\<lambda>result.
    return_m (write_i32 result writer))))"

definition provider_fs_link :: "'s handler" where
  "provider_fs_link fs writer =
    bind_m (local_read read_str) (\<lambda>from.
    bind_m (local_read read_str) (\<lambda>to.
    bind_m (call_fs (fsi_link fs from to)) (\<lambda>result.
    return_m (write_i32 result writer))))"

definition provider_fs_rename :: "'s handler" where
  "provider_fs_rename fs writer =
    bind_m (local_read read_str) (\<lambda>from.
    bind_m (local_read read_str) (\<lambda>to.
    bind_m (local_read read_u8) (\<lambda>flags.
    bind_m (call_fs (fsi_rename fs from to (ucast flags))) (\<lambda>result.
    return_m (write_i32 result writer)))))"

definition provider_fs_chmod :: "'s handler" where
  "provider_fs_chmod fs writer =
    bind_m (local_read read_str) (\<lambda>path.
    bind_m (local_read read_mode) (\<lambda>mode.
    bind_m (call_fs (fsi_chmod fs path mode)) (\<lambda>result.
    return_m (write_i32 result writer))))"

definition provider_fs_chown :: "'s handler" where
  "provider_fs_chown fs writer =
    bind_m (local_read read_str) (\<lambda>path.
    bind_m (local_read read_u32) (\<lambda>uid.
    bind_m (local_read read_u32) (\<lambda>gid.
    bind_m (call_fs (fsi_chown fs path uid gid)) (\<lambda>result.
    return_m (write_i32 result writer)))))"

definition provider_fs_truncate :: "'s handler" where
  "provider_fs_truncate fs writer =
    bind_m (local_read read_str) (\<lambda>path.
    bind_m (local_read read_u64) (\<lambda>len.
    bind_m (local_read read_u64) (\<lambda>handle.
    bind_m (call_fs (fsi_truncate fs path len handle)) (\<lambda>result.
    return_m (write_i32 result writer)))))"

definition provider_fs_fsync :: "'s handler" where
  "provider_fs_fsync fs writer =
    bind_m (local_read read_str) (\<lambda>path.
    bind_m (local_read read_bool) (\<lambda>is_datasync.
    bind_m (local_read read_u64) (\<lambda>handle.
    bind_m (call_fs (fsi_fsync fs path is_datasync handle)) (\<lambda>result.
    return_m (write_i32 result writer)))))"

definition provider_fs_utimens :: "uninit \<Rightarrow> 's handler" where
  "provider_fs_utimens un fs writer =
    bind_m (local_read read_str) (\<lambda>path.
    bind_m (read_into (fst (un_times un)) read_time) (\<lambda>time0.
    bind_m (read_into (snd (un_times un)) read_time) (\<lambda>time1.
    bind_m (local_read read_u64) (\<lambda>handle.
    bind_m (call_fs (fsi_utimens fs path (time0, time1) handle)) (\<lambda>result.
    return_m (write_i32 result writer))))))"

definition provider_fs_open :: "'s handler" where
  "provider_fs_open fs writer =
    bind_m (local_read read_str) (\<lambda>path.
    bind_m (local_read read_openflags) (\<lambda>flags.
    bind_m (call_fs (fsi_open fs path flags (- 1))) (\<lambda>(result, handle).
    let writer = write_i32 result writer in
    return_m (if result = 0 then write_u64 handle writer else writer))))"

definition provider_fs_mknod :: "'s handler" where
  "provider_fs_mknod fs writer =
    bind_m (local_read read_str) (\<lambda>path.
    bind_m (local_read read_mode) (\<lambda>mode.
    bind_m (local_read read_u32) (\<lambda>dev.
    bind_m (call_fs (fsi_mknod fs path mode (ucast dev))) (\<lambda>result.
    return_m (write_i32 result writer)))))"

definition provider_fs_create :: "'s handler" where
  "provider_fs_create fs writer =
    bind_m (local_read read_str) (\<lambda>path.
    bind_m (local_read read_mode) (\<lambda>mode.
    bind_m (call_fs (fsi_create fs path mode (- 1))) (\<lambda>(result, handle).
    let writer = write_i32 result writer in
    return_m (if result = 0 then write_u64 handle writer else writer))))"

definition provider_fs_release :: "'s handler" where
  "provider_fs_release fs writer =
    bind_m (local_read read_str) (\<lambda>path.
    bind_m (local_read read_u64) (\<lambda>handle.
    bind_m (call_fs (fsi_release fs path handle)) (\<lambda>result.
    return_m (write_i32 result writer))))"

definition provider_fs_unlink :: "'s handler" where
  "provider_fs_unlink fs writer =
    bind_m (local_read read_str) (\<lambda>path.
    bind_m (call_fs (fsi_unlink fs path)) (\<lambda>result.
    return_m (write_i32 result writer)))"

text \<open>
  \<^verbatim>\<open>write_data\<close> copies \<open>result\<close> bytes out of the buffer; a file system that reports more bytes than
  the buffer holds makes this an access behind its end.
\<close>

definition provider_fs_read :: "'s handler" where
  "provider_fs_read fs writer =
    bind_m (local_read read_str) (\<lambda>path.
    bind_m (local_read read_u32) (\<lambda>len.
    bind_m (local_read read_u64) (\<lambda>offset.
    bind_m (local_read read_u64) (\<lambda>handle.
    bind_m (call_fs (fsi_read fs path (replicate (unat len) (CHR 0x00)) (unat len) offset handle))
      (\<lambda>(result, buffer).
    let writer = write_i32 result writer in
    if 0 < sint result
    then (if unat result \<le> length buffer
          then return_m (write_data buffer (unat result) writer)
          else throw_m Undefined_behaviour)
    else return_m writer)))))"

definition provider_fs_write :: "'s handler" where
  "provider_fs_write fs writer =
    bind_m (local_read read_str) (\<lambda>path.
    bind_m (local_read read_bytes) (\<lambda>buffer.
    bind_m (local_read read_u64) (\<lambda>offset.
    bind_m (local_read read_u64) (\<lambda>handle.
    bind_m (call_fs (fsi_write fs path buffer (length buffer) offset handle)) (\<lambda>result.
    return_m (write_i32 result writer))))))"

definition provider_fs_mkdir :: "'s handler" where
  "provider_fs_mkdir fs writer =
    bind_m (local_read read_str) (\<lambda>path.
    bind_m (local_read read_mode) (\<lambda>mode.
    bind_m (call_fs (fsi_mkdir fs path mode)) (\<lambda>result.
    return_m (write_i32 result writer))))"

definition provider_fs_rmdir :: "'s handler" where
  "provider_fs_rmdir fs writer =
    bind_m (local_read read_str) (\<lambda>path.
    bind_m (call_fs (fsi_rmdir fs path)) (\<lambda>result.
    return_m (write_i32 result writer)))"

definition provider_fs_readdir :: "'s handler" where
  "provider_fs_readdir fs writer =
    bind_m (local_read read_str) (\<lambda>path.
    bind_m (call_fs (fsi_readdir fs path [])) (\<lambda>(result, entries).
    let writer = write_i32 result writer in
    return_m (if 0 = result then write_strings entries writer else writer)))"

definition provider_fs_statfs :: "'s handler" where
  "provider_fs_statfs fs writer =
    bind_m (local_read read_str) (\<lambda>path.
    bind_m (call_fs (fsi_statfs fs path statvfs_zero)) (\<lambda>(result, statistics).
    let writer = write_i32 result writer in
    return_m (if 0 = result then write_statistics statistics writer else writer)))"

definition provider_fs_get_credentials :: "'s handler" where
  "provider_fs_get_credentials fs writer =
    bind_m (call_fs (fsi_get_credentials fs)) (\<lambda>credentials.
    return_m (write_str credentials writer))"

text \<open>The switch of \<^verbatim>\<open>on_message\<close>.\<close>

definition handle_request :: "uninit \<Rightarrow> request_type \<Rightarrow> 's handler" where
  "handle_request un t fs writer = (case t of
      request_access \<Rightarrow> provider_fs_access fs writer
    | request_getattr \<Rightarrow> provider_fs_getattr un fs writer
    | request_readlink \<Rightarrow> provider_fs_readlink fs writer
    | request_symlink \<Rightarrow> provider_fs_symlink fs writer
    | request_link \<Rightarrow> provider_fs_link fs writer
    | request_rename \<Rightarrow> provider_fs_rename fs writer
    | request_chmod \<Rightarrow> provider_fs_chmod fs writer
    | request_chown \<Rightarrow> provider_fs_chown fs writer
    | request_truncate \<Rightarrow> provider_fs_truncate fs writer
    | request_fsync \<Rightarrow> provider_fs_fsync fs writer
    | request_utimens \<Rightarrow> provider_fs_utimens un fs writer
    | request_open \<Rightarrow> provider_fs_open fs writer
    | request_mknod \<Rightarrow> provider_fs_mknod fs writer
    | request_create \<Rightarrow> provider_fs_create fs writer
    | request_release \<Rightarrow> provider_fs_release fs writer
    | request_unlink \<Rightarrow> provider_fs_unlink fs writer
    | request_read \<Rightarrow> provider_fs_read fs writer
    | request_write \<Rightarrow> provider_fs_write fs writer
    | request_mkdir \<Rightarrow> provider_fs_mkdir fs writer
    | request_readdir \<Rightarrow> provider_fs_readdir fs writer
    | request_rmdir \<Rightarrow> provider_fs_rmdir fs writer
    | request_statfs \<Rightarrow> provider_fs_statfs fs writer
    | request_getcreds \<Rightarrow> provider_fs_get_credentials fs writer
    | request_unknown \<Rightarrow> return_m writer)"

definition on_message :: "nat \<Rightarrow> uninit \<Rightarrow> 's filesystem_i \<Rightarrow> ('s, messagewriter) reader_out_m" where
  "on_message lws_pre un fs =
    bind_m (local_read read_u32) (\<lambda>message_id.
    bind_m (local_read read_u8) (\<lambda>code.
    let req_type = get_request_type code;
        resp_type = get_response_type req_type;
        writer = set_id lws_pre message_id (messagewriter_response lws_pre resp_type)
    in handle_request un req_type fs writer))"

subsection \<open>What a handler does with a request\<close>

definition serves :: "('s, 'a) reader_out_m \<Rightarrow> u8 list \<Rightarrow> ('s, 'a) sm \<Rightarrow> bool" where
  "serves h bs m \<longleftrightarrow> (\<forall>s r rest. remaining r = bs @ rest \<longrightarrow>
    h (s, r) = (case m s of (v, s') \<Rightarrow> (v, (s', advance (length bs) r))))"

lemma servesD:
  "serves h bs m \<Longrightarrow> remaining r = bs @ rest \<Longrightarrow>
    h (s, r) = (case m s of (v, s') \<Rightarrow> (v, (s', advance (length bs) r)))"
  by (simp add: serves_def)

lemma serves_return: "serves (return_m a) [] (return_m a)"
  by (simp add: serves_def return_apply)

lemma serves_throw: "serves (throw_m e) [] (throw_m e)"
  by (simp add: serves_def throw_apply)

lemma serves_call:
  "(\<And>a. serves (f a) [] (g a)) \<Longrightarrow> serves (bind_m (call_fs m) f) [] (bind_m m g)"
  by (auto simp: serves_def bind_m_def call_fs_def split: prod.splits sum.splits)

lemma serves_step:
  assumes "\<And>s. reads_out m s bs v s" and "serves (f v) cs n"
  shows "serves (bind_m m f) (bs @ cs) n"
  unfolding serves_def
proof (intro allI impI)
  fix s r rest
  assume r: "remaining r = (bs @ cs) @ rest"
  then have "m (s, r) = (Inr v, (s, advance (length bs) r))"
    using reads_outD [OF assms(1), of r "cs @ rest"] by simp
  moreover have "f v (s, advance (length bs) r) =
      (case n s of (v, s') \<Rightarrow> (v, (s', advance (length cs) (advance (length bs) r))))"
    using r by (intro servesD [OF assms(2)]) simp
  ultimately show "bind_m m f (s, r) =
      (case n s of (v, s') \<Rightarrow> (v, (s', advance (length (bs @ cs)) r)))"
    by (simp add: bind_step)
qed

lemma reads_out_into: "reads_out m obj bs () obj' \<Longrightarrow> reads_out (read_into obj m) s bs obj' s"
  by (auto simp: reads_out_def read_into_def)

lemma serves_read: "reads m bs v \<Longrightarrow> serves (f v) cs n \<Longrightarrow> serves (bind_m (local_read m) f) (bs @ cs) n"
  by (rule serves_step) (rule reads_out_local)

lemma serves_read_last: "reads m bs v \<Longrightarrow> serves (f v) [] n \<Longrightarrow> serves (bind_m (local_read m) f) bs n"
  using serves_read [of m bs v f "[]" n] by simp

lemma serves_read_into:
  "reads_out m obj bs () obj' \<Longrightarrow> serves (f obj') cs n \<Longrightarrow> serves (bind_m (read_into obj m) f) (bs @ cs) n"
  by (rule serves_step) (rule reads_out_into)

lemma serves_if:
  "serves f bs m \<Longrightarrow> serves g bs n \<Longrightarrow> serves (if b then f else g) bs (if b then m else n)"
  by simp

lemma serves_split: "(\<And>a b. serves (f a b) bs (g a b)) \<Longrightarrow> serves (case_prod f x) bs (case_prod g x)"
  by (simp split: prod.splits)

lemma serves_let: "serves (f a) bs m \<Longrightarrow> serves (Let a f) bs m"
  by simp

lemmas serves_rules = serves_read serves_read_into serves_read_last serves_call serves_let
  serves_split serves_if serves_return serves_throw

subsection \<open>The requests\<close>

text \<open>The response of an operation that returns nothing but its status.\<close>

abbreviation reply_status :: "messagewriter \<Rightarrow> ('s, i32) sm \<Rightarrow> ('s, messagewriter) sm" where
  "reply_status w m \<equiv> bind_m m (\<lambda>result. return_m (append_data (be_bytes 4 result) w))"

text \<open>The response of an operation that returns its status and, when it is 0, a value.\<close>

abbreviation reply_value ::
    "('a \<Rightarrow> u8 list) \<Rightarrow> messagewriter \<Rightarrow> ('s, i32 \<times> 'a) sm \<Rightarrow> ('s, messagewriter) sm" where
  "reply_value enc w m \<equiv> bind_m m (\<lambda>(result, value).
    return_m (append_data (be_bytes 4 result @ (if 0 = result then enc value else [])) w))"

lemma append_data_if:
  "(if b then append_data cs (append_data bs w) else append_data bs w) =
    append_data (bs @ (if b then cs else [])) w"
  by simp

lemma serves_access:
  "str_ok p \<Longrightarrow> serves (provider_fs_access fs w)
      (enc_str p @ [access_mode_from_int m])
    (reply_status w (fsi_access fs p (m AND 7)))"
  unfolding provider_fs_access_def write_i32_append
  by (rule serves_rules reader_rules | assumption)+

lemma serves_symlink:
  "str_ok p \<Longrightarrow> str_ok q \<Longrightarrow> serves (provider_fs_symlink fs w)
      (enc_str p @ enc_str q)
    (reply_status w (fsi_symlink fs p q))"
  unfolding provider_fs_symlink_def write_i32_append
  by (rule serves_rules reader_rules | assumption)+

lemma serves_link:
  "str_ok p \<Longrightarrow> str_ok q \<Longrightarrow> serves (provider_fs_link fs w)
      (enc_str p @ enc_str q)
    (reply_status w (fsi_link fs p q))"
  unfolding provider_fs_link_def write_i32_append
  by (rule serves_rules reader_rules | assumption)+

lemma serves_rename:
  "str_ok p \<Longrightarrow> str_ok q \<Longrightarrow> serves (provider_fs_rename fs w)
      (enc_str p @ enc_str q @ [f])
    (reply_status w (fsi_rename fs p q (ucast f)))"
  unfolding provider_fs_rename_def write_i32_append
  by (rule serves_rules reader_rules | assumption)+

lemma serves_chmod:
  "str_ok p \<Longrightarrow> serves (provider_fs_chmod fs w)
      (enc_str p @ be_bytes 4 (filemode_from_mode m))
    (reply_status w (fsi_chmod fs p (filemode_from_mode m)))"
  unfolding provider_fs_chmod_def write_i32_append
  by (rule serves_rules reader_rules | assumption)+

lemma serves_chown:
  "str_ok p \<Longrightarrow> serves (provider_fs_chown fs w)
      (enc_str p @ be_bytes 4 u @ be_bytes 4 g)
    (reply_status w (fsi_chown fs p u g))"
  unfolding provider_fs_chown_def write_i32_append
  by (rule serves_rules reader_rules | assumption)+

lemma serves_truncate:
  "str_ok p \<Longrightarrow> serves (provider_fs_truncate fs w)
      (enc_str p @ be_bytes 8 n @ be_bytes 8 h)
    (reply_status w (fsi_truncate fs p (low32 n) (low32 h)))"
  unfolding provider_fs_truncate_def write_i32_append
  by (rule serves_rules reader_rules | assumption)+

lemma serves_fsync:
  "str_ok p \<Longrightarrow> serves (provider_fs_fsync fs w)
      (enc_str p @ [if d then 1 else 0] @ be_bytes 8 h)
    (reply_status w (fsi_fsync fs p d (low32 h)))"
  unfolding provider_fs_fsync_def write_i32_append
  by (rule serves_rules reader_rules | assumption)+

lemma serves_utimens:
  "str_ok p \<Longrightarrow> serves (provider_fs_utimens un fs w)
      (enc_str p @ enc_time t0 @ enc_time t1 @ be_bytes 8 h)
    (reply_status w (fsi_utimens fs p (recv_time t0, recv_time t1) (low32 h)))"
  unfolding provider_fs_utimens_def write_i32_append
  by (rule serves_rules reader_rules | assumption)+

lemma serves_mknod:
  "str_ok p \<Longrightarrow> serves (provider_fs_mknod fs w)
      (enc_str p @ be_bytes 4 (filemode_from_mode m) @ be_bytes 4 (d :: u32))
    (reply_status w (fsi_mknod fs p (filemode_from_mode m) (ucast d)))"
  unfolding provider_fs_mknod_def write_i32_append
  by (rule serves_rules reader_rules | assumption)+

lemma serves_release:
  "str_ok p \<Longrightarrow> serves (provider_fs_release fs w)
      (enc_str p @ be_bytes 8 h)
    (reply_status w (fsi_release fs p (low32 h)))"
  unfolding provider_fs_release_def write_i32_append
  by (rule serves_rules reader_rules | assumption)+

lemma serves_unlink:
  "str_ok p \<Longrightarrow> serves (provider_fs_unlink fs w)
      (enc_str p)
    (reply_status w (fsi_unlink fs p))"
  unfolding provider_fs_unlink_def write_i32_append
  by (rule serves_rules reader_rules | assumption)+

lemma serves_write:
  "str_ok p \<Longrightarrow> str_ok b \<Longrightarrow> serves (provider_fs_write fs w)
      (enc_str p @ enc_str b @ be_bytes 8 off @ be_bytes 8 h)
    (reply_status w (fsi_write fs p b (length b) (low32 off) (low32 h)))"
  unfolding provider_fs_write_def write_i32_append str_ok_def
  by (rule serves_rules reader_rules | (simp add: str_ok_def; fail))+

lemma serves_mkdir:
  "str_ok p \<Longrightarrow> serves (provider_fs_mkdir fs w)
      (enc_str p @ be_bytes 4 (filemode_from_mode m))
    (reply_status w (fsi_mkdir fs p (filemode_from_mode m)))"
  unfolding provider_fs_mkdir_def write_i32_append
  by (rule serves_rules reader_rules | assumption)+

lemma serves_rmdir:
  "str_ok p \<Longrightarrow> serves (provider_fs_rmdir fs w)
      (enc_str p)
    (reply_status w (fsi_rmdir fs p))"
  unfolding provider_fs_rmdir_def write_i32_append
  by (rule serves_rules reader_rules | assumption)+

lemma serves_getattr:
  "str_ok p \<Longrightarrow> serves (provider_fs_getattr un fs w) (enc_str p)
    (reply_value enc_attr w (fsi_getattr fs p (un_stat un)))"
  unfolding provider_fs_getattr_def writer_simps Let_def append_data_if
  by (rule serves_rules reader_rules | assumption)+

lemma serves_open:
  "str_ok p \<Longrightarrow> serves (provider_fs_open fs w) (enc_str p @ be_bytes 4 (openflags_from_int f))
    (reply_value (be_bytes 8) w (fsi_open fs p (openflags_to_int (openflags_from_int f)) invalid_handle))"
  unfolding provider_fs_open_def writer_simps Let_def append_data_if invalid_handle_def eq_commute [of _ "0 :: i32"]
  by (rule serves_rules reader_rules | assumption)+

lemma serves_create:
  "str_ok p \<Longrightarrow> serves (provider_fs_create fs w) (enc_str p @ be_bytes 4 (filemode_from_mode m))
    (reply_value (be_bytes 8) w (fsi_create fs p (filemode_from_mode m) invalid_handle))"
  unfolding provider_fs_create_def writer_simps Let_def append_data_if invalid_handle_def eq_commute [of _ "0 :: i32"]
  by (rule serves_rules reader_rules | assumption)+

lemma serves_readlink:
  "str_ok p \<Longrightarrow> serves (provider_fs_readlink fs w) (enc_str p)
    (reply_value (\<lambda>out. enc_str (recv_str out)) w (fsi_readlink fs p []))"
  unfolding provider_fs_readlink_def writer_simps Let_def append_data_if
  by (rule serves_rules reader_rules | assumption)+

lemma serves_statfs:
  "str_ok p \<Longrightarrow> serves (provider_fs_statfs fs w) (enc_str p)
    (reply_value enc_statistics w (fsi_statfs fs p statvfs_zero))"
  unfolding provider_fs_statfs_def writer_simps Let_def append_data_if
  by (rule serves_rules reader_rules | assumption)+

lemma serves_readdir:
  "str_ok p \<Longrightarrow> serves (provider_fs_readdir fs w) (enc_str p)
    (bind_m (fsi_readdir fs p []) (\<lambda>(result, entries).
      return_m (let w' = append_data (be_bytes 4 result) w in
        if 0 = result then write_strings entries w' else w')))"
  unfolding provider_fs_readdir_def write_i32_append Let_def
  by (rule serves_rules reader_rules | assumption)+

text \<open>A positive status is the number of bytes in the response.\<close>

lemma serves_fs_read:
  "str_ok p \<Longrightarrow> serves (provider_fs_read fs w)
      (enc_str p @ be_bytes 4 (n :: u32) @ be_bytes 8 off @ be_bytes 8 h)
    (bind_m (fsi_read fs p (replicate (unat n) (CHR 0x00)) (unat n) (low32 off) (low32 h))
      (\<lambda>(result, buffer). let w' = append_data (be_bytes 4 result) w in
        if 0 < sint result
        then (if unat result \<le> length buffer
              then return_m (write_data buffer (unat result) w')
              else throw_m Undefined_behaviour)
        else return_m w'))"
  unfolding provider_fs_read_def write_i32_append Let_def
  by (rule serves_rules reader_rules | assumption)+

lemma serves_get_credentials:
  "serves (provider_fs_get_credentials fs w) []
    (bind_m (fsi_get_credentials fs)
      (\<lambda>credentials. return_m (append_data (enc_str (recv_str credentials)) w)))"
  unfolding provider_fs_get_credentials_def write_str_append
  by (rule serves_rules)+

subsection \<open>Dispatch\<close>

text \<open>The response before its body: the header with the id of the request.\<close>

definition response_header :: "nat \<Rightarrow> u32 \<Rightarrow> request_type \<Rightarrow> messagewriter" where
  "response_header lws_pre i t =
    \<lparr>mw_id = i, mw_data = replicate lws_pre 0 @ header i (response_code (get_response_type t))\<rparr>"

lemma response_header_eq:
  "set_id lws_pre i (messagewriter_response lws_pre (get_response_type t)) = response_header lws_pre i t"
  unfolding messagewriter_response_eq response_header_def
  using set_id_header [of lws_pre i 0 0 _ "[]"] by simp

lemma serves_on_message:
  assumes "serves (handle_request un (get_request_type c) fs
      (response_header lws_pre i (get_request_type c))) body m"
  shows "serves (on_message lws_pre un fs) (header i c @ body) m"
  unfolding on_message_def header_def append_assoc Let_def response_header_eq
  by (rule serves_read, rule reads_u32, rule serves_read, rule reads_u8, rule assms)

subsection \<open>Arbitrary messages\<close>

text \<open>A handler only appends to the response it was given.\<close>

definition extends :: "messagewriter \<Rightarrow> ('s, messagewriter) sm \<Rightarrow> bool" where
  "extends w m \<longleftrightarrow> (\<forall>s w' s'. m s = (Inr w', s') \<longrightarrow> (\<exists>bs. w' = append_data bs w))"

lemma extends_bind: "(\<And>a. extends w (f a)) \<Longrightarrow> extends w (bind_m m f)"
  by (simp add: extends_def bind_m_def split: prod.splits sum.splits)

lemma extends_return: "\<exists>bs. w' = append_data bs w \<Longrightarrow> extends w (return_m w')"
  by (auto simp: extends_def return_apply)

lemma extends_throw: "extends w (throw_m e)"
  by (simp add: extends_def throw_apply)

lemma extends_if: "extends w m \<Longrightarrow> extends w n \<Longrightarrow> extends w (if b then m else n)"
  by simp

lemma extends_split: "(\<And>a b. extends w (f a b)) \<Longrightarrow> extends w (case_prod f x)"
  by (simp split: prod.splits)

lemma appended_self: "\<exists>bs. w = append_data bs w"
  by (rule exI [of _ "[]"]) simp

lemma appended_append: "\<exists>bs. append_data cs w = append_data bs w"
  by blast

lemma appended_append_if:
  "\<exists>bs. (if b then append_data ds (append_data cs w) else append_data cs w) = append_data bs w"
  by auto

lemma appended_strings_if:
  "\<exists>bs. (if b then write_strings es (append_data cs w) else append_data cs w) = append_data bs w"
  using write_strings_rest [of es] by auto

lemma extends_data:
  "extends w (if 0 < sint n
    then if unat n \<le> length b then return_m (write_data b (unat n) (append_data cs w))
         else throw_m Undefined_behaviour
    else return_m (append_data cs w))"
  by (simp add: extends_return extends_throw write_data_append appended_append)

lemmas extends_rules = extends_bind extends_split extends_data extends_if extends_return
  extends_throw appended_self appended_append appended_append_if appended_strings_if

lemmas provider_defs = provider_fs_access_def provider_fs_getattr_def provider_fs_readlink_def
  provider_fs_symlink_def provider_fs_link_def provider_fs_rename_def provider_fs_chmod_def
  provider_fs_chown_def provider_fs_truncate_def provider_fs_fsync_def provider_fs_utimens_def
  provider_fs_open_def provider_fs_mknod_def provider_fs_create_def provider_fs_release_def
  provider_fs_unlink_def provider_fs_read_def provider_fs_write_def provider_fs_mkdir_def
  provider_fs_readdir_def provider_fs_rmdir_def provider_fs_statfs_def
  provider_fs_get_credentials_def

lemma extends_handle_request: "extends w (handle_request un t fs w)"
  unfolding handle_request_def provider_defs Let_def write_i32_append
    write_attr_append write_str_append write_u64_append write_statistics_append
  by (cases t; simp only: request_type.case; (rule extends_rules)+)

text \<open>The reader of a handler stays inside the message.\<close>

lemma safe_call_fs: "safe_on snd (call_fs m)"
  by (simp add: safe_on_def call_fs_def Let_def split: prod.splits)

lemma safe_read_into: "safe_on snd m \<Longrightarrow> safe_on snd (read_into obj m)"
  by (auto simp: safe_on_def read_into_def Let_def dest!: spec [of _ obj] split: prod.splits sum.splits)

lemma safe_throw: "safe_on proj (throw_m e)"
  by (simp add: safe_on_def throw_apply)

lemma safe_if: "safe_on proj m \<Longrightarrow> safe_on proj n \<Longrightarrow> safe_on proj (if b then m else n)"
  by simp

lemma safe_split: "(\<And>a b. safe_on proj (f a b)) \<Longrightarrow> safe_on proj (case_prod f x)"
  by (simp split: prod.splits)

lemmas handler_reads = read_time_def read_bool_def read_access_mode_def read_openflags_def
  read_i32_eq

lemmas safe_handler = safe_reads safe_call_fs safe_read_into safe_throw safe_if safe_split
  safe_str [unfolded read_str_def]

lemma safe_handle_request: "safe_on snd (handle_request un t fs w)"
  unfolding handle_request_def provider_defs Let_def handler_reads
  by (cases t; simp only: request_type.case; (rule safe_handler)+)

lemma safe_on_message: "safe_on snd (on_message lws_pre un fs)"
  unfolding on_message_def Let_def by (rule safe_handler safe_handle_request)+

lemma handled_request:
  assumes "remaining r = header i c @ body"
  shows "on_message lws_pre un fs (s, r) =
    handle_request un (get_request_type c) fs (response_header lws_pre i (get_request_type c))
      (s, advance 5 r)"
proof -
  have "local_read read_u32 (s, r) = (Inr i, (s, advance 4 r))"
    using assms by (simp add: header_def local_read_def readsD [OF reads_u32])
  moreover have "local_read read_u8 (s, advance 4 r) = (Inr c, (s, advance 5 r))"
    using assms readsD [OF reads_u8, of "advance 4 r" c body] by (simp add: header_def local_read_def)
  ultimately show ?thesis
    unfolding on_message_def Let_def response_header_eq by (simp add: bind_step)
qed

text \<open>A response keeps the id and has the type byte of the request with the top bit set.\<close>

lemma handled_response:
  assumes "on_message lws_pre un fs (s, messagereader_new (header i c @ body)) = (Inr w, s')"
  shows "get_id w = i \<and> (\<exists>payload. get_data lws_pre w =
    header i (request_code (get_request_type c) OR 0x80) @ payload)"
proof -
  let ?t = "get_request_type c"
  let ?h = "response_header lws_pre i ?t"
  have "handle_request un ?t fs ?h (s, advance 5 (messagereader_new (header i c @ body))) = (Inr w, s')"
    using assms by (subst (asm) handled_request) simp_all
  then obtain bs where "w = append_data bs ?h"
    using extends_handle_request unfolding extends_def by blast
  then show ?thesis
    by (simp add: response_header_def append_data_def get_id_def get_data_message
        response_code_request)
qed

subsection \<open>Properties\<close>

text \<open>
  Every response the provider produces, whatever the request's body and whatever the file system
  does, carries the id of the request and the type byte of the request with the top bit set
  (\<open>0x80\<close>, unknown, for an unknown request).
\<close>

theorem response_matches_request:
  assumes "on_message lws_pre un fs (s, messagereader_new (header i c @ body)) = (Inr w, s')"
  shows "get_id w = i \<and> (\<exists>payload. get_data lws_pre w =
    header i (request_code (get_request_type c) OR 0x80) @ payload)"
  using assms by (rule handled_response)

theorem response_matches_request_witness:
  "\<exists>w s'. on_message 16 uninit_zero empty_filesystem
      ((), messagereader_new (header 0x2a 0x14 @ enc_str ''/a'')) = (Inr w, s') \<and>
    get_id w = 0x2a \<and> (\<exists>payload. get_data 16 w = header 0x2a 0x94 @ payload)"
proof -
  have "serves (on_message 16 uninit_zero empty_filesystem) (header 0x2a 0x14 @ enc_str ''/a'')
      (reply_status (response_header 16 0x2a (get_request_type 0x14)) (fsi_rmdir empty_filesystem ''/a''))"
    by (intro serves_on_message)
      (simp add: get_request_type_def handle_request_def serves_rmdir str_ok_def)
  from servesD [OF this, of "messagereader_new (header 0x2a 0x14 @ enc_str ''/a'')" "[]" "()"]
  obtain w s' where w: "on_message 16 uninit_zero empty_filesystem
      ((), messagereader_new (header 0x2a 0x14 @ enc_str ''/a'')) = (Inr w, s')"
    by (simp add: empty_filesystem_def return_apply)
  from response_matches_request [OF w] show ?thesis
    using w by (intro exI [of _ w] exI [of _ s']) (simp add: get_request_type_def)
qed

text \<open>
  C17. The provider reads every message, however malformed, only inside its bounds: the handler leaves
  the message unchanged and the read position at most at its end, whether it returns or throws.
\<close>

theorem on_message_in_bounds:
  "let r = snd (snd (on_message lws_pre un fs (s, messagereader_new bs)))
   in mr_data r = bs \<and> mr_pos r \<le> length bs"
  using safe_on_message [of lws_pre un fs, unfolded safe_on_def, rule_format, of "(s, messagereader_new bs)"]
  by (simp add: messagereader_new_def Let_def)

end
