(* ===== verification/Filesystem_Proxy.thy ===== *)
theory Filesystem_Proxy
  imports Provider
begin

text \<open>
  Class \<^verbatim>\<open>filesystem\<close> (\<^verbatim>\<open>filesystem.cpp\<close>): the file system the service mounts. Every operation encodes
  a request, hands it to \<^verbatim>\<open>ws_server::perform\<close>, decodes the response and, when anything throws, returns
  what \<^verbatim>\<open>empty_filesystem\<close> returns. \<^verbatim>\<open>perform\<close> is an argument of the definitions; the theory of the
  server provides it.

  An object that an operation fills is part of the state of the \<^verbatim>\<open>try\<close> block, so that the fallback sees
  what was stored in it before the exception.
\<close>

subsection \<open>try and catch\<close>

text \<open>\<^verbatim>\<open>try { m } catch(...) { h }\<close>; undefined behaviour is not an exception.\<close>

definition try_catch :: "('s, 'a) sm \<Rightarrow> ('s, 'a) sm \<Rightarrow> ('s, 'a) sm" where
  "try_catch m h = (\<lambda>s. case m s of
      (Inl e, s') \<Rightarrow> if e = Undefined_behaviour then (Inl e, s') else h s'
    | (Inr a, s') \<Rightarrow> (Inr a, s'))"

text \<open>Running a block that modifies an object of the caller.\<close>

definition with_out :: "'o \<Rightarrow> ('o \<times> 'p, 'a) sm \<Rightarrow> ('p, 'a \<times> 'o) sm" where
  "with_out obj m = (\<lambda>p. case m (obj, p) of
      (Inl e, (_, p')) \<Rightarrow> (Inl e, p')
    | (Inr a, (obj', p')) \<Rightarrow> (Inr (a, obj'), p'))"

text \<open>Inside such a block: a call of the proxy, reads from the response, the fallback.\<close>

definition call_proxy :: "('p, 'a) sm \<Rightarrow> ('o \<times> 'p, 'a) sm" where
  "call_proxy m = (\<lambda>(obj, p). case m p of (v, p') \<Rightarrow> (v, (obj, p')))"

definition on_reader :: "('o, 'a) reader_out_m \<Rightarrow> messagereader \<Rightarrow> ('o \<times> 'p, 'a) sm" where
  "on_reader m reader = (\<lambda>(obj, p). case m (obj, reader) of (v, (obj', _)) \<Rightarrow> (v, (obj', p)))"

definition fall_back :: "('o \<Rightarrow> 'a \<times> 'o) \<Rightarrow> ('o \<times> 'p, 'a) sm" where
  "fall_back f = (\<lambda>(obj, p). case f obj of (a, obj') \<Rightarrow> (Inr a, (obj', p)))"

text \<open>Reads from the response in a block without such an object.\<close>

definition of_reader :: "'a reader_m \<Rightarrow> messagereader \<Rightarrow> ('p, 'a) sm" where
  "of_reader m reader = (\<lambda>p. (fst (m reader), p))"

type_synonym 'p perform = "messagewriter \<Rightarrow> ('p, messagereader) sm"

subsection \<open>The operations\<close>

definition filesystem_access :: "nat \<Rightarrow> 'p perform \<Rightarrow> string \<Rightarrow> i32 \<Rightarrow> ('p, i32) sm" where
  "filesystem_access lws_pre perform path mode = try_catch
    (let req = messagewriter_request lws_pre request_access;
         req = write_str path req;
         req = write_access_mode mode req
     in bind_m (perform req) (of_reader read_result))
    (return_m (empty_access path mode))"

definition filesystem_getattr :: "nat \<Rightarrow> 'p perform \<Rightarrow> string \<Rightarrow> stat \<Rightarrow> ('p, i32 \<times> stat) sm" where
  "filesystem_getattr lws_pre perform path attr = with_out attr (try_catch
    (let req = messagewriter_request lws_pre request_getattr;
         req = write_str path req
     in bind_m (call_proxy (perform req)) (on_reader
       (bind_m (local_read read_result) (\<lambda>result.
        if 0 = result
        then then_m read_attr (return_m result)
        else return_m result))))
    (fall_back (\<lambda>attr. empty_getattr path attr)))"

definition filesystem_readlink :: "nat \<Rightarrow> 'p perform \<Rightarrow> string \<Rightarrow> string \<Rightarrow> ('p, i32 \<times> string) sm" where
  "filesystem_readlink lws_pre perform path out = with_out out (try_catch
    (let req = messagewriter_request lws_pre request_readlink;
         req = write_str path req
     in bind_m (call_proxy (perform req)) (on_reader
       (bind_m (local_read read_result) (\<lambda>result.
        if 0 = result
        then then_m (assign (\<lambda>s _. s) read_str) (return_m result)
        else return_m result))))
    (fall_back (\<lambda>out. empty_readlink path out)))"

definition filesystem_symlink :: "nat \<Rightarrow> 'p perform \<Rightarrow> string \<Rightarrow> string \<Rightarrow> ('p, i32) sm" where
  "filesystem_symlink lws_pre perform target linkpath = try_catch
    (let req = messagewriter_request lws_pre request_symlink;
         req = write_str target req;
         req = write_str linkpath req
     in bind_m (perform req) (of_reader read_result))
    (return_m (empty_symlink target linkpath))"

definition filesystem_link :: "nat \<Rightarrow> 'p perform \<Rightarrow> string \<Rightarrow> string \<Rightarrow> ('p, i32) sm" where
  "filesystem_link lws_pre perform old_path new_path = try_catch
    (let req = messagewriter_request lws_pre request_link;
         req = write_str old_path req;
         req = write_str new_path req
     in bind_m (perform req) (of_reader read_result))
    (return_m (empty_link old_path new_path))"

definition filesystem_rename :: "nat \<Rightarrow> 'p perform \<Rightarrow> string \<Rightarrow> string \<Rightarrow> i32 \<Rightarrow> ('p, i32) sm" where
  "filesystem_rename lws_pre perform old_path new_path flags = try_catch
    (let req = messagewriter_request lws_pre request_rename;
         req = write_str old_path req;
         req = write_str new_path req;
         req = write_rename_flags flags req
     in bind_m (perform req) (of_reader read_result))
    (return_m (empty_rename old_path new_path flags))"

definition filesystem_chmod :: "nat \<Rightarrow> 'p perform \<Rightarrow> string \<Rightarrow> u32 \<Rightarrow> ('p, i32) sm" where
  "filesystem_chmod lws_pre perform path mode = try_catch
    (let req = messagewriter_request lws_pre request_chmod;
         req = write_str path req;
         req = write_mode mode req
     in bind_m (perform req) (of_reader read_result))
    (return_m (empty_chmod path mode))"

definition filesystem_chown :: "nat \<Rightarrow> 'p perform \<Rightarrow> string \<Rightarrow> u32 \<Rightarrow> u32 \<Rightarrow> ('p, i32) sm" where
  "filesystem_chown lws_pre perform path uid gid = try_catch
    (let req = messagewriter_request lws_pre request_chown;
         req = write_str path req;
         req = write_uid uid req;
         req = write_gid gid req
     in bind_m (perform req) (of_reader read_result))
    (return_m (empty_chown path uid gid))"

definition filesystem_truncate :: "nat \<Rightarrow> 'p perform \<Rightarrow> string \<Rightarrow> u64 \<Rightarrow> u64 \<Rightarrow> ('p, i32) sm" where
  "filesystem_truncate lws_pre perform path len handle = try_catch
    (let req = messagewriter_request lws_pre request_truncate;
         req = write_str path req;
         req = write_u64 len req;
         req = write_u64 handle req
     in bind_m (perform req) (of_reader read_result))
    (return_m (empty_truncate path len handle))"

definition filesystem_fsync :: "nat \<Rightarrow> 'p perform \<Rightarrow> string \<Rightarrow> bool \<Rightarrow> u64 \<Rightarrow> ('p, i32) sm" where
  "filesystem_fsync lws_pre perform path is_datasync handle = try_catch
    (let req = messagewriter_request lws_pre request_fsync;
         req = write_str path req;
         req = write_bool is_datasync req;
         req = write_u64 handle req
     in bind_m (perform req) (of_reader read_result))
    (return_m (empty_fsync path is_datasync handle))"

definition filesystem_utimens :: "nat \<Rightarrow> 'p perform \<Rightarrow> string \<Rightarrow> timespec \<times> timespec \<Rightarrow> u64 \<Rightarrow> ('p, i32) sm" where
  "filesystem_utimens lws_pre perform path tv handle = try_catch
    (let req = messagewriter_request lws_pre request_utimens;
         req = write_str path req;
         req = write_time (fst tv) req;
         req = write_time (snd tv) req;
         req = write_u64 handle req
     in bind_m (perform req) (of_reader read_result))
    (return_m (empty_utimens path tv handle))"

definition filesystem_open :: "nat \<Rightarrow> 'p perform \<Rightarrow> string \<Rightarrow> i32 \<Rightarrow> u64 \<Rightarrow> ('p, i32 \<times> u64) sm" where
  "filesystem_open lws_pre perform path flags handle = with_out handle (try_catch
    (let req = messagewriter_request lws_pre request_open;
         req = write_str path req;
         req = write_openflags flags req
     in bind_m (call_proxy (perform req)) (on_reader
       (bind_m (local_read read_result) (\<lambda>result.
        if 0 = result
        then then_m (assign (\<lambda>h _. h) read_u64) (return_m result)
        else return_m result))))
    (fall_back (\<lambda>handle. empty_open path flags handle)))"

definition filesystem_mknod :: "nat \<Rightarrow> 'p perform \<Rightarrow> string \<Rightarrow> u32 \<Rightarrow> u64 \<Rightarrow> ('p, i32) sm" where
  "filesystem_mknod lws_pre perform path mode rdev = try_catch
    (let req = messagewriter_request lws_pre request_mknod;
         req = write_str path req;
         req = write_mode mode req;
         req = write_u64 rdev req
     in bind_m (perform req) (of_reader read_result))
    (return_m (empty_mknod path mode rdev))"

definition filesystem_create :: "nat \<Rightarrow> 'p perform \<Rightarrow> string \<Rightarrow> u32 \<Rightarrow> u64 \<Rightarrow> ('p, i32 \<times> u64) sm" where
  "filesystem_create lws_pre perform path mode handle = with_out handle (try_catch
    (let req = messagewriter_request lws_pre request_create;
         req = write_str path req;
         req = write_mode mode req
     in bind_m (call_proxy (perform req)) (on_reader
       (bind_m (local_read read_result) (\<lambda>result.
        if 0 = result
        then then_m (assign (\<lambda>h _. h) read_u64) (return_m result)
        else return_m result))))
    (fall_back (\<lambda>handle. empty_create path mode handle)))"

definition filesystem_release :: "nat \<Rightarrow> 'p perform \<Rightarrow> string \<Rightarrow> u64 \<Rightarrow> ('p, i32) sm" where
  "filesystem_release lws_pre perform path handle = try_catch
    (let req = messagewriter_request lws_pre request_release;
         req = write_str path req;
         req = write_u64 handle req
     in bind_m (perform req) (of_reader read_result))
    (return_m (empty_release path handle))"

definition filesystem_unlink :: "nat \<Rightarrow> 'p perform \<Rightarrow> string \<Rightarrow> ('p, i32) sm" where
  "filesystem_unlink lws_pre perform path = try_catch
    (let req = messagewriter_request lws_pre request_unlink;
         req = write_str path req
     in bind_m (perform req) (of_reader read_result))
    (return_m (empty_unlink path))"

text \<open>
  \<open>buffer\<close> is the caller's memory, at least \<open>buffer_size\<close> characters; \<^verbatim>\<open>memcpy\<close> overwrites its front.
  \<^verbatim>\<open>req.write_u32(buffer_size)\<close> truncates the size to 32 bits.
\<close>

definition copy_front :: "string \<Rightarrow> string \<Rightarrow> string" where
  "copy_front data buffer = data @ drop (length data) buffer"

definition read_data :: "nat \<Rightarrow> (string, unit) reader_out_m" where
  "read_data buffer_size = bind_m (local_read read_bytes) (\<lambda>data.
    if length data \<le> buffer_size
    then (\<lambda>(buffer, r). (Inr (), (copy_front data buffer, r)))
    else throw_m (Runtime_error ''invalid message''))"

definition filesystem_read :: "nat \<Rightarrow> 'p perform \<Rightarrow> string \<Rightarrow> string \<Rightarrow> nat \<Rightarrow> u64 \<Rightarrow> u64 \<Rightarrow> ('p, i32 \<times> string) sm" where
  "filesystem_read lws_pre perform path buffer buffer_size offset handle = with_out buffer (try_catch
    (let req = messagewriter_request lws_pre request_read;
         req = write_str path req;
         req = write_u32 (word_of_nat buffer_size) req;
         req = write_u64 offset req;
         req = write_u64 handle req
     in bind_m (call_proxy (perform req)) (on_reader
       (bind_m (local_read read_result) (\<lambda>result.
        if 0 < sint result
        then then_m (read_data buffer_size) (return_m result)
        else return_m result))))
    (fall_back (\<lambda>buffer. empty_read path buffer buffer_size offset handle)))"

definition filesystem_write :: "nat \<Rightarrow> 'p perform \<Rightarrow> string \<Rightarrow> string \<Rightarrow> nat \<Rightarrow> u64 \<Rightarrow> u64 \<Rightarrow> ('p, i32) sm" where
  "filesystem_write lws_pre perform path buffer buffer_size offset handle = try_catch
    (let req = messagewriter_request lws_pre request_write;
         req = write_str path req;
         req = write_data buffer buffer_size req;
         req = write_u64 offset req;
         req = write_u64 handle req
     in bind_m (perform req) (of_reader read_result))
    (return_m (empty_write path buffer buffer_size offset handle))"

definition filesystem_mkdir :: "nat \<Rightarrow> 'p perform \<Rightarrow> string \<Rightarrow> u32 \<Rightarrow> ('p, i32) sm" where
  "filesystem_mkdir lws_pre perform path mode = try_catch
    (let req = messagewriter_request lws_pre request_mkdir;
         req = write_str path req;
         req = write_mode mode req
     in bind_m (perform req) (of_reader read_result))
    (return_m (empty_mkdir path mode))"

definition filesystem_readdir :: "nat \<Rightarrow> 'p perform \<Rightarrow> string \<Rightarrow> string list \<Rightarrow> ('p, i32 \<times> string list) sm" where
  "filesystem_readdir lws_pre perform path entries = with_out entries (try_catch
    (let req = messagewriter_request lws_pre request_readdir;
         req = write_str path req
     in bind_m (call_proxy (perform req)) (on_reader
       (bind_m (local_read read_result) (\<lambda>result.
        if 0 = result
        then then_m read_strings (return_m result)
        else return_m result))))
    (fall_back (\<lambda>entries. empty_readdir path entries)))"

definition filesystem_rmdir :: "nat \<Rightarrow> 'p perform \<Rightarrow> string \<Rightarrow> ('p, i32) sm" where
  "filesystem_rmdir lws_pre perform path = try_catch
    (let req = messagewriter_request lws_pre request_rmdir;
         req = write_str path req
     in bind_m (perform req) (of_reader read_result))
    (return_m (empty_rmdir path))"

definition filesystem_statfs :: "nat \<Rightarrow> 'p perform \<Rightarrow> string \<Rightarrow> statvfs \<Rightarrow> ('p, i32 \<times> statvfs) sm" where
  "filesystem_statfs lws_pre perform path statistics = with_out statistics (try_catch
    (let req = messagewriter_request lws_pre request_statfs;
         req = write_str path req
     in bind_m (call_proxy (perform req)) (on_reader
       (bind_m (local_read read_result) (\<lambda>result.
        if 0 = result
        then then_m read_statistics (return_m result)
        else return_m result))))
    (fall_back (\<lambda>statistics. empty_statfs path statistics)))"

definition filesystem_get_credentials :: "('p, string) sm" where
  "filesystem_get_credentials = throw_m (Runtime_error ''not implemented'')"

subsection \<open>Proxy laws\<close>

lemma try_catch_failed:
  "m s = (Inl e, s') \<Longrightarrow>
    try_catch m (return_m d) s = (if e = Undefined_behaviour then (Inl e, s') else (Inr d, s'))"
  by (simp add: try_catch_def return_apply)

text \<open>A request: its header with id 0 and its body.\<close>

definition request_message :: "nat \<Rightarrow> request_type \<Rightarrow> u8 list \<Rightarrow> messagewriter" where
  "request_message lws_pre t body = append_data body (messagewriter_request lws_pre t)"

lemma request_append: "append_data bs (messagewriter_request lws_pre t) = request_message lws_pre t bs"
  by (simp add: request_message_def)

text \<open>
  What the file system relies on. \<open>serve t body\<close> is the remote computation that answers a request
  of type \<open>t\<close> with the bytes of the response behind its header; \<^verbatim>\<open>perform\<close> delivers exactly these, and
  throws when there is no answer.
\<close>

locale transport =
  fixes lws_pre :: nat
    and perform :: "'p perform"
    and serve :: "request_type \<Rightarrow> u8 list \<Rightarrow> ('p, u8 list) sm"
  assumes perform_answer: "serve t body p = (Inr payload, p') \<Longrightarrow>
      \<exists>reader. perform (request_message lws_pre t body) p = (Inr reader, p') \<and> remaining reader = payload"
    and perform_no_answer: "serve t body p = (Inl e, p') \<Longrightarrow>
      \<exists>e'. perform (request_message lws_pre t body) p = (Inl e', p') \<and>
        (e' = Undefined_behaviour \<longleftrightarrow> e = Undefined_behaviour)"
begin

lemma no_answer:
  assumes "serve t body p = (Inl e, p')"
  shows "with_out obj (try_catch (bind_m (call_proxy (perform (request_message lws_pre t body))) k)
      (fall_back f)) p = (if e = Undefined_behaviour then (Inl e, p') else (Inr (f obj), p'))"
  using perform_no_answer [OF assms]
  by (auto simp: try_catch_def with_out_def bind_m_def call_proxy_def fall_back_def split: prod.splits)

text \<open>An operation that returns its status: the remote status, or the fallback's.\<close>

lemma remote_status:
  assumes "serve t body = bind_m m (\<lambda>result. return_m (be_bytes 4 result))"
  shows "try_catch (bind_m (perform (request_message lws_pre t body)) (of_reader read_result))
      (return_m d) = try_catch m (return_m d)"
proof
  fix p
  obtain v p' where m: "m p = (v, p')" by (cases "m p")
  show "try_catch (bind_m (perform (request_message lws_pre t body)) (of_reader read_result))
      (return_m d) p = try_catch m (return_m d) p"
  proof (cases v)
    case (Inl e)
    then have "serve t body p = (Inl e, p')" using m by (simp add: assms bind_fail)
    from perform_no_answer [OF this] show ?thesis
      using m Inl by (auto simp: try_catch_def bind_fail)
  next
    case (Inr result)
    then have "serve t body p = (Inr (be_bytes 4 result), p')"
      using m by (simp add: assms bind_step return_apply)
    from perform_answer [OF this] obtain reader
      where r: "perform (request_message lws_pre t body) p = (Inr reader, p')"
        "remaining reader = be_bytes 4 result @ []" by auto
    then have "of_reader read_result reader p' = (Inr result, p')"
      using readsD [OF reads_result r(2)] by (simp add: of_reader_def)
    then show ?thesis using m Inr r by (simp add: try_catch_def bind_step)
  qed
qed

text \<open>
  An operation that fills an object \<open>obj\<close>: \<open>enc result value\<close> is the response behind the status, and
  \<open>dec\<close> reads it.
\<close>

lemma remote_value:
  assumes "serve t body = bind_m m (\<lambda>(result, value). return_m (be_bytes 4 result @ enc result value))"
    and "\<And>result value. \<exists>cs rest. enc result value = cs @ rest \<and>
      reads_out (dec result) obj cs result (val result value)"
  shows "with_out obj (try_catch (bind_m (call_proxy (perform (request_message lws_pre t body)))
        (on_reader (bind_m (local_read read_result) dec))) (fall_back f)) =
      try_catch (bind_m m (\<lambda>(result, value). return_m (result, val result value))) (return_m (f obj))"
    (is "?l = ?r")
proof
  fix p
  obtain v p' where m: "m p = (v, p')" by (cases "m p")
  show "?l p = ?r p"
  proof (cases v)
    case (Inl e)
    then have "serve t body p = (Inl e, p')" using m by (simp add: assms bind_fail)
    with m Inl show ?thesis by (simp add: no_answer try_catch_failed [OF bind_fail])
  next
    case (Inr x)
    obtain result "value" where x: "x = (result, value)" by (cases x)
    obtain cs rest where cs: "enc result value = cs @ rest"
      "reads_out (dec result) obj cs result (val result value)"
      using assms(2) by blast
    have "serve t body p = (Inr (be_bytes 4 result @ cs @ rest), p')"
      using m Inr x cs by (simp add: assms bind_step return_apply)
    from perform_answer [OF this] obtain reader
      where r: "perform (request_message lws_pre t body) p = (Inr reader, p')"
        "remaining reader = (be_bytes 4 result @ cs) @ rest" by auto
    have "reads_out (bind_m (local_read read_result) dec) obj (be_bytes 4 result @ cs) result
        (val result value)"
      by (rule reads_out_bind, rule reads_out_local, rule reads_result, rule cs(2))
    from reads_outD [OF this r(2)] show ?thesis
      using m Inr r(1) x
      by (simp add: try_catch_def with_out_def bind_m_def call_proxy_def on_reader_def return_apply)
  qed
qed

end

subsection \<open>The protocol and the file system over it\<close>

text \<open>The responses of the protocol: a status, then a value when the status is 0.\<close>

definition answer_status :: "('s, i32) sm \<Rightarrow> ('s, u8 list) sm" where
  "answer_status m = bind_m m (\<lambda>result. return_m (be_bytes 4 result))"

definition answer_value :: "('a \<Rightarrow> u8 list) \<Rightarrow> ('s, i32 \<times> 'a) sm \<Rightarrow> ('s, u8 list) sm" where
  "answer_value enc m = bind_m m (\<lambda>(result, value).
    return_m (be_bytes 4 result @ (if 0 = result then enc value else [])))"

definition answer_entries :: "('s, i32 \<times> string list) sm \<Rightarrow> ('s, u8 list) sm" where
  "answer_entries m = bind_m m (\<lambda>(result, entries). return_m (be_bytes 4 result @
    (if 0 = result then mw_data (write_strings entries \<lparr>mw_id = 0, mw_data = []\<rparr>) else [])))"

definition answer_data :: "('s, i32 \<times> string) sm \<Rightarrow> ('s, u8 list) sm" where
  "answer_data m = bind_m m (\<lambda>(result, buffer).
    if 0 < sint result
    then (if unat result \<le> length buffer
          then return_m (be_bytes 4 result @ enc_str (take (unat result) buffer))
          else throw_m Undefined_behaviour)
    else return_m (be_bytes 4 result))"

lemma ucast_and_3: "ucast (ucast (v AND 3) :: u8) = v AND 3" for v :: u32
proof -
  have m: "(3 :: u32) = mask 2" by (simp add: mask_eq_exp_minus_1)
  show ?thesis unfolding m
    by (rule bit_word_eqI) (auto simp: bit_and_iff bit_unsigned_iff bit_mask_iff)
qed

lemma decode_value:
  assumes "\<And>value. reads_out rd obj (enc value) () (val value)"
  shows "\<exists>cs rest. (if 0 = result then enc value else []) = cs @ rest \<and>
    reads_out (if 0 = result then then_m rd (return_m result) else return_m result) obj cs result
      (if result = 0 then val value else obj)"
proof (cases "result = 0")
  case True
  have "reads_out (then_m rd (return_m result)) obj (enc value @ []) result (val value)"
    by (rule reads_out_then, rule assms, rule reads_out_return)
  then show ?thesis using True by (intro exI [of _ "enc value"] exI [of _ "[]"]) simp
next
  case False
  then show ?thesis using reads_out_return by (intro exI [of _ "[]"]) auto
qed

text \<open>
  The decoder of a read response, on a response that arrived complete: the data is copied to the
  front of the caller's buffer, unless it is longer than that.
\<close>

definition fetched :: "nat \<Rightarrow> string \<Rightarrow> i32 \<times> string \<Rightarrow> ('p, i32 \<times> string) sm" where
  "fetched buffer_size buffer = (\<lambda>(result, data).
    if 0 < sint result
    then (if unat result \<le> length data
          then (if unat result \<le> buffer_size
                then return_m (result, copy_front (take (unat result) data) buffer)
                else throw_m (Runtime_error ''invalid message''))
          else throw_m Undefined_behaviour)
    else return_m (result, buffer))"

lemma read_data_eq:
  assumes "str_ok d" and "remaining r = enc_str d"
  shows "read_data n (buffer, r) =
    (if length d \<le> n then (Inr (), (copy_front d buffer, advance (length (enc_str d)) r))
     else (Inl (Runtime_error ''invalid message''), (buffer, advance (length (enc_str d)) r)))"
proof -
  have "local_read read_bytes (buffer, r) = (Inr d, (buffer, advance (length (enc_str d)) r))"
    using assms reads_outD [OF reads_out_local [OF reads_bytes], of d r "[]" buffer]
    by (simp add: str_ok_def)
  then show ?thesis by (simp add: read_data_def bind_step throw_apply)
qed

text \<open>The block of \<^verbatim>\<open>filesystem::read\<close> that decodes the response.\<close>

definition decode_read :: "nat \<Rightarrow> (string, i32) reader_out_m" where
  "decode_read buffer_size = bind_m (local_read read_result) (\<lambda>result.
    if 0 < sint result then then_m (read_data buffer_size) (return_m result) else return_m result)"

lemma decode_read_eq:
  assumes "remaining r = be_bytes 4 result @
    (if 0 < sint result then enc_str (take (unat result) data) else [])"
    and "0 < sint result \<longrightarrow> unat result \<le> length data"
  shows "on_reader (decode_read n) r (buffer, p) =
    (case fetched n buffer (result, data) p of
      (Inl e, p') \<Rightarrow> (Inl e, (buffer, p')) | (Inr (a, obj), p') \<Rightarrow> (Inr a, (obj, p')))"
proof -
  let ?d = "take (unat result) data"
  have "local_read read_result (buffer, r) = (Inr result, (buffer, advance 4 r))"
    using reads_outD [OF reads_out_local [OF reads_result] assms(1)] by simp
  moreover have "unat result < 2 ^ LENGTH(32)" by (rule unsigned_less)
  then have "str_ok ?d" by (simp add: str_ok_def)
  moreover have "0 < sint result \<Longrightarrow> remaining (advance 4 r) = enc_str ?d"
    using assms(1) by simp
  ultimately show ?thesis
    using assms(2)
    by (simp add: decode_read_def on_reader_def fetched_def bind_step then_m_def read_data_eq
        return_apply throw_apply bind_m_def)
qed

text \<open>A transport whose far end answers from the file system \<open>fs\<close>.\<close>

locale remote_filesystem = transport lws_pre perform serve
  for lws_pre :: nat and perform :: "'s perform" and serve +
  fixes fs :: "'s filesystem_i"
    and un :: uninit
  assumes
    serve_access: "str_ok p \<Longrightarrow> serve request_access (enc_str p @ [access_mode_from_int m]) =
      answer_status (fsi_access fs p (m AND 7))"
    and serve_symlink: "str_ok p \<Longrightarrow> str_ok q \<Longrightarrow> serve request_symlink (enc_str p @ enc_str q) =
      answer_status (fsi_symlink fs p q)"
    and serve_link: "str_ok p \<Longrightarrow> str_ok q \<Longrightarrow> serve request_link (enc_str p @ enc_str q) =
      answer_status (fsi_link fs p q)"
    and serve_rename: "str_ok p \<Longrightarrow> str_ok q \<Longrightarrow> serve request_rename (enc_str p @ enc_str q @ [f]) =
      answer_status (fsi_rename fs p q (ucast f))"
    and serve_chmod: "str_ok p \<Longrightarrow> serve request_chmod (enc_str p @ be_bytes 4 (filemode_from_mode m)) =
      answer_status (fsi_chmod fs p (filemode_from_mode m))"
    and serve_chown: "str_ok p \<Longrightarrow> serve request_chown (enc_str p @ be_bytes 4 u @ be_bytes 4 g) =
      answer_status (fsi_chown fs p u g)"
    and serve_truncate: "str_ok p \<Longrightarrow> serve request_truncate (enc_str p @ be_bytes 8 n @ be_bytes 8 h) =
      answer_status (fsi_truncate fs p (low32 n) (low32 h))"
    and serve_fsync: "str_ok p \<Longrightarrow> serve request_fsync (enc_str p @ [if d then 1 else 0] @ be_bytes 8 h) =
      answer_status (fsi_fsync fs p d (low32 h))"
    and serve_utimens: "str_ok p \<Longrightarrow> serve request_utimens (enc_str p @ enc_time t0 @ enc_time t1 @ be_bytes 8 h) =
      answer_status (fsi_utimens fs p (recv_time t0, recv_time t1) (low32 h))"
    and serve_mknod: "str_ok p \<Longrightarrow> serve request_mknod (enc_str p @ be_bytes 4 (filemode_from_mode m) @ be_bytes 8 dev) =
      answer_status (fsi_mknod fs p (filemode_from_mode m) (drop_bit 32 dev))"
    and serve_release: "str_ok p \<Longrightarrow> serve request_release (enc_str p @ be_bytes 8 h) =
      answer_status (fsi_release fs p (low32 h))"
    and serve_unlink: "str_ok p \<Longrightarrow> serve request_unlink (enc_str p) =
      answer_status (fsi_unlink fs p)"
    and serve_write: "str_ok p \<Longrightarrow> str_ok b \<Longrightarrow> serve request_write (enc_str p @ enc_str b @ be_bytes 8 off @ be_bytes 8 h) =
      answer_status (fsi_write fs p b (length b) (low32 off) (low32 h))"
    and serve_mkdir: "str_ok p \<Longrightarrow> serve request_mkdir (enc_str p @ be_bytes 4 (filemode_from_mode m)) =
      answer_status (fsi_mkdir fs p (filemode_from_mode m))"
    and serve_rmdir: "str_ok p \<Longrightarrow> serve request_rmdir (enc_str p) =
      answer_status (fsi_rmdir fs p)"
    and serve_getattr: "str_ok p \<Longrightarrow> serve request_getattr (enc_str p) =
      answer_value (\<lambda>a. enc_attr a) (fsi_getattr fs p (un_stat un))"
    and serve_readlink: "str_ok p \<Longrightarrow> serve request_readlink (enc_str p) =
      answer_value (\<lambda>out. enc_str (recv_str out)) (fsi_readlink fs p [])"
    and serve_open: "str_ok p \<Longrightarrow> serve request_open (enc_str p @ be_bytes 4 (openflags_from_int fl)) =
      answer_value (be_bytes 8) (fsi_open fs p (openflags_to_int (openflags_from_int fl)) invalid_handle)"
    and serve_create: "str_ok p \<Longrightarrow> serve request_create (enc_str p @ be_bytes 4 (filemode_from_mode m)) =
      answer_value (be_bytes 8) (fsi_create fs p (filemode_from_mode m) invalid_handle)"
    and serve_statfs: "str_ok p \<Longrightarrow> serve request_statfs (enc_str p) =
      answer_value enc_statistics (fsi_statfs fs p statvfs_zero)"
    and serve_readdir: "str_ok p \<Longrightarrow> serve request_readdir (enc_str p) =
      answer_entries (fsi_readdir fs p [])"
    and serve_read: "str_ok p \<Longrightarrow>
      serve request_read (enc_str p @ be_bytes 4 (len :: u32) @ be_bytes 8 off @ be_bytes 8 h) =
      answer_data (fsi_read fs p (replicate (unat len) (CHR 0x00)) (unat len) (low32 off) (low32 h))"
begin

lemma remote_answer:
  assumes "serve t body = answer_value enc m"
    and "\<And>value. reads_out rd obj (enc value) () (val value)"
  shows "with_out obj (try_catch (bind_m (call_proxy (perform (request_message lws_pre t body)))
        (on_reader (bind_m (local_read read_result)
          (\<lambda>result. if 0 = result then then_m rd (return_m result) else return_m result))))
        (fall_back f)) =
      try_catch (bind_m m (\<lambda>(result, value).
        return_m (result, if result = 0 then val value else obj))) (return_m (f obj))"
  by (rule remote_value [OF assms(1) [unfolded answer_value_def]]) (rule decode_value, rule assms(2))

lemma remote_access: "filesystem_access lws_pre perform path mode =
    try_catch (fsi_access fs (recv_str path) (mode AND 7))
      (return_m (empty_access path mode))"
  by (simp add: filesystem_access_def Let_def writer_simps request_append
      remote_status [OF serve_access [unfolded answer_status_def]])

lemma remote_symlink: "filesystem_symlink lws_pre perform target linkpath =
    try_catch (fsi_symlink fs (recv_str target) (recv_str linkpath))
      (return_m (empty_symlink target linkpath))"
  by (simp add: filesystem_symlink_def Let_def writer_simps request_append
      remote_status [OF serve_symlink [unfolded answer_status_def]])

lemma remote_link: "filesystem_link lws_pre perform old_path new_path =
    try_catch (fsi_link fs (recv_str old_path) (recv_str new_path))
      (return_m (empty_link old_path new_path))"
  by (simp add: filesystem_link_def Let_def writer_simps request_append
      remote_status [OF serve_link [unfolded answer_status_def]])

lemma remote_rename: "filesystem_rename lws_pre perform old_path new_path flags =
    try_catch (fsi_rename fs (recv_str old_path) (recv_str new_path) (flags AND 3))
      (return_m (empty_rename old_path new_path flags))"
  by (simp add: filesystem_rename_def Let_def ucast_and_3 writer_simps request_append
      remote_status [OF serve_rename [unfolded answer_status_def]])

lemma remote_chmod: "filesystem_chmod lws_pre perform path mode =
    try_catch (fsi_chmod fs (recv_str path) (filemode_from_mode mode))
      (return_m (empty_chmod path mode))"
  by (simp add: filesystem_chmod_def Let_def writer_simps request_append
      remote_status [OF serve_chmod [unfolded answer_status_def]])

lemma remote_chown: "filesystem_chown lws_pre perform path uid gid =
    try_catch (fsi_chown fs (recv_str path) uid gid)
      (return_m (empty_chown path uid gid))"
  by (simp add: filesystem_chown_def Let_def writer_simps request_append
      remote_status [OF serve_chown [unfolded answer_status_def]])

lemma remote_truncate: "filesystem_truncate lws_pre perform path len handle =
    try_catch (fsi_truncate fs (recv_str path) (low32 len) (low32 handle))
      (return_m (empty_truncate path len handle))"
  by (simp add: filesystem_truncate_def Let_def writer_simps request_append
      remote_status [OF serve_truncate [unfolded answer_status_def]])

lemma remote_fsync: "filesystem_fsync lws_pre perform path is_datasync handle =
    try_catch (fsi_fsync fs (recv_str path) is_datasync (low32 handle))
      (return_m (empty_fsync path is_datasync handle))"
  using remote_status [OF serve_fsync [OF str_ok_recv_str, unfolded answer_status_def]]
  by (simp only: filesystem_fsync_def Let_def writer_simps request_append append_data_append append_assoc)

lemma remote_utimens: "filesystem_utimens lws_pre perform path tv handle =
    try_catch (fsi_utimens fs (recv_str path) (recv_time (fst tv), recv_time (snd tv)) (low32 handle))
      (return_m (empty_utimens path tv handle))"
  by (simp add: filesystem_utimens_def Let_def writer_simps request_append
      remote_status [OF serve_utimens [unfolded answer_status_def]])

lemma remote_mknod: "filesystem_mknod lws_pre perform path mode rdev =
    try_catch (fsi_mknod fs (recv_str path) (filemode_from_mode mode) (drop_bit 32 rdev))
      (return_m (empty_mknod path mode rdev))"
  by (simp add: filesystem_mknod_def Let_def writer_simps request_append
      remote_status [OF serve_mknod [unfolded answer_status_def]])

lemma remote_release: "filesystem_release lws_pre perform path handle =
    try_catch (fsi_release fs (recv_str path) (low32 handle))
      (return_m (empty_release path handle))"
  by (simp add: filesystem_release_def Let_def writer_simps request_append
      remote_status [OF serve_release [unfolded answer_status_def]])

lemma remote_unlink: "filesystem_unlink lws_pre perform path =
    try_catch (fsi_unlink fs (recv_str path))
      (return_m (empty_unlink path))"
  by (simp add: filesystem_unlink_def Let_def writer_simps request_append
      remote_status [OF serve_unlink [unfolded answer_status_def]])

lemma remote_write: "n \<le> length buffer \<Longrightarrow> filesystem_write lws_pre perform path buffer n offset handle =
    try_catch (fsi_write fs (recv_str path) (take (n mod 2 ^ 32) buffer) (n mod 2 ^ 32) (low32 offset) (low32 handle))
      (return_m (empty_write path buffer n offset handle))"
proof -
  let ?b = "take (n mod 2 ^ 32) buffer"
  assume n: "n \<le> length buffer"
  then have "n mod 2 ^ 32 \<le> length buffer" by (meson mod_less_eq_dividend order_trans)
  then have b: "length ?b = n mod 2 ^ 32" "str_ok ?b" by (simp_all add: str_ok_def)
  show ?thesis
    using remote_status [OF serve_write [OF str_ok_recv_str b(2), unfolded answer_status_def b(1)]] n
    by (simp add: filesystem_write_def Let_def writer_simps request_append)
qed

lemma remote_mkdir: "filesystem_mkdir lws_pre perform path mode =
    try_catch (fsi_mkdir fs (recv_str path) (filemode_from_mode mode))
      (return_m (empty_mkdir path mode))"
  by (simp add: filesystem_mkdir_def Let_def writer_simps request_append
      remote_status [OF serve_mkdir [unfolded answer_status_def]])

lemma remote_rmdir: "filesystem_rmdir lws_pre perform path =
    try_catch (fsi_rmdir fs (recv_str path))
      (return_m (empty_rmdir path))"
  by (simp add: filesystem_rmdir_def Let_def writer_simps request_append
      remote_status [OF serve_rmdir [unfolded answer_status_def]])

lemma remote_getattr: "filesystem_getattr lws_pre perform path attr =
    try_catch (bind_m (fsi_getattr fs (recv_str path) (un_stat un))
        (\<lambda>(result, value). return_m (result, if result = 0 then recv_attr value attr else attr)))
      (return_m (empty_getattr path attr))"
  unfolding filesystem_getattr_def Let_def writer_simps request_append append_data_append
  by (rule remote_answer, rule serve_getattr [OF str_ok_recv_str], rule attr_codec.rd_enc [OF TrueI])

lemma remote_readlink: "filesystem_readlink lws_pre perform path out =
    try_catch (bind_m (fsi_readlink fs (recv_str path) [])
        (\<lambda>(result, value). return_m (result, if result = 0 then recv_str value else out)))
      (return_m (empty_readlink path out))"
  unfolding filesystem_readlink_def Let_def writer_simps request_append append_data_append
  by (rule remote_answer, rule serve_readlink [OF str_ok_recv_str], rule str_codec.var.rd_enc [OF TrueI])

lemma remote_open: "filesystem_open lws_pre perform path flags handle =
    try_catch (bind_m (fsi_open fs (recv_str path) (openflags_to_int (openflags_from_int flags)) invalid_handle)
        (\<lambda>(result, value). return_m (result, if result = 0 then low32 value else handle)))
      (return_m (empty_open path flags handle))"
  unfolding filesystem_open_def Let_def writer_simps request_append append_data_append
  by (rule remote_answer, rule serve_open [OF str_ok_recv_str], rule u64_codec.var.rd_enc [OF TrueI])

lemma remote_create: "filesystem_create lws_pre perform path mode handle =
    try_catch (bind_m (fsi_create fs (recv_str path) (filemode_from_mode mode) invalid_handle)
        (\<lambda>(result, value). return_m (result, if result = 0 then low32 value else handle)))
      (return_m (empty_create path mode handle))"
  unfolding filesystem_create_def Let_def writer_simps request_append append_data_append
  by (rule remote_answer, rule serve_create [OF str_ok_recv_str], rule u64_codec.var.rd_enc [OF TrueI])

lemma remote_statfs: "filesystem_statfs lws_pre perform path statistics =
    try_catch (bind_m (fsi_statfs fs (recv_str path) statvfs_zero)
        (\<lambda>(result, value). return_m (result, if result = 0 then recv_statistics value statistics else statistics)))
      (return_m (empty_statfs path statistics))"
  unfolding filesystem_statfs_def Let_def writer_simps request_append append_data_append
  by (rule remote_answer, rule serve_statfs [OF str_ok_recv_str], rule statistics_codec.rd_enc [OF TrueI])

lemma remote_readdir: "filesystem_readdir lws_pre perform path entries =
    try_catch (bind_m (fsi_readdir fs (recv_str path) [])
        (\<lambda>(result, value). return_m (result, if result = 0 then entries @ recv_strings value else entries)))
      (return_m (empty_readdir path entries))"
  unfolding filesystem_readdir_def Let_def write_str_append request_append
proof (rule remote_value)
  show "serve request_readdir (enc_str (recv_str path)) =
    bind_m (fsi_readdir fs (recv_str path) []) (\<lambda>(result, value). return_m (be_bytes 4 result @
      (if 0 = result then mw_data (write_strings value \<lparr>mw_id = 0, mw_data = []\<rparr>) else [])))"
    using serve_readdir [OF str_ok_recv_str] by (simp add: answer_entries_def)
next
  fix result :: i32 and "value" :: "string list"
  obtain rest where "mw_data (write_strings value \<lparr>mw_id = 0, mw_data = []\<rparr>) =
      enc_strings (recv_strings value) @ rest"
    using write_strings_rest [of "value"] by (auto simp: append_data_def)
  moreover have "\<exists>cs rest. (if 0 = result then enc_strings (recv_strings value) else []) = cs @ rest \<and>
    reads_out (if 0 = result then then_m read_strings (return_m result) else return_m result)
      entries cs result (if result = 0 then entries @ recv_strings value else entries)"
    by (rule decode_value) (rule reads_out_strings, simp)
  ultimately show "\<exists>cs rest. (if 0 = result
        then mw_data (write_strings value \<lparr>mw_id = 0, mw_data = []\<rparr>) else []) = cs @ rest \<and>
    reads_out (if 0 = result then then_m read_strings (return_m result) else return_m result)
      entries cs result (if result = 0 then entries @ recv_strings value else entries)"
    by (cases "0 = result") fastforce+
qed

lemma remote_read: "filesystem_read lws_pre perform path buffer n offset handle =
    try_catch
      (bind_m (fsi_read fs (recv_str path) (replicate (n mod 2 ^ 32) (CHR 0x00)) (n mod 2 ^ 32)
          (low32 offset) (low32 handle))
        (fetched n buffer))
      (return_m (empty_read path buffer n offset handle))"
    (is "_ = try_catch (bind_m ?m _) _")
proof
  fix p
  let ?body = "enc_str (recv_str path) @ be_bytes 4 (word_of_nat n :: u32) @ be_bytes 8 offset @
    be_bytes 8 handle"
  have serve: "serve request_read ?body = answer_data ?m"
    using serve_read [OF str_ok_recv_str] by (simp add: unat_of_nat take_bit_eq_mod)
  have eq: "filesystem_read lws_pre perform path buffer n offset handle = with_out buffer (try_catch
      (bind_m (call_proxy (perform (request_message lws_pre request_read ?body)))
        (on_reader (decode_read n)))
      (fall_back (\<lambda>buffer. empty_read path buffer n offset handle)))"
    by (simp add: filesystem_read_def Let_def writer_simps request_append decode_read_def)
  obtain v p' where m: "?m p = (v, p')" by (cases "?m p")
  show "filesystem_read lws_pre perform path buffer n offset handle p =
      try_catch (bind_m ?m (fetched n buffer)) (return_m (empty_read path buffer n offset handle)) p"
  proof (cases v)
    case (Inl e)
    then have "serve request_read ?body p = (Inl e, p')"
      using m by (simp add: serve answer_data_def bind_fail)
    with m Inl show ?thesis by (simp add: eq no_answer try_catch_failed [OF bind_fail])
  next
    case (Inr x)
    obtain result data where x: "x = (result, data)" by (cases x)
    show ?thesis
    proof (cases "0 < sint result \<longrightarrow> unat result \<le> length data")
      case True
      then have "serve request_read ?body p = (Inr (be_bytes 4 result @
          (if 0 < sint result then enc_str (take (unat result) data) else [])), p')"
        using m Inr x by (simp add: serve answer_data_def bind_step return_apply)
      from perform_answer [OF this] obtain reader where
        r: "perform (request_message lws_pre request_read ?body) p = (Inr reader, p')"
          "remaining reader = be_bytes 4 result @
            (if 0 < sint result then enc_str (take (unat result) data) else [])" by blast
      show ?thesis
        using r(1) m Inr x True
        by (simp add: decode_read_eq [OF r(2) True] eq try_catch_def with_out_def bind_m_def call_proxy_def fetched_def
            return_apply throw_apply fall_back_def empty_read_def)
    next
      case False
      then have "serve request_read ?body p = (Inl Undefined_behaviour, p')"
        using m Inr x by (simp add: serve answer_data_def bind_step throw_apply)
      then have "filesystem_read lws_pre perform path buffer n offset handle p =
          (Inl Undefined_behaviour, p')" by (simp add: eq no_answer)
      then show ?thesis
        using m Inr x False by (simp add: try_catch_def bind_step fetched_def throw_apply)
    qed
  qed
qed

end

subsection \<open>A transport without a network\<close>

text \<open>
  The shortest path between the two programs: the request gets an id and is serialised
  (\<^verbatim>\<open>ws_server_handler::poll\<close>, \<^verbatim>\<open>on_writable\<close>), the client hands the bytes to the provider's
  \<^verbatim>\<open>on_message\<close> and sends the response back, the server strips id and type
  (\<^verbatim>\<open>ws_server_handler::on_receive\<close>). When the provider throws, there is no response and the server
  gives up waiting.
\<close>

definition no_response :: "exn \<Rightarrow> exn" where
  "no_response e = (if e = Undefined_behaviour then e else Runtime_error ''timeout'')"

definition strip_header :: "unit reader_m" where
  "strip_header = bind_m read_u32 (\<lambda>_. bind_m read_u8 (\<lambda>_. return_m ()))"

definition loopback :: "nat \<Rightarrow> uninit \<Rightarrow> 's filesystem_i \<Rightarrow> u32 \<Rightarrow> 's perform" where
  "loopback lws_pre un fs i req = (\<lambda>s.
    case on_message lws_pre un fs (s, messagereader_new (get_data lws_pre (set_id lws_pre i req))) of
      (Inl e, (s', _)) \<Rightarrow> (Inl (no_response e), s')
    | (Inr resp, (s', _)) \<Rightarrow>
        (case strip_header (messagereader_new (get_data lws_pre resp)) of
          (Inl e, _) \<Rightarrow> (Inl (no_response e), s')
        | (Inr _, reader) \<Rightarrow> (Inr reader, s')))"

text \<open>The far end: the handler of the provider on the body of a request.\<close>

definition provider_serve ::
    "nat \<Rightarrow> uninit \<Rightarrow> 's filesystem_i \<Rightarrow> u32 \<Rightarrow> request_type \<Rightarrow> u8 list \<Rightarrow> ('s, u8 list) sm" where
  "provider_serve lws_pre un fs i t body = (\<lambda>s.
    case on_message lws_pre un fs (s, messagereader_new (header i (request_code t) @ body)) of
      (Inl e, (s', _)) \<Rightarrow> (Inl e, s')
    | (Inr resp, (s', _)) \<Rightarrow> (Inr (drop 5 (get_data lws_pre resp)), s'))"

lemma set_id_request:
  "get_data lws_pre (set_id lws_pre i (request_message lws_pre t body)) = header i (request_code t) @ body"
  by (simp add: request_message_def messagewriter_request_eq append_data_def set_id_header
      get_data_message)

lemma strip_header_eq: "strip_header (messagereader_new (header i c @ payload)) =
    (Inr (), advance 5 (messagereader_new (header i c @ payload)))"
proof -
  have "reads strip_header (be_bytes 4 i @ [c] @ []) ()"
    unfolding strip_header_def by (rule reader_rules)+
  then show ?thesis
    using readsD [of strip_header "header i c" "()" "messagereader_new (header i c @ payload)"]
    by (simp add: header_def)
qed

interpretation loop: transport lws_pre "loopback lws_pre un fs i" "provider_serve lws_pre un fs i"
  for lws_pre un fs i
proof
  fix t body s payload s'
  assume "provider_serve lws_pre un fs i t body s = (Inr payload, s')"
  then obtain w r' where
    w: "on_message lws_pre un fs (s, messagereader_new (header i (request_code t) @ body)) = (Inr w, (s', r'))"
      "payload = drop 5 (get_data lws_pre w)"
    by (auto simp: provider_serve_def split: prod.splits sum.splits)
  from handled_response [OF w(1)] obtain c bs where "get_data lws_pre w = header i c @ bs" by blast
  then show "\<exists>reader. loopback lws_pre un fs i (request_message lws_pre t body) s = (Inr reader, s') \<and>
      remaining reader = payload"
    using w by (simp add: loopback_def set_id_request strip_header_eq)
next
  fix t body s e s'
  assume "provider_serve lws_pre un fs i t body s = (Inl e, s')"
  then show "\<exists>e'. loopback lws_pre un fs i (request_message lws_pre t body) s = (Inl e', s') \<and>
      (e' = Undefined_behaviour) = (e = Undefined_behaviour)"
    by (auto simp: provider_serve_def loopback_def set_id_request no_response_def
        split: prod.splits sum.splits)
qed

text \<open>What the provider answers, from what its handlers do.\<close>

lemma response_payload: "drop 5 (get_data lws_pre (append_data bs (response_header lws_pre i t))) = bs"
  by (simp add: response_header_def append_data_def get_data_message)

lemma provider_serve_eq:
  assumes "serves (handle_request un t fs (response_header lws_pre i t)) bs n"
  shows "provider_serve lws_pre un fs i t (bs @ rest) =
    bind_m n (\<lambda>w. return_m (drop 5 (get_data lws_pre w)))"
proof
  fix s
  let ?r = "messagereader_new (header i (request_code t) @ bs @ rest)"
  have "serves (on_message lws_pre un fs) (header i (request_code t) @ bs) n"
    by (rule serves_on_message) (simp add: assms)
  from servesD [OF this, of ?r rest s]
  show "provider_serve lws_pre un fs i t (bs @ rest) s =
      bind_m n (\<lambda>w. return_m (drop 5 (get_data lws_pre w))) s"
    by (simp add: provider_serve_def bind_m_def return_apply split: prod.splits sum.splits)
qed

lemmas provider_serve_whole = provider_serve_eq [where rest = "[]", unfolded append_Nil2]

lemma provider_serve_status:
  assumes "\<And>w. serves (handle_request un t fs w) bs (reply_status w m)"
  shows "provider_serve lws_pre un fs i t (bs @ rest) = answer_status m"
  by (simp add: provider_serve_eq [OF assms] bind_assoc response_payload answer_status_def)

lemma provider_serve_value:
  assumes "\<And>w. serves (handle_request un t fs w) bs (reply_value enc w m)"
  shows "provider_serve lws_pre un fs i t (bs @ rest) = answer_value enc m"
  by (simp add: provider_serve_eq [OF assms] bind_assoc response_payload answer_value_def
      case_prod_unfold)

text \<open>The first half of a 64-bit value is what a 32-bit read takes.\<close>

lemma be_bytes_8_split:
  "be_bytes 8 v = be_bytes 4 (ucast (drop_bit 32 v) :: u32) @ be_bytes 4 (ucast v :: u32)" for v :: u64
  unfolding be_bytes_8 be_bytes_4 append.simps list.inject
  by (intro conjI bit_word_eqI TrueI) (auto simp: bit_unsigned_iff bit_drop_bit_eq add.commute)

lemma drop_bit_32: "ucast (ucast (drop_bit 32 v) :: u32) = drop_bit 32 v" for v :: u64
  by (rule bit_word_eqI) (auto simp: bit_unsigned_iff bit_drop_bit_eq dest: bit_imp_le_length)

lemma provider_serve_mknod:
  "str_ok p \<Longrightarrow> provider_serve lws_pre un fs i request_mknod
      (enc_str p @ be_bytes 4 (filemode_from_mode m) @ be_bytes 8 dev) =
    answer_status (fsi_mknod fs p (filemode_from_mode m) (drop_bit 32 dev))"
  using provider_serve_status [of un request_mknod fs
      "enc_str p @ be_bytes 4 (filemode_from_mode m) @ be_bytes 4 (ucast (drop_bit 32 dev) :: u32)",
      OF _, where rest = "be_bytes 4 (ucast dev :: u32)"]
    serves_mknod [of p fs _ m "ucast (drop_bit 32 dev)"]
  by (simp add: handle_request_def be_bytes_8_split drop_bit_32)

lemma provider_serve_readdir:
  assumes "str_ok p"
  shows "provider_serve lws_pre un fs i request_readdir (enc_str p) =
    answer_entries (fsi_readdir fs p [])"
proof -
  have entries: "drop 5 (get_data lws_pre (write_strings es (append_data bs (response_header lws_pre i t)))) =
      bs @ mw_data (write_strings es \<lparr>mw_id = 0, mw_data = []\<rparr>)" for es bs t
    using write_strings_rest [of es] by (auto simp: response_payload append_data_def [of _ "\<lparr>mw_id = 0, mw_data = []\<rparr>"])
  show ?thesis
    unfolding answer_entries_def
      provider_serve_whole [where t = request_readdir, unfolded handle_request_def request_type.case,
        OF serves_readdir [OF assms]]
    by (simp add: bind_assoc case_prod_unfold Let_def entries response_payload
        if_distrib [of "\<lambda>w. drop 5 (get_data lws_pre w)"] cong: if_cong)
      (rule arg_cong [of _ _ "bind_m _"], rule ext, simp)
qed

lemma provider_serve_read:
  assumes "str_ok p"
  shows "provider_serve lws_pre un fs i request_read
      (enc_str p @ be_bytes 4 (len :: u32) @ be_bytes 8 off @ be_bytes 8 h) =
    answer_data (fsi_read fs p (replicate (unat len) (CHR 0x00)) (unat len) (low32 off) (low32 h))"
proof -
  have bound: "unat result mod 4294967296 = unat result" for result :: i32
    using unsigned_less [of result, where 'a = nat] by simp
  have push: "bind_m (if b then m else n) f = (if b then bind_m m f else bind_m n f)"
    for b and m n :: "('s, messagewriter) sm" and f by simp
  show ?thesis
    unfolding answer_data_def
      provider_serve_whole [where t = request_read, unfolded handle_request_def request_type.case,
        OF serves_fs_read [OF assms]]
    by (simp add: bind_assoc case_prod_unfold Let_def write_data_append bound response_payload push
        cong: if_cong)
qed

lemmas provider_serve_all = provider_serve_mknod provider_serve_readdir provider_serve_read
  provider_serve_status [where rest = "[]", unfolded append_Nil2]
  provider_serve_value [where rest = "[]", unfolded append_Nil2]

lemmas serves_all = serves_access serves_symlink serves_link serves_rename serves_chmod
  serves_chown serves_truncate serves_fsync serves_utimens serves_release serves_unlink
  serves_write serves_mkdir serves_rmdir serves_getattr serves_readlink serves_open
  serves_create serves_statfs

interpretation loop_fs: remote_filesystem lws_pre "loopback lws_pre un fs i"
    "provider_serve lws_pre un fs i" fs un
  for lws_pre un fs i
  by unfold_locales
    (rule provider_serve_all serves_all | assumption | simp only: handle_request_def request_type.case)+

subsection \<open>No exception escapes\<close>

definition never_undefined :: "('s, 'a) sm \<Rightarrow> bool" where
  "never_undefined m \<longleftrightarrow> (\<forall>s. fst (m s) \<noteq> Inl Undefined_behaviour)"

lemma never_undefined_return: "never_undefined (return_m a)"
  by (simp add: never_undefined_def return_apply)

lemma never_undefined_throw: "never_undefined (throw_m (Runtime_error m))"
  by (simp add: never_undefined_def throw_apply)

lemma never_undefined_bind:
  "never_undefined m \<Longrightarrow> (\<And>a. never_undefined (f a)) \<Longrightarrow> never_undefined (bind_m m f)"
  unfolding never_undefined_def bind_m_def by (auto split: prod.splits sum.splits) (metis fst_conv)

lemma never_undefined_then:
  "never_undefined m \<Longrightarrow> never_undefined n \<Longrightarrow> never_undefined (then_m m n)"
  by (simp add: then_m_def never_undefined_bind)

lemma never_undefined_if:
  "never_undefined m \<Longrightarrow> never_undefined n \<Longrightarrow> never_undefined (if b then m else n)"
  by simp

lemma never_undefined_assign: "never_undefined m \<Longrightarrow> never_undefined (assign store m)"
  unfolding never_undefined_def assign_def by (auto split: prod.splits sum.splits) (metis fst_conv)

lemma never_undefined_local: "never_undefined m \<Longrightarrow> never_undefined (local_read m)"
  unfolding never_undefined_def local_read_def by (auto split: prod.splits) (metis fst_conv)

lemma never_undefined_u8: "never_undefined read_u8"
  by (simp add: never_undefined_def read_u8_def out_of_bounds_def)

lemma never_undefined_u32: "never_undefined read_u32"
  by (simp add: never_undefined_def read_u32_def Let_def out_of_bounds_def)

lemma never_undefined_u64: "never_undefined read_u64"
  by (simp add: never_undefined_def read_u64_def Let_def out_of_bounds_def)

lemma never_undefined_block: "never_undefined (read_block n)"
  by (simp add: never_undefined_def read_block_def out_of_bounds_def)

lemma never_undefined_bytes: "never_undefined read_bytes"
  unfolding read_bytes_eq by (intro never_undefined_bind never_undefined_u32 never_undefined_block)

lemma never_undefined_strings_loop: "never_undefined (read_strings_loop n)"
  by (induction n)
    (simp_all add: never_undefined_return never_undefined_then never_undefined_assign read_str_def
      never_undefined_bytes)

lemma never_undefined_copy: "never_undefined (\<lambda>(buffer, r). (Inr (), f buffer, r))"
  by (simp add: never_undefined_def case_prod_unfold)

lemmas never_undefined_rules = never_undefined_return never_undefined_bind never_undefined_then
  never_undefined_if never_undefined_assign never_undefined_local never_undefined_u8
  never_undefined_u32 never_undefined_u64 never_undefined_bytes never_undefined_strings_loop
  never_undefined_copy never_undefined_throw

lemma never_undefined_call: "never_undefined m \<Longrightarrow> never_undefined (call_proxy m)"
  unfolding never_undefined_def call_proxy_def by (auto split: prod.splits) (metis fst_conv)

lemma never_undefined_on_reader: "never_undefined m \<Longrightarrow> never_undefined (on_reader m r)"
  unfolding never_undefined_def on_reader_def by (auto split: prod.splits) (metis fst_conv)

lemma never_undefined_of_reader: "never_undefined m \<Longrightarrow> never_undefined (of_reader m r)"
  by (simp add: never_undefined_def of_reader_def)

text \<open>A computation that always returns.\<close>

definition always_returns :: "('s, 'a) sm \<Rightarrow> bool" where
  "always_returns m \<longleftrightarrow> (\<forall>s. \<exists>a. fst (m s) = Inr a)"

lemma always_returns_status:
  "never_undefined m \<Longrightarrow> always_returns (try_catch m (return_m d))"
  unfolding always_returns_def never_undefined_def try_catch_def return_m_def
  by (auto split: prod.splits sum.splits) (metis fst_conv sum.exhaust)

lemma always_returns_value:
  "never_undefined m \<Longrightarrow> always_returns (with_out obj (try_catch m (fall_back f)))"
  unfolding always_returns_def never_undefined_def try_catch_def with_out_def fall_back_def
  by (auto split: prod.splits sum.splits) (metis fst_conv sum.exhaust)

lemmas response_reads = read_attr_def read_statistics_def read_strings_def read_str_def
  read_mode_def read_result_def read_i32_eq read_data_def

lemmas always_returns_rules = always_returns_status always_returns_value never_undefined_call
  never_undefined_on_reader never_undefined_of_reader never_undefined_rules

subsection \<open>Properties\<close>

text \<open>
  C16. Whatever the provider answers - nothing, a truncated, an overlong or an arbitrary message - no
  operation of the service's file system lets an exception escape: each returns a status.
\<close>

theorem filesystem_always_returns:
  assumes "\<And>req. never_undefined (perform req)"
  shows "always_returns (filesystem_access lws_pre perform path mode) \<and>
    always_returns (filesystem_getattr lws_pre perform path attr) \<and>
    always_returns (filesystem_readlink lws_pre perform path out) \<and>
    always_returns (filesystem_symlink lws_pre perform target linkpath) \<and>
    always_returns (filesystem_link lws_pre perform old_path new_path) \<and>
    always_returns (filesystem_rename lws_pre perform old_path new_path flags) \<and>
    always_returns (filesystem_chmod lws_pre perform path fmode) \<and>
    always_returns (filesystem_chown lws_pre perform path uid gid) \<and>
    always_returns (filesystem_truncate lws_pre perform path len handle) \<and>
    always_returns (filesystem_fsync lws_pre perform path is_datasync handle) \<and>
    always_returns (filesystem_utimens lws_pre perform path tv handle) \<and>
    always_returns (filesystem_open lws_pre perform path flags handle) \<and>
    always_returns (filesystem_mknod lws_pre perform path fmode rdev) \<and>
    always_returns (filesystem_create lws_pre perform path fmode handle) \<and>
    always_returns (filesystem_release lws_pre perform path handle) \<and>
    always_returns (filesystem_unlink lws_pre perform path) \<and>
    always_returns (filesystem_read lws_pre perform path buffer n offset handle) \<and>
    always_returns (filesystem_write lws_pre perform path buffer n offset handle) \<and>
    always_returns (filesystem_mkdir lws_pre perform path fmode) \<and>
    always_returns (filesystem_readdir lws_pre perform path entries) \<and>
    always_returns (filesystem_rmdir lws_pre perform path) \<and>
    always_returns (filesystem_statfs lws_pre perform path statistics)"
  unfolding filesystem_access_def filesystem_getattr_def filesystem_readlink_def
    filesystem_symlink_def filesystem_link_def filesystem_rename_def filesystem_chmod_def
    filesystem_chown_def filesystem_truncate_def filesystem_fsync_def filesystem_utimens_def
    filesystem_open_def filesystem_mknod_def filesystem_create_def filesystem_release_def
    filesystem_unlink_def filesystem_read_def filesystem_write_def filesystem_mkdir_def
    filesystem_readdir_def filesystem_rmdir_def filesystem_statfs_def Let_def response_reads
  by (intro conjI; (rule always_returns_rules assms)+)

theorem filesystem_always_returns_witness:
  "(\<forall>req. never_undefined ((\<lambda>_. throw_m (Runtime_error ''timeout'')) req :: (unit, messagereader) sm)) \<and>
   always_returns (filesystem_getattr 16
     (\<lambda>_. throw_m (Runtime_error ''timeout'') :: (unit, messagereader) sm) ''/'' stat_zero)"
  using filesystem_always_returns [of "\<lambda>_. throw_m (Runtime_error ''timeout'') :: (unit, messagereader) sm"]
  by (simp add: never_undefined_throw)

text \<open>
  C1. The operations that return only a status, end to end: a call of the service's file system is the
  same call of the provider's file system, with the arguments as they arrive over the wire - modes,
  flags and times normalised, 64-bit values reduced to their lower half - or, when that throws, the
  status of the empty file system.
\<close>

theorem remote_status_operations:
  "filesystem_access lws_pre (loopback lws_pre un fs i) path mode =
     try_catch (fsi_access fs (recv_str path) (mode AND 7)) (return_m (empty_access path mode)) \<and>
   filesystem_symlink lws_pre (loopback lws_pre un fs i) target linkpath =
     try_catch (fsi_symlink fs (recv_str target) (recv_str linkpath))
       (return_m (empty_symlink target linkpath)) \<and>
   filesystem_link lws_pre (loopback lws_pre un fs i) old_path new_path =
     try_catch (fsi_link fs (recv_str old_path) (recv_str new_path))
       (return_m (empty_link old_path new_path)) \<and>
   filesystem_rename lws_pre (loopback lws_pre un fs i) old_path new_path flags =
     try_catch (fsi_rename fs (recv_str old_path) (recv_str new_path) (flags AND 3))
       (return_m (empty_rename old_path new_path flags)) \<and>
   filesystem_chmod lws_pre (loopback lws_pre un fs i) path fmode =
     try_catch (fsi_chmod fs (recv_str path) (filemode_from_mode fmode))
       (return_m (empty_chmod path fmode)) \<and>
   filesystem_chown lws_pre (loopback lws_pre un fs i) path uid gid =
     try_catch (fsi_chown fs (recv_str path) uid gid) (return_m (empty_chown path uid gid)) \<and>
   filesystem_truncate lws_pre (loopback lws_pre un fs i) path len handle =
     try_catch (fsi_truncate fs (recv_str path) (low32 len) (low32 handle))
       (return_m (empty_truncate path len handle)) \<and>
   filesystem_fsync lws_pre (loopback lws_pre un fs i) path is_datasync handle =
     try_catch (fsi_fsync fs (recv_str path) is_datasync (low32 handle))
       (return_m (empty_fsync path is_datasync handle)) \<and>
   filesystem_utimens lws_pre (loopback lws_pre un fs i) path tv handle =
     try_catch (fsi_utimens fs (recv_str path) (recv_time (fst tv), recv_time (snd tv)) (low32 handle))
       (return_m (empty_utimens path tv handle)) \<and>
   filesystem_release lws_pre (loopback lws_pre un fs i) path handle =
     try_catch (fsi_release fs (recv_str path) (low32 handle)) (return_m (empty_release path handle)) \<and>
   filesystem_unlink lws_pre (loopback lws_pre un fs i) path =
     try_catch (fsi_unlink fs (recv_str path)) (return_m (empty_unlink path)) \<and>
   filesystem_mkdir lws_pre (loopback lws_pre un fs i) path fmode =
     try_catch (fsi_mkdir fs (recv_str path) (filemode_from_mode fmode))
       (return_m (empty_mkdir path fmode)) \<and>
   filesystem_rmdir lws_pre (loopback lws_pre un fs i) path =
     try_catch (fsi_rmdir fs (recv_str path)) (return_m (empty_rmdir path))"
  by (intro conjI loop_fs.remote_access loop_fs.remote_symlink loop_fs.remote_link
      loop_fs.remote_rename loop_fs.remote_chmod loop_fs.remote_chown loop_fs.remote_truncate
      loop_fs.remote_fsync loop_fs.remote_utimens loop_fs.remote_release loop_fs.remote_unlink
      loop_fs.remote_mkdir loop_fs.remote_rmdir)

text \<open>
  C13. \<^verbatim>\<open>getattr\<close> end to end: on status 0 the caller's object receives the attributes of the remote file,
  with inode, size, block count and times reduced to 32 bits; otherwise it is left alone.
\<close>

theorem remote_getattr_end_to_end:
  "filesystem_getattr lws_pre (loopback lws_pre un fs i) path attr =
    try_catch (bind_m (fsi_getattr fs (recv_str path) (un_stat un))
        (\<lambda>(result, value). return_m (result, if result = 0 then recv_attr value attr else attr)))
      (return_m (empty_getattr path attr))"
  by (rule loop_fs.remote_getattr)

text \<open>
  C14. \<^verbatim>\<open>open\<close>, \<^verbatim>\<open>create\<close>, \<^verbatim>\<open>readlink\<close> and \<^verbatim>\<open>statfs\<close> end to end: on status 0 the value of the provider's file
  system arrives (handles and statistics reduced to 32 bits), otherwise the caller's object is left
  alone.
\<close>

theorem remote_value_operations:
  "filesystem_open lws_pre (loopback lws_pre un fs i) path flags handle =
     try_catch (bind_m (fsi_open fs (recv_str path) (openflags_to_int (openflags_from_int flags)) invalid_handle)
         (\<lambda>(result, value). return_m (result, if result = 0 then low32 value else handle)))
       (return_m (empty_open path flags handle)) \<and>
   filesystem_create lws_pre (loopback lws_pre un fs i) path mode handle =
     try_catch (bind_m (fsi_create fs (recv_str path) (filemode_from_mode mode) invalid_handle)
         (\<lambda>(result, value). return_m (result, if result = 0 then low32 value else handle)))
       (return_m (empty_create path mode handle)) \<and>
   filesystem_readlink lws_pre (loopback lws_pre un fs i) path out =
     try_catch (bind_m (fsi_readlink fs (recv_str path) [])
         (\<lambda>(result, value). return_m (result, if result = 0 then recv_str value else out)))
       (return_m (empty_readlink path out)) \<and>
   filesystem_statfs lws_pre (loopback lws_pre un fs i) path statistics =
     try_catch (bind_m (fsi_statfs fs (recv_str path) statvfs_zero)
         (\<lambda>(result, value). return_m (result, if result = 0 then recv_statistics value statistics else statistics)))
       (return_m (empty_statfs path statistics))"
  by (intro conjI loop_fs.remote_open loop_fs.remote_create loop_fs.remote_readlink
      loop_fs.remote_statfs)

text \<open>
  C15. \<^verbatim>\<open>readdir\<close> end to end: the entries of the remote directory are appended to the caller's list, in
  order.
\<close>

theorem remote_readdir_end_to_end:
  "filesystem_readdir lws_pre (loopback lws_pre un fs i) path entries =
    try_catch (bind_m (fsi_readdir fs (recv_str path) [])
        (\<lambda>(result, value). return_m (result, if result = 0 then entries @ recv_strings value else entries)))
      (return_m (empty_readdir path entries))"
  by (rule loop_fs.remote_readdir)

text \<open>
  C11. \<^verbatim>\<open>read\<close> end to end: the provider's file system reads into a zeroed buffer of the requested size; a
  positive status is the number of bytes that are copied to the front of the caller's buffer, and a
  response longer than that buffer is refused. Only a file system that reports more bytes than its
  buffer holds makes the provider read behind the end of the buffer.
\<close>

theorem remote_read_end_to_end:
  "filesystem_read lws_pre (loopback lws_pre un fs i) path buffer n offset handle =
    try_catch
      (bind_m (fsi_read fs (recv_str path) (replicate (n mod 2 ^ 32) (CHR 0x00)) (n mod 2 ^ 32)
          (low32 offset) (low32 handle))
        (fetched n buffer))
      (return_m (empty_read path buffer n offset handle))"
  by (rule loop_fs.remote_read)

text \<open>
  C12. \<^verbatim>\<open>write\<close> end to end: for a buffer of at least the announced size, the provider's file system is asked
  to write exactly these bytes.
\<close>

theorem remote_write_end_to_end:
  assumes "n \<le> length buffer"
  shows "filesystem_write lws_pre (loopback lws_pre un fs i) path buffer n offset handle =
    try_catch (fsi_write fs (recv_str path) (take (n mod 2 ^ 32) buffer) (n mod 2 ^ 32)
        (low32 offset) (low32 handle))
      (return_m (empty_write path buffer n offset handle))"
  using assms by (rule loop_fs.remote_write)

theorem remote_write_end_to_end_witness:
  "3 \<le> length ''abcd'' \<and>
   filesystem_write 16 (loopback 16 uninit_zero (empty_filesystem :: unit filesystem_i) 1)
     ''/f'' ''abcd'' 3 0 5 () = (Inr (- EBADF), ())"
  using remote_write_end_to_end [of 3 "''abcd''" 16 uninit_zero
      "empty_filesystem :: unit filesystem_i" 1 "''/f''" 0 5]
  by (simp add: empty_filesystem_def empty_defs try_catch_def return_apply)

text \<open>
  The device number of \<^verbatim>\<open>mknod\<close> is lost: the service sends 64 bits, the provider reads 32 of them, the
  upper half. Every device number below \<open>2 ^ 32\<close> arrives as 0.
\<close>

theorem remote_mknod_loses_device:
  assumes "rdev < 2 ^ 32"
  shows "filesystem_mknod lws_pre (loopback lws_pre un fs i) path mode rdev =
    try_catch (fsi_mknod fs (recv_str path) (filemode_from_mode mode) 0)
      (return_m (empty_mknod path mode rdev))"
proof -
  have "drop_bit 32 rdev = 0"
    using assms by (simp add: word_less_nat_alt word_unat_eq_iff drop_bit_eq_div unat_div)
  then show ?thesis by (simp add: loop_fs.remote_mknod)
qed

theorem remote_mknod_loses_device_witness:
  "(0x103 :: u64) < 2 ^ 32 \<and>
   filesystem_mknod 16 (loopback 16 uninit_zero (empty_filesystem :: unit filesystem_i) 1)
     ''/null'' 0x21b6 0x103 =
   try_catch (fsi_mknod empty_filesystem (recv_str ''/null'') (filemode_from_mode 0x21b6) 0)
     (return_m (empty_mknod ''/null'' 0x21b6 0x103))"
  using remote_mknod_loses_device [of "0x103" 16 uninit_zero
      "empty_filesystem :: unit filesystem_i" 1 "''/null''" "0x21b6"] by simp

text \<open>
  \<^verbatim>\<open>invalid_handle\<close>, which the service passes when a file is not open, does not arrive: the provider
  sees \<open>0xffffffff\<close>, which is not \<^verbatim>\<open>invalid_handle\<close>.
\<close>

theorem invalid_handle_lost:
  "filesystem_truncate lws_pre (loopback lws_pre un fs i) path len invalid_handle =
     try_catch (fsi_truncate fs (recv_str path) (low32 len) 0xffffffff)
       (return_m (empty_truncate path len invalid_handle)) \<and>
   0xffffffff \<noteq> invalid_handle"
proof -
  have "low32 invalid_handle = 0xffffffff" "0xffffffff \<noteq> invalid_handle"
    by (simp_all add: low32_def invalid_handle_def mask_eq_exp_minus_1)
  then show ?thesis by (simp add: loop_fs.remote_truncate)
qed

end
