(* ===== verification/Websocket.thy ===== *)
theory Websocket
  imports Prelude
begin

text \<open>
  What both ends of the connection use of libwebsockets: connections (\<^verbatim>\<open>struct lws *\<close>, here numbers;
  \<open>None\<close> is the null pointer) and the calls into the library that the code makes, recorded in order.
\<close>

type_synonym wsi = nat

datatype lws_call =
    Lws_callback_on_writable "wsi option"
  | Lws_write "wsi option" "u8 list"
  | Lws_cancel_service

text \<open>The bytes written by a sequence of calls.\<close>

definition written :: "lws_call list \<Rightarrow> u8 list list" where
  "written cs = List.map_filter (\<lambda>c. case c of
      Lws_write _ data \<Rightarrow> Some data | Lws_callback_on_writable _ \<Rightarrow> None | Lws_cancel_service \<Rightarrow> None) cs"

lemma written_append [simp]: "written (cs @ ds) = written cs @ written ds"
  by (simp add: written_def map_filter_def)

lemma written_simps [simp]:
  "written [] = []" "written (Lws_write c d # cs) = d # written cs"
  "written (Lws_callback_on_writable c # cs) = written cs"
  "written (Lws_cancel_service # cs) = written cs"
  by (simp_all add: written_def map_filter_simps)

subsection \<open>Queues that the writable callback empties\<close>

text \<open>
  Both ends keep messages in a queue and write one per callback: \<open>writable\<close> takes the first message from the
  queue and sends it, and does nothing when there is none.
\<close>

locale write_queue =
  fixes queue :: "'s \<Rightarrow> 'm list" and sent :: "'s \<Rightarrow> 'b list" and writable :: "'s \<Rightarrow> 's" and encode :: "'m \<Rightarrow> 'b"
    and ready :: "'s \<Rightarrow> bool"
  assumes writable_Nil: "ready s \<Longrightarrow> queue s = [] \<Longrightarrow> writable s = s"
    and writable_Cons: "ready s \<Longrightarrow> queue s = m # ms \<Longrightarrow>
      queue (writable s) = ms \<and> sent (writable s) = sent s @ [encode m] \<and> ready (writable s)"
begin

lemma sent_prefix:
  "ready s \<Longrightarrow> queue ((writable ^^ n) s) = drop n (queue s) \<and>
    sent ((writable ^^ n) s) = sent s @ map encode (take n (queue s)) \<and> ready ((writable ^^ n) s)"
proof (induction n arbitrary: s)
  case (Suc n)
  show ?case
  proof (cases "queue s")
    case Nil
    with Suc.prems have "writable s = s" by (rule writable_Nil)
    with Suc.IH [OF Suc.prems] Nil show ?thesis by (simp add: funpow_swap1)
  next
    case (Cons m ms)
    with writable_Cons [OF Suc.prems] Suc.IH [of "writable s"] show ?thesis by (simp add: funpow_swap1)
  qed
qed simp

lemma drained:
  "ready s \<Longrightarrow> length (queue s) \<le> n \<Longrightarrow>
    queue ((writable ^^ n) s) = [] \<and> sent ((writable ^^ n) s) = sent s @ map encode (queue s)"
  by (simp add: sent_prefix)

end

end
