(* ===== verification/Server_Handler.thy ===== *)
theory Server_Handler
  imports Message_Codec Websocket
begin

text \<open>
  Class \<^verbatim>\<open>server_handler\<close> (\<^verbatim>\<open>ws/server_handler.cpp\<close>), the callback \<^verbatim>\<open>ws_server_callback\<close> and
  \<^verbatim>\<open>ws_server::perform\<close> (\<^verbatim>\<open>ws/server.cpp\<close>): the service's end of the connection. The service thread runs
  \<^verbatim>\<open>poll\<close> and the callbacks of libwebsockets; the threads of FUSE call \<^verbatim>\<open>perform\<close> and wait for a future.

  A promise is an index into the list of shared states \<open>sv_futures\<close>; \<^verbatim>\<open>std::promise::set_value\<close> on a
  satisfied state throws, and destroying a promise whose state is still empty breaks it. Calls into
  libwebsockets are recorded in \<open>sv_calls\<close>. What libwebsockets and the authenticator program answer
  is the argument \<open>server_env\<close>.

  The mutex makes its critical sections atomic; \<^verbatim>\<open>perform\<close> tests the atomic \<^verbatim>\<open>is_authenticated\<close> before it
  takes the lock, so it is two steps of the transition system \<open>server_step\<close>. \<^verbatim>\<open>on_established\<close> resets
  \<^verbatim>\<open>id\<close> without the lock, so it is two steps as well, and the reset may race with \<^verbatim>\<open>next_id\<close> in the critical
  section of \<^verbatim>\<open>perform\<close>.
\<close>

subsection \<open>State\<close>

datatype lws_token = WSI_TOKEN_HTTP_AUTHORIZATION | WSI_TOKEN_X_AUTH_TOKEN

text \<open>
  What the code asks of libwebsockets and of the authenticator. The two copy functions return the
  number of characters copied and the contents of the buffer of the given size.
\<close>

record server_env =
  lws_hdr_total_length :: "wsi \<Rightarrow> lws_token \<Rightarrow> int"
  lws_hdr_copy :: "wsi \<Rightarrow> nat \<Rightarrow> lws_token \<Rightarrow> int \<times> string"
  lws_hdr_custom_length :: "wsi \<Rightarrow> string \<Rightarrow> int"
  lws_hdr_custom_copy :: "wsi \<Rightarrow> nat \<Rightarrow> string \<Rightarrow> int \<times> string"
  auth_authenticate :: "string \<Rightarrow> string \<Rightarrow> bool"

datatype future =
    Future_waiting
  | Future_value messagereader
  | Future_exception exn

type_synonym promise = nat

record server_handler =
  sh_connection :: "wsi option"
  sh_id :: u32
  sh_shutdown_requested :: bool
  sh_is_authenticated :: bool
  sh_authenticator :: string
  sh_auth_header :: string
  sh_current_message :: "u8 list"
  sh_requests :: "messagewriter list"
  sh_pending_responses :: "u32 \<rightharpoonup> promise"

text \<open>
  The handler with the shared states of its futures and the calls it made. \<open>sv_establishing\<close> is the program
  counter of the service thread inside \<^verbatim>\<open>on_established\<close>: the client whose connection is set up to the reset
  of the id, but not asked for credentials yet.
\<close>

record server = server_handler +
  sv_futures :: "future list"
  sv_calls :: "lws_call list"
  sv_establishing :: "wsi option"

definition server_new :: "string \<Rightarrow> string \<Rightarrow> server" where
  "server_new auth_app auth_hdr =
    \<lparr>sh_connection = None, sh_id = 0, sh_shutdown_requested = False, sh_is_authenticated = False,
     sh_authenticator = auth_app, sh_auth_header = auth_hdr, sh_current_message = [],
     sh_requests = [], sh_pending_responses = Map.empty, sv_futures = [], sv_calls = [],
     sv_establishing = None\<rparr>"

definition lws :: "lws_call \<Rightarrow> server \<Rightarrow> server" where
  "lws c s = s\<lparr>sv_calls := sv_calls s @ [c]\<rparr>"

subsection \<open>Promises\<close>

definition promise_new :: "server \<Rightarrow> promise \<times> server" where
  "promise_new s = (length (sv_futures s), s\<lparr>sv_futures := sv_futures s @ [Future_waiting]\<rparr>)"

definition promise_set :: "future \<Rightarrow> promise \<Rightarrow> (server, unit) sm" where
  "promise_set f p = (\<lambda>s.
    if sv_futures s ! p = Future_waiting
    then (Inr (), s\<lparr>sv_futures := (sv_futures s)[p := f]\<rparr>)
    else (Inl (Future_error ''promise already satisfied''), s))"

definition break_future :: "future \<Rightarrow> future" where
  "break_future f = (case f of
      Future_waiting \<Rightarrow> Future_exception (Future_error ''broken promise'')
    | Future_value r \<Rightarrow> Future_value r
    | Future_exception e \<Rightarrow> Future_exception e)"

text \<open>The destructor of a promise.\<close>

definition promise_destroy :: "promise \<Rightarrow> server \<Rightarrow> server" where
  "promise_destroy p s = s\<lparr>sv_futures := (sv_futures s)[p := break_future (sv_futures s ! p)]\<rparr>"

text \<open>\<^verbatim>\<open>pending_responses.clear()\<close> destroys every promise in the map.\<close>

definition pending_clear :: "server \<Rightarrow> server" where
  "pending_clear s = s
    \<lparr>sv_futures := map (\<lambda>p. if p \<in> ran (sh_pending_responses s) then break_future (sv_futures s ! p)
         else sv_futures s ! p) [0..<length (sv_futures s)],
     sh_pending_responses := Map.empty\<rparr>"

text \<open>\<^verbatim>\<open>pending_responses.emplace(id, std::move(p))\<close>: an existing entry stays, and the new promise is lost.\<close>

definition pending_emplace :: "u32 \<Rightarrow> promise \<Rightarrow> server \<Rightarrow> server" where
  "pending_emplace i p s =
    (case sh_pending_responses s i of
      None \<Rightarrow> s\<lparr>sh_pending_responses := (sh_pending_responses s)(i \<mapsto> p)\<rparr>
    | Some _ \<Rightarrow> promise_destroy p s)"

subsection \<open>Authentication by HTTP header\<close>

definition get_auth_token_of_known_header :: "server_env \<Rightarrow> wsi \<Rightarrow> lws_token \<Rightarrow> string" where
  "get_auth_token_of_known_header env w hdr =
    (let len = lws_hdr_total_length env w hdr in
     if 0 < len
     then (case lws_hdr_copy env w (nat (len + 1)) hdr of (actual_length, data) \<Rightarrow>
             if 0 < actual_length then c_str data else '''')
     else '''')"

definition get_auth_token_from_custom_header :: "server_env \<Rightarrow> wsi \<Rightarrow> string \<Rightarrow> string" where
  "get_auth_token_from_custom_header env w auth_header =
    (let len = lws_hdr_custom_length env w auth_header in
     if 0 < len
     then (case lws_hdr_custom_copy env w (nat (len + 1)) auth_header of (actual_length, data) \<Rightarrow>
             if 0 < actual_length then c_str data else '''')
     else '''')"

definition get_auth_token :: "server_env \<Rightarrow> wsi \<Rightarrow> server \<Rightarrow> string" where
  "get_auth_token env w s =
    (if sh_auth_header s = ''authorization''
     then get_auth_token_of_known_header env w WSI_TOKEN_HTTP_AUTHORIZATION
     else if sh_auth_header s = ''x-auth-token''
     then get_auth_token_of_known_header env w WSI_TOKEN_X_AUTH_TOKEN
     else get_auth_token_from_custom_header env w (sh_auth_header s))"

definition authenticate_via_header :: "server_env \<Rightarrow> wsi \<Rightarrow> server \<Rightarrow> int \<times> server" where
  "authenticate_via_header env w s =
    (if sh_authenticator s = '''' then (0, s\<lparr>sh_is_authenticated := True\<rparr>)
     else if sh_auth_header s = '''' then (0, s\<lparr>sh_is_authenticated := False\<rparr>)
     else
       (let token = get_auth_token env w s in
        if token = '''' then (0, s\<lparr>sh_is_authenticated := False\<rparr>)
        else
          (let result = if auth_authenticate env (sh_authenticator s) token then 0 else - 1
           in (result, s\<lparr>sh_is_authenticated := (result = 0)\<rparr>))))"

definition filter_connection :: "server_env \<Rightarrow> wsi \<Rightarrow> server \<Rightarrow> int \<times> server" where
  "filter_connection env w s = authenticate_via_header env w s"

subsection \<open>The callbacks\<close>

definition next_id :: "server \<Rightarrow> u32 \<times> server" where
  "next_id s =
    (let s = s\<lparr>sh_id := sh_id s + 1\<rparr>;
         s = if 0 = sh_id s then s\<lparr>sh_id := 1\<rparr> else s
     in (sh_id s, s))"

text \<open>The part of \<^verbatim>\<open>on_established\<close> that needs no lock, and the part that asks for credentials.\<close>

definition established_reset :: "wsi \<Rightarrow> server \<Rightarrow> server" where
  "established_reset w s = s\<lparr>sh_connection := Some w, sh_id := 0\<rparr>"

definition established_ask :: "nat \<Rightarrow> wsi \<Rightarrow> server \<Rightarrow> server" where
  "established_ask lws_pre w s =
    (if \<not> sh_is_authenticated s \<and> sh_authenticator s \<noteq> ''''
     then
       (let writer = messagewriter_request lws_pre request_getcreds;
            (i, s) = next_id s;
            writer = set_id lws_pre i writer;
            s = s\<lparr>sh_requests := sh_requests s @ [writer]\<rparr>
        in lws (Lws_callback_on_writable (Some w)) s)
     else s)"

definition on_established :: "nat \<Rightarrow> wsi \<Rightarrow> server \<Rightarrow> int \<times> server" where
  "on_established lws_pre w s =
    (if sh_connection s = None then (0, established_ask lws_pre w (established_reset w s))
     else (- 1, s))"

lemma on_established_eq:
  "on_established lws_pre w s =
    (if sh_connection s = None
     then
       (let s = s\<lparr>sh_connection := Some w, sh_id := 0\<rparr> in
        if \<not> sh_is_authenticated s \<and> sh_authenticator s \<noteq> ''''
        then
          (let (i, s) = next_id s
           in (0, lws (Lws_callback_on_writable (Some w)) (s\<lparr>sh_requests := sh_requests s @
                [set_id lws_pre i (messagewriter_request lws_pre request_getcreds)]\<rparr>)))
        else (0, s))
     else (- 1, s))"
  by (simp add: on_established_def established_reset_def established_ask_def case_prod_unfold Let_def)

text \<open>
  \<^verbatim>\<open>finish_authentication\<close> runs on its own copy of the reader; what it throws, \<^verbatim>\<open>on_receive\<close> catches.
\<close>

definition finish_authentication :: "server_env \<Rightarrow> wsi \<Rightarrow> messagereader \<Rightarrow> (server, unit) sm" where
  "finish_authentication env w reader = (\<lambda>s.
    case read_str reader of
      (Inl e, _) \<Rightarrow> (Inl e, s)
    | (Inr credentials, _) \<Rightarrow>
        if auth_authenticate env (sh_authenticator s) credentials
        then (Inr (), s\<lparr>sh_is_authenticated := True\<rparr>)
        else (Inr (), lws (Lws_callback_on_writable (Some w)) (s\<lparr>sh_shutdown_requested := True\<rparr>)))"

text \<open>The lookup of the waiting request and the delivery of the response.\<close>

definition deliver_response :: "u32 \<Rightarrow> messagereader \<Rightarrow> (server, unit) sm" where
  "deliver_response i reader = (\<lambda>s.
    case sh_pending_responses s i of
      None \<Rightarrow> (Inr (), s)
    | Some p \<Rightarrow>
        (case promise_set (Future_value reader) p s of
          (Inl e, s') \<Rightarrow> (Inl e, s')
        | (Inr _, s') \<Rightarrow> (Inr (), s'\<lparr>sh_pending_responses := (sh_pending_responses s')(i := None)\<rparr>)))"

text \<open>The body of the \<^verbatim>\<open>try\<close> block on the received message.\<close>

definition process_message :: "server_env \<Rightarrow> wsi \<Rightarrow> u8 list \<Rightarrow> (server, unit) sm" where
  "process_message env w message = (\<lambda>s.
    case read_u32 (messagereader_new message) of
      (Inl e, _) \<Rightarrow> (Inl e, s)
    | (Inr i, reader) \<Rightarrow>
        (case read_u8 reader of
          (Inl e, _) \<Rightarrow> (Inl e, s)
        | (Inr message_type, reader) \<Rightarrow>
            if message_type = response_code response_getcreds
            then finish_authentication env w reader s
            else deliver_response i reader s))"

definition on_receive :: "server_env \<Rightarrow> wsi \<Rightarrow> u8 list \<Rightarrow> bool \<Rightarrow> server \<Rightarrow> server" where
  "on_receive env w fragment is_final s =
    (let s = s\<lparr>sh_current_message := sh_current_message s @ fragment\<rparr> in
     if is_final
     then (let message = sh_current_message s;
               s = s\<lparr>sh_current_message := []\<rparr>
           in snd (process_message env w message s))
     else s)"

definition on_writable :: "nat \<Rightarrow> server \<Rightarrow> int \<times> server" where
  "on_writable lws_pre s =
    (if sh_shutdown_requested s then (- 1, s)
     else
       (case sh_requests s of
          [] \<Rightarrow> (0, s)
        | writer # rest \<Rightarrow>
            (let s = s\<lparr>sh_requests := rest\<rparr>;
                 has_more = (rest \<noteq> []);
                 s = lws (Lws_write (sh_connection s) (get_data lws_pre writer)) s;
                 s = (if has_more then lws (Lws_callback_on_writable (sh_connection s)) s else s)
             in (0, s))))"

definition on_closed :: "wsi \<Rightarrow> server \<Rightarrow> server" where
  "on_closed w s =
    (if Some w = sh_connection s
     then s\<lparr>sh_connection := None, sh_is_authenticated := False, sh_shutdown_requested := False\<rparr>
     else s)"

definition poll :: "server \<Rightarrow> server" where
  "poll s =
    (if sh_requests s \<noteq> []
     then (case sh_connection s of
        Some w \<Rightarrow> lws (Lws_callback_on_writable (Some w)) s
      | None \<Rightarrow> pending_clear (s\<lparr>sh_requests := []\<rparr>))
     else s)"

subsection \<open>Requests\<close>

text \<open>The critical section of \<^verbatim>\<open>perform\<close>.\<close>

definition perform_enqueue :: "nat \<Rightarrow> messagewriter \<Rightarrow> promise \<Rightarrow> server \<Rightarrow> server" where
  "perform_enqueue lws_pre writer p s =
    (let (i, s) = next_id s;
         writer = set_id lws_pre i writer;
         s = s\<lparr>sh_requests := sh_requests s @ [writer]\<rparr>
     in pending_emplace i p s)"

definition handler_perform :: "nat \<Rightarrow> messagewriter \<Rightarrow> server \<Rightarrow> promise \<times> server" where
  "handler_perform lws_pre writer s =
    (let (p, s) = promise_new s in
     if sh_is_authenticated s then (p, perform_enqueue lws_pre writer p s)
     else (p, snd (promise_set (Future_exception (Runtime_error ''unauthenticated'')) p s)))"

subsection \<open>The callback and ws\_server::perform\<close>

datatype server_event =
    Ev_filter_protocol_connection wsi
  | Ev_established wsi
  | Ev_closed wsi
  | Ev_receive wsi "u8 list" bool
  | Ev_server_writeable wsi
  | Ev_other

definition ws_server_callback :: "nat \<Rightarrow> server_env \<Rightarrow> server_event \<Rightarrow> server \<Rightarrow> int \<times> server" where
  "ws_server_callback lws_pre env reason s = (case reason of
      Ev_filter_protocol_connection w \<Rightarrow> filter_connection env w s
    | Ev_established w \<Rightarrow> on_established lws_pre w s
    | Ev_closed w \<Rightarrow> (0, on_closed w s)
    | Ev_receive w fragment is_final \<Rightarrow> (0, on_receive env w fragment is_final s)
    | Ev_server_writeable w \<Rightarrow> on_writable lws_pre s
    | Ev_other \<Rightarrow> (0, s))"

text \<open>What \<^verbatim>\<open>future::get\<close> returns once the wait is over.\<close>

definition await_future :: "promise \<Rightarrow> (server, messagereader) sm" where
  "await_future p = (\<lambda>s. (case sv_futures s ! p of
      Future_waiting \<Rightarrow> Inl (Runtime_error ''timeout'')
    | Future_value reader \<Rightarrow> Inr reader
    | Future_exception e \<Rightarrow> Inl e, s))"

text \<open>\<open>meanwhile\<close> is what the other threads do to the server during the wait.\<close>

definition ws_server_perform ::
    "nat \<Rightarrow> (server \<Rightarrow> server) \<Rightarrow> messagewriter \<Rightarrow> (server, messagereader) sm" where
  "ws_server_perform lws_pre meanwhile writer = (\<lambda>s.
    let (p, s) = handler_perform lws_pre writer s;
        s = lws Lws_cancel_service s;
        s = meanwhile s
    in await_future p s)"

subsection \<open>The transition system\<close>

text \<open>
  \<open>envs\<close> are the answers the outside world may give; every callback gets one of them. The second
  component of the state holds the calls of \<^verbatim>\<open>perform\<close> that found the connection authenticated and did not
  take the lock yet.
\<close>

type_synonym server_state = "server \<times> (promise \<times> messagewriter) list"

text \<open>
  The steps of the service thread in a callback. \<^verbatim>\<open>on_established\<close> may be interrupted after the reset; no other
  callback starts before it has finished.
\<close>

inductive service_step :: "nat \<Rightarrow> server_env set \<Rightarrow> server_state \<Rightarrow> server_state \<Rightarrow> bool"
  for lws_pre envs where
  callback: "sv_establishing s = None \<Longrightarrow> env \<in> envs \<Longrightarrow>
    service_step lws_pre envs (s, ps) (snd (ws_server_callback lws_pre env reason s), ps)"
| established_interrupted: "sv_establishing s = None \<Longrightarrow> sh_connection s = None \<Longrightarrow>
    service_step lws_pre envs (s, ps) ((established_reset w s)\<lparr>sv_establishing := Some w\<rparr>, ps)"
| established_resumed: "sv_establishing s = Some w \<Longrightarrow>
    service_step lws_pre envs (s, ps) ((established_ask lws_pre w s)\<lparr>sv_establishing := None\<rparr>, ps)"

text \<open>The steps of the threads of FUSE; \<open>n\<close> calls of \<^verbatim>\<open>perform\<close> leave the handler in the step.\<close>

inductive perform_step :: "nat \<Rightarrow> nat \<Rightarrow> server_state \<Rightarrow> server_state \<Rightarrow> bool"
  for lws_pre where
  perform_refused: "\<not> sh_is_authenticated s \<Longrightarrow>
    perform_step lws_pre 1 (s, ps) (snd (handler_perform lws_pre writer s), ps)"
| perform_checked: "sh_is_authenticated s \<Longrightarrow> promise_new s = (p, s') \<Longrightarrow>
    perform_step lws_pre 0 (s, ps) (s', (p, writer) # ps)"
| perform_locked: "(p, writer) \<in> set ps \<Longrightarrow>
    perform_step lws_pre 1 (s, ps) (perform_enqueue lws_pre writer p s, remove1 (p, writer) ps)"

text \<open>
  The data race of \<^verbatim>\<open>id = 0\<close> in \<^verbatim>\<open>on_established\<close> with \<^verbatim>\<open>next_id\<close> under the lock, as the interleaving of their loads
  and stores: the value \<^verbatim>\<open>next_id\<close> returns and the one that is left in \<^verbatim>\<open>id\<close>. \<open>Reset_in_increment\<close> is the
  reset between the load and the store of \<^verbatim>\<open>id++\<close>, which overwrites it.
\<close>

datatype reset_point =
    Reset_before_increment
  | Reset_in_increment
  | Reset_before_test
  | Reset_after_test
  | Reset_before_return
  | Reset_after_return

definition next_id_raced :: "reset_point \<Rightarrow> u32 \<Rightarrow> u32 \<times> u32" where
  "next_id_raced r i =
    (let i = if r = Reset_before_increment then 0 else i;
         i = i + 1;
         i = if r = Reset_before_test then 0 else i;
         is_zero = (0 = i);
         i = if r = Reset_after_test then 0 else i;
         i = if is_zero then 1 else i;
         i = if r = Reset_before_return then 0 else i;
         result = i;
         i = if r = Reset_after_return then 0 else i
     in (result, i))"

definition enqueue_raced :: "nat \<Rightarrow> reset_point \<Rightarrow> wsi \<Rightarrow> messagewriter \<Rightarrow> promise \<Rightarrow> server \<Rightarrow> server" where
  "enqueue_raced lws_pre r w writer p s =
    (let (i, left) = next_id_raced r (sh_id s);
         writer = set_id lws_pre i writer;
         s = s\<lparr>sh_connection := Some w, sh_id := left, sv_establishing := Some w,
               sh_requests := sh_requests s @ [writer]\<rparr>
     in pending_emplace i p s)"

inductive race_step :: "nat \<Rightarrow> server_state \<Rightarrow> server_state \<Rightarrow> bool"
  for lws_pre where
  raced: "sv_establishing s = None \<Longrightarrow> sh_connection s = None \<Longrightarrow> (p, writer) \<in> set ps \<Longrightarrow>
    race_step lws_pre (s, ps) (enqueue_raced lws_pre r w writer p s, remove1 (p, writer) ps)"

inductive server_step :: "nat \<Rightarrow> server_env set \<Rightarrow> server_state \<Rightarrow> server_state \<Rightarrow> bool"
  for lws_pre envs where
  service: "service_step lws_pre envs st st' \<Longrightarrow> server_step lws_pre envs st st'"
| poll: "sv_establishing s = None \<Longrightarrow> server_step lws_pre envs (s, ps) (poll s, ps)"
| perform: "perform_step lws_pre n st st' \<Longrightarrow> server_step lws_pre envs st st'"
| race: "race_step lws_pre st st' \<Longrightarrow> server_step lws_pre envs st st'"

inductive server_reachable :: "nat \<Rightarrow> server_env set \<Rightarrow> string \<Rightarrow> string \<Rightarrow> server_state \<Rightarrow> bool"
  for lws_pre envs auth_app auth_hdr where
  start: "server_reachable lws_pre envs auth_app auth_hdr (server_new auth_app auth_hdr, [])"
| step: "server_reachable lws_pre envs auth_app auth_hdr st \<Longrightarrow> server_step lws_pre envs st st' \<Longrightarrow>
    server_reachable lws_pre envs auth_app auth_hdr st'"

text \<open>The steps one by one.\<close>

lemmas step_callback = server_step.service [OF service_step.callback]
lemmas step_refused = server_step.perform [OF perform_step.perform_refused]
lemmas step_checked = server_step.perform [OF perform_step.perform_checked]
lemmas step_locked = server_step.perform [OF perform_step.perform_locked]
lemmas step_raced = server_step.race [OF race_step.raced]

text \<open>One induction over all of them.\<close>

lemma server_step_induct [consumes 1, case_names callback interrupted resumed poll refused checked locked raced]:
  assumes "server_step lws_pre envs st st'"
    and "\<And>s env reason ps. sv_establishing s = None \<Longrightarrow> env \<in> envs \<Longrightarrow>
      P (s, ps) (snd (ws_server_callback lws_pre env reason s), ps)"
    and "\<And>s w ps. sv_establishing s = None \<Longrightarrow> sh_connection s = None \<Longrightarrow>
      P (s, ps) ((established_reset w s)\<lparr>sv_establishing := Some w\<rparr>, ps)"
    and "\<And>s w ps. sv_establishing s = Some w \<Longrightarrow>
      P (s, ps) ((established_ask lws_pre w s)\<lparr>sv_establishing := None\<rparr>, ps)"
    and "\<And>s ps. sv_establishing s = None \<Longrightarrow> P (s, ps) (poll s, ps)"
    and "\<And>s writer ps. \<not> sh_is_authenticated s \<Longrightarrow> P (s, ps) (snd (handler_perform lws_pre writer s), ps)"
    and "\<And>s p s' writer ps. sh_is_authenticated s \<Longrightarrow> promise_new s = (p, s') \<Longrightarrow> P (s, ps) (s', (p, writer) # ps)"
    and "\<And>p writer ps s. (p, writer) \<in> set ps \<Longrightarrow>
      P (s, ps) (perform_enqueue lws_pre writer p s, remove1 (p, writer) ps)"
    and "\<And>s p writer ps r w. sv_establishing s = None \<Longrightarrow> sh_connection s = None \<Longrightarrow> (p, writer) \<in> set ps \<Longrightarrow>
      P (s, ps) (enqueue_raced lws_pre r w writer p s, remove1 (p, writer) ps)"
  shows "P st st'"
  using assms(1)
proof cases
  case service
  then show ?thesis by cases (simp_all add: assms(2-4))
next
  case (perform n)
  then show ?thesis by cases (simp_all add: assms(6-8))
next
  case race
  then show ?thesis by cases (simp_all add: assms(9))
qed (simp add: assms(5))

lemmas handler_defs = ws_server_callback_def filter_connection_def authenticate_via_header_def
  on_established_eq on_closed_def on_receive_def on_writable_def poll_def next_id_def lws_def

subsection \<open>Promises and pending responses\<close>

text \<open>
  The promises that are owned: by the map, each under one id, or by a call of \<^verbatim>\<open>perform\<close> on its way to
  the lock. All of them are unsatisfied.
\<close>

definition owned_ok :: "future list \<Rightarrow> (u32 \<rightharpoonup> promise) \<Rightarrow> promise list \<Rightarrow> bool" where
  "owned_ok fs m qs \<longleftrightarrow>
    (\<forall>i p. m i = Some p \<longrightarrow> p < length fs \<and> fs ! p = Future_waiting) \<and>
    (\<forall>i j p. m i = Some p \<longrightarrow> m j = Some p \<longrightarrow> i = j) \<and>
    (\<forall>q \<in> set qs. q < length fs \<and> fs ! q = Future_waiting \<and> (\<forall>i. m i \<noteq> Some q)) \<and>
    distinct qs"

definition promises_ok :: "server_state \<Rightarrow> bool" where
  "promises_ok st = owned_ok (sv_futures (fst st)) (sh_pending_responses (fst st)) (map fst (snd st))"

lemma owned_deliver:
  "owned_ok fs m qs \<Longrightarrow> m i = Some p \<Longrightarrow> owned_ok (fs[p := f]) (m(i := None)) qs"
  unfolding owned_ok_def by (auto simp: nth_list_update)

lemma owned_enqueue:
  "owned_ok fs m qs \<Longrightarrow> q \<in> set qs \<Longrightarrow> m i = None \<Longrightarrow> owned_ok fs (m(i \<mapsto> q)) (remove1 q qs)"
  unfolding owned_ok_def by auto

lemma owned_lost:
  "owned_ok fs m qs \<Longrightarrow> q \<in> set qs \<Longrightarrow> owned_ok (fs[q := f]) m (remove1 q qs)"
  unfolding owned_ok_def by (auto simp: nth_list_update)

lemma owned_clear:
  "owned_ok fs m qs \<Longrightarrow>
    owned_ok (map (\<lambda>p. if p \<in> ran m then g p else fs ! p) [0..<length fs]) Map.empty qs"
  unfolding owned_ok_def by (auto simp: ran_def)

lemma owned_new: "owned_ok fs m qs \<Longrightarrow> owned_ok (fs @ [Future_waiting]) m (length fs # qs)"
  unfolding owned_ok_def by (fastforce simp: nth_append intro: less_SucI)

text \<open>Steps that touch neither the promises nor the map.\<close>

definition same_promises :: "server \<Rightarrow> server \<Rightarrow> bool" where
  "same_promises s s' \<longleftrightarrow>
    sv_futures s' = sv_futures s \<and> sh_pending_responses s' = sh_pending_responses s"

lemma promises_ok_same: "promises_ok (s, ps) \<Longrightarrow> same_promises s s' \<Longrightarrow> promises_ok (s', ps)"
  by (simp add: promises_ok_def same_promises_def)

lemma lws_sel [simp]:
  "sh_connection (lws c s) = sh_connection s" "sh_id (lws c s) = sh_id s"
  "sh_shutdown_requested (lws c s) = sh_shutdown_requested s"
  "sh_is_authenticated (lws c s) = sh_is_authenticated s"
  "sh_authenticator (lws c s) = sh_authenticator s" "sh_auth_header (lws c s) = sh_auth_header s"
  "sh_current_message (lws c s) = sh_current_message s" "sh_requests (lws c s) = sh_requests s"
  "sh_pending_responses (lws c s) = sh_pending_responses s" "sv_futures (lws c s) = sv_futures s"
  "sv_calls (lws c s) = sv_calls s @ [c]"
  by (simp_all add: lws_def)

lemma next_id_eq:
  "next_id s = (let i = if sh_id s = - 1 then 1 else sh_id s + 1 in (i, s\<lparr>sh_id := i\<rparr>))"
  by (auto simp: next_id_def Let_def eq_neg_iff_add_eq_0)

lemma next_id_nonzero [simp]: "fst (next_id s) \<noteq> 0"
  by (simp add: next_id_def Let_def)

lemma same_callback:
  "(\<And>w b. reason \<noteq> Ev_receive w b True) \<Longrightarrow>
    same_promises s (snd (ws_server_callback lws_pre env reason s))"
  by (cases reason)
    (simp_all add: same_promises_def handler_defs Let_def case_prod_unfold split: list.splits)

lemma same_finish: "same_promises s (snd (finish_authentication env w reader s))"
  by (simp add: same_promises_def finish_authentication_def split: prod.splits sum.splits)

text \<open>Every message of at least five bytes has a header.\<close>

lemma message_header:
  assumes "5 \<le> length message"
  shows "\<exists>i c payload. message = header i c @ payload"
proof -
  obtain i :: u32 where "take 4 message = be_bytes 4 i"
    by (rule that [of "u32_of (take 4 message)"]) (use assms in \<open>simp add: be_bytes_u32_of\<close>)
  moreover have "message = take 4 message @ message ! 4 # drop 5 message"
    using assms id_take_nth_drop [of 4 message] by simp
  ultimately show ?thesis by (metis header_def append_Cons append_Nil append_assoc)
qed

lemma process_message_header:
  "process_message env w (header i c @ payload) s =
    (let reader = advance 5 (messagereader_new (header i c @ payload)) in
     if c = response_code response_getcreds then finish_authentication env w reader s
     else deliver_response i reader s)"
proof -
  let ?r = "messagereader_new (header i c @ payload)"
  have "read_u32 ?r = (Inr i, advance 4 ?r)"
    using readsD [OF reads_u32, of ?r i "c # payload"] by (simp add: header_def)
  moreover have "read_u8 (advance 4 ?r) = (Inr c, advance 5 ?r)"
    using readsD [OF reads_u8, of "advance 4 ?r" c payload] by (simp add: header_def)
  ultimately show ?thesis by (simp add: process_message_def Let_def)
qed

lemma process_message_short:
  assumes "length message < 5"
  shows "process_message env w message s = (Inl out_of_bounds, s)"
  using assms
  by (auto simp: process_message_def read_u32_def read_u8_def messagereader_new_def Let_def
      split: prod.splits sum.splits if_splits)

text \<open>A message either leaves the promises alone or is delivered.\<close>

lemma process_message_cases:
  obtains (other) "same_promises s (snd (process_message env w message s))"
  | (deliver) i reader where
      "process_message env w message s = deliver_response i reader s"
proof (cases "5 \<le> length message")
  case True
  then obtain i c payload where m: "message = header i c @ payload"
    using message_header by blast
  show ?thesis
    using that same_finish
    unfolding m process_message_header Let_def by (cases "c = response_code response_getcreds") auto
next
  case False
  then show ?thesis by (intro other) (simp add: process_message_short same_promises_def)
qed

lemma deliver_found:
  assumes "promises_ok (s, ps)" and "sh_pending_responses s i = Some p"
  shows "deliver_response i reader s = (Inr (),
    s\<lparr>sv_futures := (sv_futures s)[p := Future_value reader],
      sh_pending_responses := (sh_pending_responses s)(i := None)\<rparr>)"
  using assms by (simp add: promises_ok_def owned_ok_def deliver_response_def promise_set_def)

lemma deliver_missing: "sh_pending_responses s i = None \<Longrightarrow> deliver_response i reader s = (Inr (), s)"
  by (simp add: deliver_response_def)

lemma promises_ok_deliver:
  assumes "promises_ok (s, ps)"
  shows "promises_ok (snd (deliver_response i reader s), ps)"
proof (cases "sh_pending_responses s i")
  case None
  then show ?thesis using assms by (simp add: deliver_missing)
next
  case (Some p)
  then show ?thesis
    using assms owned_deliver [where i = i and m = "sh_pending_responses s"]
    by (simp add: deliver_found [OF assms] promises_ok_def)
qed

lemma promises_ok_process:
  "promises_ok (s, ps) \<Longrightarrow> promises_ok (snd (process_message env w message s), ps)"
  by (cases rule: process_message_cases [of s env w message])
    (simp_all add: promises_ok_same promises_ok_deliver)

lemma promises_ok_callback:
  assumes "promises_ok (s, ps)"
  shows "promises_ok (snd (ws_server_callback lws_pre env reason s), ps)"
proof (cases "\<exists>w b. reason = Ev_receive w b True")
  case True
  then obtain w b where "reason = Ev_receive w b True" by blast
  moreover have "promises_ok (s\<lparr>sh_current_message := []\<rparr>, ps)"
    using assms by (rule promises_ok_same) (simp add: same_promises_def)
  ultimately show ?thesis
    by (simp add: ws_server_callback_def on_receive_def promises_ok_process)
next
  case False
  then show ?thesis using promises_ok_same [OF assms same_callback] by blast
qed

lemma promises_ok_poll: "promises_ok (s, ps) \<Longrightarrow> promises_ok (poll s, ps)"
  by (auto simp: poll_def promises_ok_def pending_clear_def owned_clear split: option.splits
      cong: if_cong)

lemma promises_ok_new:
  "promises_ok (s, ps) \<Longrightarrow> promise_new s = (p, s') \<Longrightarrow> promises_ok (s', (p, writer) # ps)"
  by (auto simp: promises_ok_def promise_new_def owned_new)

lemma map_fst_remove1:
  "distinct (map fst ps) \<Longrightarrow> (p, w) \<in> set ps \<Longrightarrow> map fst (remove1 (p, w) ps) = remove1 p (map fst ps)"
  by (induction ps) (auto simp: image_iff rev_image_eqI)

lemma next_id_sel [simp]:
  "sh_pending_responses (snd (next_id s)) = sh_pending_responses s"
  "sv_futures (snd (next_id s)) = sv_futures s" "sh_requests (snd (next_id s)) = sh_requests s"
  "sv_calls (snd (next_id s)) = sv_calls s"
  "sh_is_authenticated (snd (next_id s)) = sh_is_authenticated s"
  "sh_connection (snd (next_id s)) = sh_connection s"
  "sh_authenticator (snd (next_id s)) = sh_authenticator s"
  "sh_id (snd (next_id s)) = fst (next_id s)"
  by (simp_all add: next_id_eq Let_def)

lemma next_id_futures [simp]:
  "next_id (s\<lparr>sv_futures := f\<rparr>) = (fst (next_id s), (snd (next_id s))\<lparr>sv_futures := f\<rparr>)"
  by (simp add: next_id_eq Let_def)

lemma promises_ok_emplace:
  assumes "promises_ok (s, ps)" and p: "(p, writer) \<in> set ps" and "same_promises s s'"
  shows "promises_ok (pending_emplace i p s', remove1 (p, writer) ps)"
proof -
  let ?m = "sh_pending_responses s" and ?fs = "sv_futures s"
  have ok: "owned_ok ?fs ?m (map fst ps)" using assms by (simp add: promises_ok_def)
  then have rest: "map fst (remove1 (p, writer) ps) = remove1 p (map fst ps)"
    using p by (simp add: owned_ok_def map_fst_remove1)
  have mem: "p \<in> set (map fst ps)" using p by force
  show ?thesis
    using owned_enqueue [OF ok mem, of i] owned_lost [OF ok mem] rest assms(3)
    by (simp add: promises_ok_def same_promises_def pending_emplace_def promise_destroy_def split: option.splits)
qed

text \<open>Both critical sections end with the entry in the map.\<close>

lemma enqueue_emplaces:
  "\<exists>s'. same_promises s s' \<and> perform_enqueue lws_pre writer p s = pending_emplace (fst (next_id s)) p s'"
  by (intro exI [of _ "(snd (next_id s))\<lparr>sh_requests := sh_requests s @ [set_id lws_pre (fst (next_id s)) writer]\<rparr>"])
    (simp add: perform_enqueue_def case_prod_unfold Let_def same_promises_def)

lemma promises_ok_enqueue:
  "promises_ok (s, ps) \<Longrightarrow> (p, writer) \<in> set ps \<Longrightarrow>
    promises_ok (perform_enqueue lws_pre writer p s, remove1 (p, writer) ps)"
  using promises_ok_emplace enqueue_emplaces by metis

lemma raced_emplaces:
  "\<exists>s'. same_promises s s' \<and>
    enqueue_raced lws_pre r w writer p s = pending_emplace (fst (next_id_raced r (sh_id s))) p s'"
  by (intro exI [of _ "s\<lparr>sh_connection := Some w, sh_id := snd (next_id_raced r (sh_id s)), sv_establishing := Some w,
      sh_requests := sh_requests s @ [set_id lws_pre (fst (next_id_raced r (sh_id s))) writer]\<rparr>"])
    (simp add: enqueue_raced_def case_prod_unfold Let_def same_promises_def)

lemma same_established:
  "same_promises s ((established_reset w s)\<lparr>sv_establishing := e\<rparr>)"
  "same_promises s ((established_ask lws_pre w s)\<lparr>sv_establishing := e\<rparr>)"
  by (simp_all add: same_promises_def established_reset_def established_ask_def case_prod_unfold Let_def)

text \<open>The refused call satisfies its own promise.\<close>

lemma perform_refused_eq:
  "\<not> sh_is_authenticated s \<Longrightarrow> handler_perform lws_pre writer s =
    (length (sv_futures s), s\<lparr>sv_futures := sv_futures s @
      [Future_exception (Runtime_error ''unauthenticated'')]\<rparr>)"
  by (simp add: handler_perform_def promise_new_def promise_set_def)

lemma promises_ok_refused:
  "promises_ok (s, ps) \<Longrightarrow> \<not> sh_is_authenticated s \<Longrightarrow>
    promises_ok (snd (handler_perform lws_pre writer s), ps)"
  by (fastforce simp: perform_refused_eq promises_ok_def owned_ok_def nth_append intro: less_SucI)

lemma promises_ok_step: "server_step lws_pre envs st st' \<Longrightarrow> promises_ok st \<Longrightarrow> promises_ok st'"
proof (induction rule: server_step_induct)
  case (raced s p writer ps r w)
  then show ?case using promises_ok_emplace raced_emplaces by metis
qed (simp_all add: promises_ok_callback promises_ok_poll promises_ok_refused promises_ok_new promises_ok_enqueue
    promises_ok_same [OF _ same_established(1)] promises_ok_same [OF _ same_established(2)])

lemma promises_ok_reachable: "server_reachable lws_pre envs app hdr st \<Longrightarrow> promises_ok st"
proof (induction rule: server_reachable.induct)
  case start
  show ?case by (simp add: promises_ok_def owned_ok_def server_new_def)
qed (rule promises_ok_step)

subsection \<open>Futures are satisfied once\<close>

text \<open>\<open>settled fs fs'\<close>: every future of \<open>fs\<close> that is satisfied is the same in \<open>fs'\<close>.\<close>

definition settled :: "future list \<Rightarrow> future list \<Rightarrow> bool" where
  "settled fs fs' \<longleftrightarrow> length fs \<le> length fs' \<and>
    (\<forall>p < length fs. fs ! p \<noteq> Future_waiting \<longrightarrow> fs' ! p = fs ! p)"

lemma settled_refl [simp]: "settled fs fs"
  by (simp add: settled_def)

lemma settled_append [simp]: "settled fs (fs @ gs)"
  by (simp add: settled_def nth_append)

lemma break_settled [simp]: "f \<noteq> Future_waiting \<Longrightarrow> break_future f = f"
  by (cases f) (simp_all add: break_future_def)

lemma settled_update: "fs ! p = Future_waiting \<or> f = fs ! p \<Longrightarrow> settled fs (fs[p := f])"
  by (auto simp: settled_def) (metis nth_list_update_neq)

lemma settled_break: "settled fs (fs[p := break_future (fs ! p)])"
  using break_settled by (intro settled_update) blast

lemma settled_process: "settled (sv_futures s) (sv_futures (snd (process_message env w message s)))"
proof (cases rule: process_message_cases [of s env w message])
  case other
  then show ?thesis by (simp add: same_promises_def)
next
  case (deliver i reader)
  then show ?thesis
    by (auto simp: deliver_response_def promise_set_def settled_update split: option.splits)
qed

lemma settled_callback:
  "settled (sv_futures s) (sv_futures (snd (ws_server_callback lws_pre env reason s)))"
proof (cases "\<exists>w b. reason = Ev_receive w b True")
  case True
  then obtain w b where "reason = Ev_receive w b True" by blast
  then show ?thesis
    using settled_process [of "s\<lparr>sh_current_message := []\<rparr>" env w "sh_current_message s @ b"]
    by (simp add: ws_server_callback_def on_receive_def)
next
  case False
  then have "same_promises s (snd (ws_server_callback lws_pre env reason s))"
    by (intro same_callback) blast
  then show ?thesis by (simp add: same_promises_def)
qed

lemma settled_emplace:
  "same_promises s s' \<Longrightarrow> settled (sv_futures s) (sv_futures (pending_emplace i p s'))"
  by (simp add: same_promises_def pending_emplace_def promise_destroy_def settled_break split: option.splits)

lemma settled_poll: "settled (sv_futures s) (sv_futures (poll s))"
  by (auto simp: poll_def pending_clear_def settled_def split: option.splits cong: if_cong)

lemma settled_step:
  "server_step lws_pre envs st st' \<Longrightarrow> settled (sv_futures (fst st)) (sv_futures (fst st'))"
proof (induction rule: server_step_induct)
  case (locked p writer ps s)
  then show ?case using settled_emplace enqueue_emplaces by (metis fst_conv)
next
  case (raced s p writer ps r w)
  then show ?case using settled_emplace raced_emplaces by (metis fst_conv)
next
  case (interrupted s w ps)
  then show ?case using same_established(1) [of s] by (simp add: same_promises_def)
next
  case (resumed s w ps)
  then show ?case using same_established(2) [of s] by (simp add: same_promises_def)
qed (auto simp: settled_callback settled_poll perform_refused_eq promise_new_def)

subsection \<open>A provider that never authenticates\<close>

definition getcreds_request :: "nat \<Rightarrow> messagewriter \<Rightarrow> bool" where
  "getcreds_request lws_pre w \<longleftrightarrow> (\<exists>i. get_data lws_pre w = header i (request_code request_getcreds))"

definition getcreds_call :: "lws_call \<Rightarrow> bool" where
  "getcreds_call c \<longleftrightarrow> (case c of
      Lws_write _ data \<Rightarrow> \<exists>i. data = header i (request_code request_getcreds)
    | Lws_callback_on_writable _ \<Rightarrow> True
    | Lws_cancel_service \<Rightarrow> True)"

definition locked_out :: "nat \<Rightarrow> string \<Rightarrow> server_state \<Rightarrow> bool" where
  "locked_out lws_pre app st \<longleftrightarrow> (case st of (s, ps) \<Rightarrow>
    sh_authenticator s = app \<and> \<not> sh_is_authenticated s \<and> ps = [] \<and>
    list_all (getcreds_request lws_pre) (sh_requests s) \<and> list_all getcreds_call (sv_calls s))"

lemma getcreds_new:
  "getcreds_request lws_pre (set_id lws_pre i (messagewriter_request lws_pre request_getcreds))"
  using set_id_header [of lws_pre i 0 0 "request_code request_getcreds" "[]"]
  by (auto simp: getcreds_request_def messagewriter_request_eq get_data_message)

lemma getcreds_write: "getcreds_request lws_pre w \<Longrightarrow> getcreds_call (Lws_write c (get_data lws_pre w))"
  by (auto simp: getcreds_request_def getcreds_call_def)

lemma getcreds_other [simp]:
  "getcreds_call (Lws_callback_on_writable w)" "getcreds_call Lws_cancel_service"
  by (simp_all add: getcreds_call_def)

lemma locked_out_process:
  assumes "\<forall>token. \<not> auth_authenticate env app token" and "locked_out lws_pre app (s, ps)"
  shows "locked_out lws_pre app (snd (process_message env w message s), ps)"
  using assms
  by (auto simp: process_message_def finish_authentication_def deliver_response_def promise_set_def
      locked_out_def split: prod.splits sum.splits option.splits)

lemma locked_out_callback:
  assumes "\<forall>token. \<not> auth_authenticate env app token" and "app \<noteq> ''''" and "locked_out lws_pre app (s, ps)"
  shows "locked_out lws_pre app (snd (ws_server_callback lws_pre env reason s), ps)"
proof (cases reason)
  case (Ev_receive w b f)
  have "locked_out lws_pre app (s\<lparr>sh_current_message := m\<rparr>, ps)" for m
    using assms(3) by (simp add: locked_out_def)
  then show ?thesis
    using locked_out_process [OF assms(1)] Ev_receive
    by (simp add: ws_server_callback_def on_receive_def Let_def)
next
  case (Ev_server_writeable w)
  then show ?thesis
    using assms(3)
    by (auto simp: handler_defs locked_out_def Let_def getcreds_write split: list.splits)
next
  case (Ev_established w)
  then show ?thesis
    using assms(2,3)
    by (simp add: ws_server_callback_def on_established_eq case_prod_unfold Let_def locked_out_def
        getcreds_new)
qed (use assms in \<open>auto simp: handler_defs locked_out_def Let_def\<close>)

lemma locked_out_step:
  assumes "server_step lws_pre {env. \<forall>token. \<not> auth_authenticate env app token} st st'"
    and "app \<noteq> ''''" and "locked_out lws_pre app st"
  shows "locked_out lws_pre app st'"
  using assms
proof (induction rule: server_step_induct)
  case (callback s env reason ps)
  then show ?case by (simp add: locked_out_callback)
qed (auto simp: locked_out_def poll_def pending_clear_def perform_refused_eq established_reset_def
    established_ask_def case_prod_unfold Let_def getcreds_new split: option.splits)

lemma locked_out_reachable:
  assumes "server_reachable lws_pre {env. \<forall>token. \<not> auth_authenticate env app token} app hdr st"
    and "app \<noteq> ''''"
  shows "locked_out lws_pre app st"
  using assms(1)
proof (induction rule: server_reachable.induct)
  case start
  show ?case by (simp add: locked_out_def server_new_def)
next
  case (step st st')
  then show ?case using locked_out_step assms(2) by blast
qed

subsection \<open>A sample run\<close>

text \<open>
  An environment without headers that authenticates nobody, and the state of a service without
  authenticator after a provider connected and one request was issued.
\<close>

definition null_env :: server_env where
  "null_env = \<lparr>lws_hdr_total_length = \<lambda>_ _. 0, lws_hdr_copy = \<lambda>_ _ _. (0, ''''),
    lws_hdr_custom_length = \<lambda>_ _. 0, lws_hdr_custom_copy = \<lambda>_ _ _. (0, ''''),
    auth_authenticate = \<lambda>_ _. False\<rparr>"

definition sample_connected :: "string \<Rightarrow> server" where
  "sample_connected app =
    snd (on_established 16 5 (snd (filter_connection null_env 5 (server_new app ''''))))"

definition sample_waiting :: server where
  "sample_waiting = snd (handler_perform 16 (messagewriter_request 16 request_statfs) (sample_connected ''''))"

text \<open>A callback, run to its end, is not interrupted, and neither is \<^verbatim>\<open>perform\<close>.\<close>

lemma process_establishing: "sv_establishing (snd (process_message env w message s)) = sv_establishing s"
  by (simp add: process_message_def finish_authentication_def deliver_response_def promise_set_def lws_def
      split: prod.splits sum.splits option.splits)

lemma handlers_establishing [simp]:
  "sv_establishing (snd (filter_connection env w s)) = sv_establishing s"
  "sv_establishing (snd (on_established lws_pre w s)) = sv_establishing s"
  "sv_establishing (on_receive env w fragment final s) = sv_establishing s"
  "sv_establishing (snd (on_writable lws_pre s)) = sv_establishing s"
  "sv_establishing (on_closed w s) = sv_establishing s" "sv_establishing (poll s) = sv_establishing s"
  by (simp_all add: handler_defs process_establishing pending_clear_def Let_def case_prod_unfold
      split: list.splits option.splits)

lemma callback_establishing [simp]:
  "sv_establishing (snd (ws_server_callback lws_pre env reason s)) = sv_establishing s"
  by (cases reason) (simp_all add: ws_server_callback_def)

lemma perform_establishing [simp]: "sv_establishing (snd (handler_perform lws_pre writer s)) = sv_establishing s"
  by (simp add: handler_perform_def promise_new_def promise_set_def perform_enqueue_def pending_emplace_def
      promise_destroy_def next_id_def case_prod_unfold Let_def split: option.splits)

lemma new_establishing [simp]: "sv_establishing (server_new app hdr) = None"
  by (simp add: server_new_def)

lemma reachable_callback:
  "server_reachable lws_pre envs app hdr (s, ps) \<Longrightarrow> sv_establishing s = None \<Longrightarrow> env \<in> envs \<Longrightarrow>
    server_reachable lws_pre envs app hdr (snd (ws_server_callback lws_pre env reason s), ps)"
  by (erule server_reachable.step) (rule step_callback)

lemma reachable_perform:
  assumes "server_reachable lws_pre envs app hdr (s, ps)"
  shows "server_reachable lws_pre envs app hdr (snd (handler_perform lws_pre writer s), ps)"
proof (cases "sh_is_authenticated s")
  case True
  obtain p s' where p: "promise_new s = (p, s')" by (cases "promise_new s")
  have "server_reachable lws_pre envs app hdr (s', (p, writer) # ps)"
    using assms step_checked [OF True p] by (rule server_reachable.step)
  then have "server_reachable lws_pre envs app hdr
      (perform_enqueue lws_pre writer p s', remove1 (p, writer) ((p, writer) # ps))"
    by (rule server_reachable.step) (rule step_locked, simp)
  moreover have "sh_is_authenticated s'" using p True by (auto simp: promise_new_def)
  ultimately show ?thesis using p True by (simp add: handler_perform_def)
next
  case False
  with assms show ?thesis by (meson server_reachable.step step_refused)
qed

lemma sample_connected_establishing [simp]: "sv_establishing (sample_connected app) = None"
  by (simp add: sample_connected_def)

lemma sample_connected_reachable:
  assumes "null_env \<in> envs"
  shows "server_reachable 16 envs app '''' (sample_connected app, [])"
proof -
  have "server_reachable 16 envs app '''' (snd (filter_connection null_env 5 (server_new app '''')), [])"
    using reachable_callback [OF server_reachable.start _ assms, of app "''''" 16 "Ev_filter_protocol_connection 5"]
    by (simp add: ws_server_callback_def)
  from reachable_callback [OF this _ assms, of "Ev_established 5"] show ?thesis
    by (simp add: sample_connected_def ws_server_callback_def)
qed

lemma sample_waiting_establishing [simp]: "sv_establishing sample_waiting = None"
  by (simp add: sample_waiting_def)

lemma sample_waiting_reachable: "server_reachable 16 {null_env} '''' '''' (sample_waiting, [])"
  unfolding sample_waiting_def
  by (intro reachable_perform sample_connected_reachable) simp

lemma sample_waiting_eq:
  "sh_pending_responses sample_waiting = [1 \<mapsto> 0]" "sv_futures sample_waiting = [Future_waiting]"
  "sh_current_message sample_waiting = []" "sh_connection sample_waiting = Some 5"
  "length (sh_requests sample_waiting) = 1"
  by (simp_all add: sample_waiting_def sample_connected_def handler_perform_def promise_new_def
      perform_enqueue_def pending_emplace_def filter_connection_def authenticate_via_header_def
      on_established_eq server_new_def next_id_def)

subsection \<open>Properties\<close>

text \<open>
  C9. Ownership of promises, in every reachable state of the service, however its threads interleave (the unprotected reset
  of the id by a new connection included) and whatever the peers send: every entry of \<^verbatim>\<open>pending_responses\<close> has a promise
  that exists, is unsatisfied and belongs to no other entry and to no call of \<^verbatim>\<open>perform\<close> that waits for the lock; so
  delivering a response never throws \<^verbatim>\<open>promise already satisfied\<close>.
\<close>

theorem pending_promises_unsatisfied:
  assumes "server_reachable lws_pre envs app hdr (s, ps)"
  shows "(\<forall>i p. sh_pending_responses s i = Some p \<longrightarrow>
      p < length (sv_futures s) \<and> sv_futures s ! p = Future_waiting \<and> p \<notin> set (map fst ps)) \<and>
    (\<forall>i j p. sh_pending_responses s i = Some p \<longrightarrow> sh_pending_responses s j = Some p \<longrightarrow> i = j) \<and>
    (\<forall>i reader. fst (deliver_response i reader s) = Inr ())"
proof -
  have ok: "promises_ok (s, ps)" using assms by (rule promises_ok_reachable)
  have "fst (deliver_response i reader s) = Inr ()" for i reader
    using deliver_found [OF ok] deliver_missing [of s] by (cases "sh_pending_responses s i") simp_all
  then show ?thesis using ok by (auto simp: promises_ok_def owned_ok_def)
qed

theorem pending_promises_unsatisfied_witness:
  "sh_pending_responses sample_waiting 1 = Some 0 \<and> 0 < length (sv_futures sample_waiting) \<and>
   sv_futures sample_waiting ! 0 = Future_waiting \<and>
   fst (deliver_response 1 (messagereader_new []) sample_waiting) = Inr ()"
  using pending_promises_unsatisfied [OF sample_waiting_reachable] by (simp add: sample_waiting_eq)

text \<open>
  The unprotected reset lets a request get the id 0, which \<^verbatim>\<open>next_id\<close> means to avoid: a call of \<^verbatim>\<open>perform\<close> that passed the
  test of \<^verbatim>\<open>is_authenticated\<close> takes the lock while a new client connects.
\<close>

theorem raced_request_has_id_zero:
  "\<exists>s ps. server_reachable 16 {null_env} '''' '''' (s, ps) \<and> sh_pending_responses s 0 \<noteq> None"
proof -
  let ?s = "sample_connected ''''" and ?w = "messagewriter_request 16 request_statfs"
  let ?new = "snd (promise_new ?s)"
  have s: "sh_is_authenticated ?s" "sh_pending_responses ?s = Map.empty" "sh_connection ?s = Some 5"
    by (simp_all add: sample_connected_def filter_connection_def authenticate_via_header_def on_established_eq
        server_new_def)
  have 1: "server_reachable 16 {null_env} '''' '''' (?new, [(fst (promise_new ?s), ?w)])"
    by (intro server_reachable.step [OF sample_connected_reachable step_checked [OF s(1)]]) simp_all
  have 2: "server_reachable 16 {null_env} '''' '''' (on_closed 5 ?new, [(fst (promise_new ?s), ?w)])"
    using reachable_callback [OF 1 _ insertI1, of "Ev_closed 5"] by (simp add: promise_new_def ws_server_callback_def)
  have "sv_establishing (on_closed 5 ?new) = None" "sh_connection (on_closed 5 ?new) = None"
    by (simp_all add: on_closed_def promise_new_def s)
  then have 3: "server_reachable 16 {null_env} '''' ''''
      (enqueue_raced 16 Reset_before_return 6 ?w (fst (promise_new ?s)) (on_closed 5 ?new), [])"
    using server_reachable.step [OF 2 step_raced [where p = "fst (promise_new ?s)" and writer = ?w and
        r = Reset_before_return and w = 6]] by simp
  have "sh_pending_responses (enqueue_raced 16 Reset_before_return 6 ?w (fst (promise_new ?s)) (on_closed 5 ?new)) 0
      \<noteq> None"
    by (simp add: enqueue_raced_def next_id_raced_def pending_emplace_def on_closed_def promise_new_def s)
  with 3 show ?thesis by blast
qed

text \<open>
  A future is satisfied at most once: no step of the service ever changes a future that has a value
  or an exception.
\<close>

theorem futures_satisfied_once:
  assumes "server_step lws_pre envs (s, ps) (s', ps')"
    and "p < length (sv_futures s)" and "sv_futures s ! p \<noteq> Future_waiting"
  shows "sv_futures s' ! p = sv_futures s ! p"
  using settled_step [OF assms(1)] assms(2,3) by (simp add: settled_def)

theorem futures_satisfied_once_witness:
  "sv_futures (poll (snd (handler_perform 16 (messagewriter_request 16 request_statfs) (server_new ''x'' ''''))))
    ! 0 = Future_exception (Runtime_error ''unauthenticated'')"
  using futures_satisfied_once [OF server_step.poll, where p = 0 and
      s = "snd (handler_perform 16 (messagewriter_request 16 request_statfs) (server_new ''x'' ''''))"]
  by (simp add: perform_refused_eq server_new_def)

text \<open>
  C7. Authentication: in a run in which the authenticator accepts nobody, the service never sends anything but the
  request for credentials, whatever the provider sends, whichever headers it presents, how often it
  reconnects and whatever FUSE asks for in the meantime.
\<close>

theorem unauthenticated_sees_no_request:
  assumes "server_reachable lws_pre {env. \<forall>token. \<not> auth_authenticate env app token} app hdr (s, ps)"
    and "app \<noteq> ''''" and "Lws_write c data \<in> set (sv_calls s)"
  shows "\<exists>i. data = header i (request_code request_getcreds)"
  using locked_out_reachable [OF assms(1,2)] assms(3)
  by (force simp: locked_out_def list_all_iff getcreds_call_def)

theorem unauthenticated_sees_no_request_witness:
  "\<exists>s c data. server_reachable 16 {env. \<forall>token. \<not> auth_authenticate env ''auth'' token} ''auth'' '''' (s, []) \<and>
    Lws_write c data \<in> set (sv_calls s) \<and> (\<exists>i. data = header i (request_code request_getcreds))"
proof -
  let ?envs = "{env. \<forall>token. \<not> auth_authenticate env ''auth'' token}"
  let ?s = "snd (ws_server_callback 16 null_env (Ev_server_writeable 5) (sample_connected ''auth''))"
  have env: "null_env \<in> ?envs" by (simp add: null_env_def)
  have r: "server_reachable 16 ?envs ''auth'' '''' (?s, [])"
    by (intro reachable_callback sample_connected_reachable env) simp
  have "\<exists>c data. Lws_write c data \<in> set (sv_calls ?s)"
    by (auto simp: sample_connected_def ws_server_callback_def filter_connection_def
        authenticate_via_header_def on_established_eq on_writable_def server_new_def next_id_def)
  then show ?thesis using unauthenticated_sees_no_request [OF r] r by blast
qed

text \<open>
  Delivery: in a reachable state, a response whose last fragment completes the message
  \<open>header i c @ payload\<close> satisfies the future of the request with id \<open>i\<close>, with a reader positioned at
  the payload, removes the entry, and changes no other future.
\<close>

theorem response_reaches_its_request:
  assumes "server_reachable lws_pre envs app hdr (s, ps)"
    and "sh_pending_responses s i = Some p"
    and "sh_current_message s @ fragment = header i c @ payload"
    and "c \<noteq> response_code response_getcreds"
  shows "\<exists>reader. remaining reader = payload \<and>
    sv_futures (on_receive env w fragment True s) = (sv_futures s)[p := Future_value reader] \<and>
    sh_pending_responses (on_receive env w fragment True s) = (sh_pending_responses s)(i := None) \<and>
    sh_current_message (on_receive env w fragment True s) = []"
proof -
  let ?s = "s\<lparr>sh_current_message := []\<rparr>"
  have "promises_ok (s, ps)" using assms(1) by (rule promises_ok_reachable)
  then have "promises_ok (?s, ps)" by (rule promises_ok_same) (simp add: same_promises_def)
  from deliver_found [OF this, of i p] show ?thesis
    using assms(2-4)
    by (intro exI [of _ "advance 5 (messagereader_new (header i c @ payload))"])
      (simp add: on_receive_def Let_def process_message_header)
qed

theorem response_reaches_its_request_witness:
  "\<exists>reader. remaining reader = [7] \<and>
    sv_futures (on_receive null_env 5 (header 1 0x95 @ [7]) True sample_waiting) = [Future_value reader]"
  using response_reaches_its_request [OF sample_waiting_reachable, of 1 0 "header 1 0x95 @ [7]" "0x95" "[7]"
      null_env 5]
  by (auto simp: sample_waiting_eq)

text \<open>
  Issuing a request while authenticated: it is queued with the next id in its header, and its future
  waits under that id - unless the id is still taken, in which case the promise is broken at once.
\<close>

theorem perform_queues_request:
  assumes "sh_is_authenticated s" and "writer = append_data body (messagewriter_request lws_pre t)"
  shows "let i = fst (next_id s); (p, s') = handler_perform lws_pre writer s in
    i \<noteq> 0 \<and> p = length (sv_futures s) \<and>
    map (get_data lws_pre) (sh_requests s') =
      map (get_data lws_pre) (sh_requests s) @ [header i (request_code t) @ body] \<and>
    (sh_pending_responses s i = None \<longrightarrow>
      sh_pending_responses s' = (sh_pending_responses s)(i \<mapsto> p) \<and> sv_futures s' ! p = Future_waiting) \<and>
    (sh_pending_responses s i \<noteq> None \<longrightarrow>
      sh_pending_responses s' = sh_pending_responses s \<and>
      sv_futures s' ! p = Future_exception (Future_error ''broken promise''))"
proof -
  have "get_data lws_pre (set_id lws_pre i writer) = header i (request_code t) @ body" for i
    by (simp add: assms(2) messagewriter_request_eq append_data_def set_id_header get_data_message)
  then show ?thesis
    using assms(1)
    by (auto simp: handler_perform_def promise_new_def perform_enqueue_def case_prod_unfold Let_def
        pending_emplace_def promise_destroy_def break_future_def nth_append split: option.splits)
qed

theorem perform_queues_request_witness:
  "sh_is_authenticated (sample_connected '''') \<and>
   (let (p, s') = handler_perform 16 (append_data [1] (messagewriter_request 16 request_unlink)) (sample_connected '''')
    in map (get_data 16) (sh_requests s') = [header 1 0x0f @ [1]] \<and> sv_futures s' ! p = Future_waiting)"
proof -
  have s: "sh_is_authenticated (sample_connected '''')" "fst (next_id (sample_connected '''')) = 1"
    "sh_requests (sample_connected '''') = []" "sh_pending_responses (sample_connected '''') = Map.empty"
    by (simp_all add: sample_connected_def filter_connection_def authenticate_via_header_def
        on_established_eq server_new_def next_id_def)
  show ?thesis
    using perform_queues_request [OF s(1) refl, of 16 "[1]" request_unlink] s
    by (auto simp: case_prod_unfold Let_def)
qed

text \<open>
  A request is refused while the connection is not authenticated: nothing is queued and the future
  already holds the exception \<^verbatim>\<open>unauthenticated\<close>, which \<^verbatim>\<open>ws_server::perform\<close> rethrows, whatever the other
  threads do in the meantime.
\<close>

theorem perform_refused_unauthenticated:
  assumes "\<not> sh_is_authenticated s" and "\<And>s. settled (sv_futures s) (sv_futures (meanwhile s))"
  shows "fst (ws_server_perform lws_pre meanwhile writer s) = Inl (Runtime_error ''unauthenticated'') \<and>
    sh_requests (snd (handler_perform lws_pre writer s)) = sh_requests s"
proof -
  let ?s = "lws Lws_cancel_service (snd (handler_perform lws_pre writer s))"
  let ?p = "length (sv_futures s)"
  have "sv_futures (meanwhile ?s) ! ?p = sv_futures ?s ! ?p"
    using assms(2) [of ?s] assms(1) by (simp add: settled_def perform_refused_eq nth_append)
  then show ?thesis
    using assms(1)
    by (simp add: ws_server_perform_def perform_refused_eq await_future_def)
qed

theorem perform_refused_unauthenticated_witness:
  "fst (ws_server_perform 16 poll (messagewriter_request 16 request_statfs) (server_new ''auth'' '''')) =
    Inl (Runtime_error ''unauthenticated'')"
  using perform_refused_unauthenticated [of "server_new ''auth'' ''''" poll 16]
    settled_poll
  by (simp add: server_new_def)

text \<open>
  After the provider is gone, the service thread's next \<^verbatim>\<open>poll\<close> drops the requests, if there are any in the queue, and
  then breaks every promise that waits.
\<close>

theorem poll_without_connection:
  assumes "server_reachable lws_pre envs app hdr (s, ps)"
    and "sh_connection s = None" and "sh_requests s \<noteq> []"
  shows "sh_requests (poll s) = [] \<and> sh_pending_responses (poll s) = Map.empty \<and>
    (\<forall>i p. sh_pending_responses s i = Some p \<longrightarrow>
      sv_futures (poll s) ! p = Future_exception (Future_error ''broken promise''))"
proof -
  have "promises_ok (s, ps)" using assms(1) by (rule promises_ok_reachable)
  then show ?thesis
    using assms(2,3)
    by (auto simp: poll_def pending_clear_def promises_ok_def owned_ok_def ranI break_future_def)
qed

theorem poll_without_connection_witness:
  "sv_futures (poll (on_closed 5 sample_waiting)) ! 0 = Future_exception (Future_error ''broken promise'')"
proof -
  have "server_reachable 16 {null_env} '''' '''' (on_closed 5 sample_waiting, [])"
    using reachable_callback [OF sample_waiting_reachable _ insertI1, of "Ev_closed 5"]
    by (simp add: ws_server_callback_def)
  moreover have "sh_requests sample_waiting \<noteq> []" using sample_waiting_eq(5) by auto
  ultimately show ?thesis
    using poll_without_connection [of 16 "{null_env}" "''''" "''''" "on_closed 5 sample_waiting" "[]"]
    by (simp add: on_closed_def sample_waiting_eq)
qed

text \<open>
  C34. A second client decides about the first one's authentication: while a provider is connected, the
  handshake of another client is refused (\<open>-1\<close>) and leaves the connection in place, but
  \<^verbatim>\<open>is_authenticated\<close> afterwards says whether the \<^emph>\<open>other\<close> client presented a valid token.
\<close>

theorem second_client_decides_authentication:
  assumes "sh_connection s = Some w" and "sh_authenticator s \<noteq> ''''" and "sh_auth_header s \<noteq> ''''"
  shows "let token = get_auth_token env w' s;
      s1 = snd (filter_connection env w' s);
      (result, s2) = on_established lws_pre w' s1
    in result = - 1 \<and> sh_connection s2 = Some w \<and>
      sh_is_authenticated s2 = (token \<noteq> '''' \<and> auth_authenticate env (sh_authenticator s) token)"
  using assms
  by (simp add: filter_connection_def authenticate_via_header_def on_established_eq Let_def)

theorem second_client_decides_authentication_witness:
  "let s = (server_new ''auth'' ''x-auth-token'')\<lparr>sh_connection := Some 5, sh_is_authenticated := True\<rparr>;
       s2 = snd (on_established 16 6 (snd (filter_connection null_env 6 s)))
   in sh_connection s2 = Some 5 \<and> \<not> sh_is_authenticated s2"
proof -
  let ?s = "(server_new ''auth'' ''x-auth-token'')\<lparr>sh_connection := Some 5, sh_is_authenticated := True\<rparr>"
  have "get_auth_token null_env 6 ?s = ''''"
    by (simp add: get_auth_token_def get_auth_token_of_known_header_def null_env_def server_new_def)
  then show ?thesis
    using second_client_decides_authentication [of ?s 5 null_env 6 16]
    by (simp add: server_new_def case_prod_unfold Let_def)
qed

text \<open>
  C38. After a reconnect ids start at 1 again, while requests of the old connection that were sent but not
  answered are still pending: the first request of the new connection collides with a pending id 1.
  It is sent, but its promise is broken at once, and its response will go to the old request.
\<close>

theorem reconnect_reuses_pending_id:
  assumes "sh_connection s = None" and "sh_authenticator s = ''''"
    and "sh_pending_responses s 1 = Some q"
  shows "let s1 = snd (on_established lws_pre w (snd (filter_connection env w s)));
      (p, s2) = handler_perform lws_pre (messagewriter_request lws_pre t) s1
    in sv_futures s2 ! p = Future_exception (Future_error ''broken promise'') \<and>
      sh_pending_responses s2 1 = Some q \<and>
      get_data lws_pre (last (sh_requests s2)) = header 1 (request_code t)"
  using assms set_id_header [of lws_pre 1 0 0 _ "[]"]
  by (simp add: filter_connection_def authenticate_via_header_def on_established_eq
      handler_perform_def promise_new_def perform_enqueue_def pending_emplace_def promise_destroy_def
      next_id_def break_future_def nth_append messagewriter_request_eq get_data_message)

theorem reconnect_reuses_pending_id_witness:
  "let s = on_closed 5 (snd (on_writable 16 sample_waiting)) in
    sh_connection s = None \<and> sh_pending_responses s 1 = Some 0 \<and>
    (let s1 = snd (on_established 16 6 (snd (filter_connection null_env 6 s)));
         (p, s2) = handler_perform 16 (messagewriter_request 16 request_rmdir) s1
     in sv_futures s2 ! p = Future_exception (Future_error ''broken promise''))"
proof -
  let ?s = "on_closed 5 (snd (on_writable 16 sample_waiting))"
  have s: "sh_connection ?s = None" "sh_authenticator ?s = ''''" "sh_pending_responses ?s 1 = Some 0"
    by (simp_all add: sample_waiting_def sample_connected_def handler_perform_def promise_new_def
        perform_enqueue_def pending_emplace_def filter_connection_def authenticate_via_header_def
        on_established_eq server_new_def next_id_def on_writable_def on_closed_def)
  show ?thesis
    using reconnect_reuses_pending_id [OF s, where lws_pre = 16 and w = 6 and env = null_env and t = request_rmdir] s
    by (simp add: Let_def case_prod_unfold)
qed

text \<open>
  A request that nobody answers in time throws \<^verbatim>\<open>timeout\<close>; its entry stays in \<^verbatim>\<open>pending_responses\<close>.
\<close>

theorem perform_times_out:
  assumes "sh_is_authenticated s" and "sh_pending_responses s (fst (next_id s)) = None"
    and "\<And>s. sv_futures (meanwhile s) = sv_futures s"
    and "\<And>s. sh_pending_responses (meanwhile s) = sh_pending_responses s"
  shows "case ws_server_perform lws_pre meanwhile writer s of (result, s') \<Rightarrow>
    result = Inl (Runtime_error ''timeout'') \<and> sh_pending_responses s' (fst (next_id s)) \<noteq> None"
  using assms
  by (simp add: ws_server_perform_def handler_perform_def promise_new_def perform_enqueue_def
      pending_emplace_def await_future_def case_prod_unfold Let_def nth_append)

theorem perform_times_out_witness:
  "case ws_server_perform 16 (\<lambda>s. s) (messagewriter_request 16 request_rmdir) (sample_connected '''') of
    (result, s') \<Rightarrow> result = Inl (Runtime_error ''timeout'') \<and> sh_pending_responses s' 1 \<noteq> None"
proof -
  have "sh_is_authenticated (sample_connected '''')" "fst (next_id (sample_connected '''')) = 1"
    "sh_pending_responses (sample_connected '''') = Map.empty"
    by (simp_all add: sample_connected_def filter_connection_def authenticate_via_header_def
        on_established_eq server_new_def next_id_def)
  then show ?thesis
    using perform_times_out [of "sample_connected ''''" "\<lambda>s. s" 16] by simp
qed

end
