(* ===== verification/Client.thy ===== *)
theory Client
  imports Provider Websocket
begin

text \<open>
  The callback \<^verbatim>\<open>webfuse_client_callback\<close> of \<^verbatim>\<open>ws/client.cpp\<close>: the provider's end of the connection. It
  collects the fragments of a request, runs the handler on the complete message, queues the response
  and writes queued responses when the socket is writable.

  The handler is \<^verbatim>\<open>provider::detail::on_message\<close>; its file system's state is part of the client's
  state. Calls of the connection listener and of libwebsockets are recorded.
\<close>

subsection \<open>State\<close>

record 's client =
  cl_connection :: "wsi option"
  cl_current_message :: "u8 list"
  cl_requests :: "messagewriter list"
  cl_fs :: 's
  cl_listener_calls :: "bool list"
  cl_calls :: "lws_call list"

definition client_new :: "'s \<Rightarrow> 's client" where
  "client_new s = \<lparr>cl_connection = None, cl_current_message = [], cl_requests = [], cl_fs = s,
    cl_listener_calls = [], cl_calls = []\<rparr>"

type_synonym 's client_handler = "('s, messagewriter) reader_out_m"

datatype client_event =
    Cl_established
  | Cl_connection_error
  | Cl_closed
  | Cl_receive "u8 list" bool
  | Cl_writeable
  | Cl_other

definition client_lws :: "lws_call \<Rightarrow> 's client \<Rightarrow> 's client" where
  "client_lws c s = s\<lparr>cl_calls := cl_calls s @ [c]\<rparr>"

definition connection_listener :: "bool \<Rightarrow> 's client \<Rightarrow> 's client" where
  "connection_listener b s = s\<lparr>cl_listener_calls := cl_listener_calls s @ [b]\<rparr>"

subsection \<open>The callback\<close>

text \<open>The two cases in which the connection is gone.\<close>

definition client_disconnected :: "'s client \<Rightarrow> 's client" where
  "client_disconnected s =
    connection_listener False (s\<lparr>cl_connection := None, cl_requests := [], cl_current_message := []\<rparr>)"

text \<open>
  An exception of the handler is caught: there is no response. Its effect on the file system remains.
\<close>

definition client_receive ::
    "'s client_handler \<Rightarrow> wsi \<Rightarrow> u8 list \<Rightarrow> bool \<Rightarrow> ('s client, unit) sm" where
  "client_receive handler w fragment is_final = (\<lambda>s.
    let s = s\<lparr>cl_current_message := cl_current_message s @ fragment\<rparr> in
    if is_final
    then
      (let reader = messagereader_new (cl_current_message s);
           s = s\<lparr>cl_current_message := []\<rparr>
       in case handler (cl_fs s, reader) of
          (Inl e, (fs, _)) \<Rightarrow>
            (if e = Undefined_behaviour then Inl e else Inr (), s\<lparr>cl_fs := fs\<rparr>)
        | (Inr writer, (fs, _)) \<Rightarrow>
            (Inr (), client_lws (Lws_callback_on_writable (Some w))
              (s\<lparr>cl_fs := fs, cl_requests := cl_requests s @ [writer]\<rparr>)))
    else (Inr (), s))"

definition client_writeable :: "nat \<Rightarrow> wsi \<Rightarrow> 's client \<Rightarrow> 's client" where
  "client_writeable lws_pre w s =
    (let s = (case cl_requests s of
          [] \<Rightarrow> s
        | writer # rest \<Rightarrow>
            client_lws (Lws_write (Some w) (get_data lws_pre writer)) (s\<lparr>cl_requests := rest\<rparr>))
     in if cl_requests s \<noteq> [] then client_lws (Lws_callback_on_writable (Some w)) s else s)"

definition webfuse_client_callback ::
    "nat \<Rightarrow> 's client_handler \<Rightarrow> wsi \<Rightarrow> client_event \<Rightarrow> ('s client, unit) sm" where
  "webfuse_client_callback lws_pre handler w reason = (\<lambda>s. case reason of
      Cl_established \<Rightarrow> (Inr (), connection_listener True s)
    | Cl_connection_error \<Rightarrow> (Inr (), client_disconnected s)
    | Cl_closed \<Rightarrow> (Inr (), client_disconnected s)
    | Cl_receive fragment is_final \<Rightarrow> client_receive handler w fragment is_final s
    | Cl_writeable \<Rightarrow> (Inr (), client_writeable lws_pre w s)
    | Cl_other \<Rightarrow> (Inr (), s))"

subsection \<open>Receiving in fragments\<close>

text \<open>The callbacks for the fragments of one message; the last one is final.\<close>

fun receive_fragments :: "'s client_handler \<Rightarrow> wsi \<Rightarrow> u8 list list \<Rightarrow> ('s client, unit) sm" where
  "receive_fragments handler w [] = return_m ()"
| "receive_fragments handler w [f] = client_receive handler w f True"
| "receive_fragments handler w (f # g # fs) =
    bind_m (client_receive handler w f False) (\<lambda>_. receive_fragments handler w (g # fs))"

lemma client_receive_part:
  "client_receive handler w f False s = (Inr (), s\<lparr>cl_current_message := cl_current_message s @ f\<rparr>)"
  by (simp add: client_receive_def)

lemma receive_fragments_eq:
  "fs \<noteq> [] \<Longrightarrow> receive_fragments handler w fs s =
    client_receive handler w (concat fs) True s"
proof (induction handler w fs arbitrary: s rule: receive_fragments.induct)
  case (3 handler w f g fs)
  then show ?case by (simp add: bind_step [OF client_receive_part]) (simp add: client_receive_def)
qed simp_all

text \<open>The only way in which a callback does not return.\<close>

lemma client_receive_error:
  "client_receive handler w f b s = (Inl e, s') \<Longrightarrow> e = Undefined_behaviour"
  by (auto simp: client_receive_def Let_def split: if_splits prod.splits sum.splits)

subsection \<open>Writing\<close>

interpretation client_queue: write_queue
  cl_requests "\<lambda>s. written (cl_calls s)" "client_writeable lws_pre w" "get_data lws_pre" "\<lambda>_. True"
  for lws_pre w
proof
  fix s :: "'a client" and m ms
  show "cl_requests s = [] \<Longrightarrow> client_writeable lws_pre w s = s"
    by (simp add: client_writeable_def)
  show "cl_requests s = m # ms \<Longrightarrow> cl_requests (client_writeable lws_pre w s) = ms \<and>
      written (cl_calls (client_writeable lws_pre w s)) = written (cl_calls s) @ [get_data lws_pre m] \<and> True"
    by (simp add: client_writeable_def client_lws_def Let_def)
qed

text \<open>
  A queued response never waits without the library having been asked to call back: the last call into
  the library asks for it.
\<close>

definition client_armed :: "'s client \<Rightarrow> bool" where
  "client_armed s \<longleftrightarrow>
    (cl_requests s \<noteq> [] \<longrightarrow> cl_calls s \<noteq> [] \<and> (\<exists>w. last (cl_calls s) = Lws_callback_on_writable (Some w)))"

lemma client_armed_receive:
  "client_armed s \<Longrightarrow> client_receive handler w fragment b s = (r, s') \<Longrightarrow> client_armed s'"
  by (auto simp: client_receive_def client_armed_def client_lws_def Let_def split: if_splits prod.splits sum.splits)

lemma client_armed_writeable: "client_armed s \<Longrightarrow> client_armed (client_writeable lws_pre w s)"
  by (cases "cl_requests s") (auto simp: client_writeable_def client_armed_def client_lws_def Let_def)

lemma client_armed_callback:
  assumes "client_armed s" and "webfuse_client_callback lws_pre handler w reason s = (r, s')"
  shows "client_armed s'"
proof (cases reason)
  case (Cl_receive fragment is_final)
  with assms show ?thesis by (auto simp: webfuse_client_callback_def intro: client_armed_receive)
next
  case Cl_writeable
  with assms show ?thesis by (auto simp: webfuse_client_callback_def intro: client_armed_writeable)
qed (use assms in \<open>auto simp: webfuse_client_callback_def client_armed_def connection_listener_def client_disconnected_def\<close>)

lemma client_receive_answer:
  assumes "handler (cl_fs s, messagereader_new (cl_current_message s @ fragment)) = (Inr writer, fs, reader)"
  shows "cl_requests (snd (webfuse_client_callback lws_pre handler w (Cl_receive fragment True) s)) =
    cl_requests s @ [writer]"
  using assms by (simp add: webfuse_client_callback_def client_receive_def client_lws_def Let_def)

text \<open>The states a client gets into by callbacks, for any connection and any handler.\<close>

inductive client_reachable :: "nat \<Rightarrow> 's client_handler \<Rightarrow> 's \<Rightarrow> 's client \<Rightarrow> bool"
  for lws_pre handler fs where
  start: "client_reachable lws_pre handler fs (client_new fs)"
| callback: "client_reachable lws_pre handler fs s \<Longrightarrow>
    webfuse_client_callback lws_pre handler w reason s = (r, s') \<Longrightarrow> client_reachable lws_pre handler fs s'"

subsection \<open>Properties\<close>

text \<open>
  C33. Fragmentation does not matter: a request that arrives in any number of fragments has the same effect
  as the whole message at once.
\<close>

theorem client_fragmentation:
  assumes "concat fs = concat gs" and "fs \<noteq> []" and "gs \<noteq> []"
  shows "receive_fragments handler w fs s = receive_fragments handler w gs s"
  using assms by (simp add: receive_fragments_eq)

theorem client_fragmentation_witness:
  "receive_fragments (on_message 16 uninit_zero (empty_filesystem :: unit filesystem_i)) 3
      [[0, 0], [0, 1, 2], []] (client_new ()) =
   receive_fragments (on_message 16 uninit_zero empty_filesystem) 3 [[0, 0, 0, 1, 2]] (client_new ())"
  by (rule client_fragmentation) simp_all

text \<open>
  Responses leave in the order in which the requests were handled: once the socket was writable often
  enough, exactly the queued responses have been written, oldest first, and none is left.
\<close>

theorem client_writes_in_order:
  assumes "length (cl_requests s) \<le> n"
  shows "cl_requests ((client_writeable lws_pre w ^^ n) s) = [] \<and>
    written (cl_calls ((client_writeable lws_pre w ^^ n) s)) =
      written (cl_calls s) @ map (get_data lws_pre) (cl_requests s)"
  using assms client_queue.drained by blast

theorem client_writes_in_order_witness:
  "let s = (client_new ())\<lparr>cl_requests := [\<lparr>mw_id = 1, mw_data = [0, 7]\<rparr>, \<lparr>mw_id = 2, mw_data = [0, 8]\<rparr>]\<rparr>
   in written (cl_calls ((client_writeable 1 3 ^^ 2) s)) = [[7], [8]]"
  using client_writes_in_order [of "(client_new ())\<lparr>cl_requests :=
      [\<lparr>mw_id = 1, mw_data = [0, 7]\<rparr>, \<lparr>mw_id = 2, mw_data = [0, 8]\<rparr>]\<rparr>" 2 1 3]
  by (simp add: client_new_def get_data_def)

text \<open>
  A lost connection leaves nothing behind: no partial message and no queued response reach the next
  connection, and the listener is told.
\<close>

theorem client_disconnect_resets:
  assumes "reason = Cl_closed \<or> reason = Cl_connection_error"
  shows "\<exists>s'. webfuse_client_callback lws_pre handler w reason s = (Inr (), s') \<and>
    cl_connection s' = None \<and> cl_current_message s' = [] \<and> cl_requests s' = [] \<and>
    cl_fs s' = cl_fs s \<and> cl_listener_calls s' = cl_listener_calls s @ [False]"
  using assms
  by (auto simp: webfuse_client_callback_def client_disconnected_def connection_listener_def)

theorem client_disconnect_resets_witness:
  "\<exists>s'. webfuse_client_callback 16 (on_message 16 uninit_zero (empty_filesystem :: unit filesystem_i)) 3 Cl_closed
      ((client_new ())\<lparr>cl_current_message := [1, 2]\<rparr>) = (Inr (), s') \<and> cl_current_message s' = []"
  using client_disconnect_resets [of Cl_closed 16
      "on_message 16 uninit_zero (empty_filesystem :: unit filesystem_i)" 3
      "(client_new ())\<lparr>cl_current_message := [1, 2]\<rparr>"] by auto

text \<open>
  C23. No response is forgotten: in every reachable state with a queued response, the last call into the
  library is the request for a writable callback, which writes the oldest one.
\<close>

theorem client_never_stalls:
  assumes "client_reachable lws_pre handler fs s" and "cl_requests s \<noteq> []"
  shows "cl_calls s \<noteq> [] \<and> (\<exists>w. last (cl_calls s) = Lws_callback_on_writable (Some w))"
proof -
  have "client_armed s"
    using assms(1)
    by induction (simp add: client_armed_def client_new_def, rule client_armed_callback)
  with assms(2) show ?thesis by (simp add: client_armed_def)
qed

theorem client_never_stalls_witness:
  "\<exists>s. client_reachable 16 (on_message 16 uninit_zero (empty_filesystem :: unit filesystem_i)) () s \<and>
    cl_requests s \<noteq> [] \<and> (\<exists>w. last (cl_calls s) = Lws_callback_on_writable (Some w))"
proof -
  let ?handler = "on_message 16 uninit_zero (empty_filesystem :: unit filesystem_i)"
  let ?message = "header 7 0xff"
  have r: "remaining (messagereader_new ?message) = header 7 0xff @ []" by simp
  obtain writer s' where "?handler ((), messagereader_new ?message) = (Inr writer, s')"
    by (simp add: handled_request [OF r] get_request_type_def handle_request_def return_apply)
  then obtain f rd where
    "?handler (cl_fs (client_new ()), messagereader_new (cl_current_message (client_new ()) @ ?message)) = (Inr writer, f, rd)"
    by (cases s') (simp only: client_new_def client.select_convs append_Nil)
  then have answer: "cl_requests (snd (webfuse_client_callback 16 ?handler 3 (Cl_receive ?message True) (client_new ()))) =
      cl_requests (client_new ()) @ [writer]"
    by (rule client_receive_answer)
  let ?s = "snd (webfuse_client_callback 16 ?handler 3 (Cl_receive ?message True) (client_new ()))"
  have reach: "client_reachable 16 ?handler () ?s"
    by (rule client_reachable.callback [OF client_reachable.start surjective_pairing])
  have queued: "cl_requests ?s \<noteq> []"
    unfolding answer by simp
  show ?thesis
    by (intro exI [of _ ?s] conjI reach queued conjunct2 [OF client_never_stalls [OF reach queued]])
qed

end
