(* ===== verification/System.thy ===== *)
theory System
  imports Filesystem_Proxy Server_Handler Client
begin

text \<open>
  The two programs together: the service's \<^verbatim>\<open>server_handler\<close> and the provider's client, connected by a
  network that delivers every written message whole and in order. \<open>system_perform\<close> is
  \<^verbatim>\<open>ws_server::perform\<close> with one round of the two service loops during the wait. The lemmas show that on
  a connected, authenticated and idle system it behaves as the direct transport \<open>loopback\<close>, and carry
  this over to every operation of the service's file system.
\<close>

subsection \<open>One round over the network\<close>

record 's system =
  sys_server :: server
  sys_client :: "'s client"

text \<open>Messages delivered to the client, one after the other.\<close>

fun deliver_to_client :: "'s client_handler \<Rightarrow> wsi \<Rightarrow> u8 list list \<Rightarrow> ('s client, unit) sm" where
  "deliver_to_client handler w [] = return_m ()"
| "deliver_to_client handler w (d # ds) =
    bind_m (client_receive handler w d True) (\<lambda>_. deliver_to_client handler w ds)"

text \<open>What is written from a certain point on.\<close>

definition new_messages :: "lws_call list \<Rightarrow> lws_call list \<Rightarrow> u8 list list" where
  "new_messages cs cs' = drop (length (written cs)) (written cs')"

text \<open>
  The service thread polls and its socket becomes writable; the client receives what was written and
  writes its responses; the server receives them.
\<close>

definition exchange ::
    "nat \<Rightarrow> 's client_handler \<Rightarrow> server_env \<Rightarrow> wsi \<Rightarrow> wsi \<Rightarrow> ('s system, unit) sm" where
  "exchange lws_pre handler env ws wc = (\<lambda>sys.
    let sv = sys_server sys; cl = sys_client sys;
        sv' = snd (on_writable lws_pre (poll sv))
    in case deliver_to_client handler wc (new_messages (sv_calls sv) (sv_calls sv')) cl of
        (Inl e, cl') \<Rightarrow> (Inl e, \<lparr>sys_server = sv', sys_client = cl'\<rparr>)
      | (Inr _, cl') \<Rightarrow>
          (let cl'' = (client_writeable lws_pre wc ^^ length (cl_requests cl')) cl';
               sv'' = fold (\<lambda>d. on_receive env ws d True) (new_messages (cl_calls cl') (cl_calls cl'')) sv'
           in (Inr (), \<lparr>sys_server = sv'', sys_client = cl''\<rparr>)))"

definition system_perform ::
    "nat \<Rightarrow> 's client_handler \<Rightarrow> server_env \<Rightarrow> wsi \<Rightarrow> wsi \<Rightarrow> 's system perform" where
  "system_perform lws_pre handler env ws wc writer = (\<lambda>sys.
    let (p, sv) = handler_perform lws_pre writer (sys_server sys);
        sv = lws Lws_cancel_service sv
    in case exchange lws_pre handler env ws wc (sys\<lparr>sys_server := sv\<rparr>) of
        (Inl e, sys') \<Rightarrow> (Inl e, sys')
      | (Inr _, sys') \<Rightarrow> (fst (await_future p (sys_server sys')), sys'))"

lemma deliver_error: "deliver_to_client handler w ds s = (Inl e, s') \<Longrightarrow> e = Undefined_behaviour"
proof (induction ds arbitrary: s)
  case (Cons d ds)
  then show ?case
    by (auto simp: bind_m_def dest: client_receive_error split: prod.splits sum.splits)
qed (simp add: return_apply)

lemma exchange_error: "exchange lws_pre handler env ws wc sys = (Inl e, sys') \<Longrightarrow> e = Undefined_behaviour"
  by (auto simp: exchange_def Let_def dest: deliver_error split: prod.splits sum.splits)

text \<open>It is \<^verbatim>\<open>ws_server::perform\<close> with that round as the work of the other threads.\<close>

lemma system_perform_server:
  assumes "system_perform lws_pre handler env ws wc writer sys = (v, sys')"
    and "v \<noteq> Inl Undefined_behaviour"
  shows "ws_server_perform lws_pre
      (\<lambda>sv. sys_server (snd (exchange lws_pre handler env ws wc (sys\<lparr>sys_server := sv\<rparr>)))) writer
      (sys_server sys) = (v, sys_server sys')"
  using assms
  by (auto simp: system_perform_def ws_server_perform_def await_future_def Let_def case_prod_unfold
      dest!: exchange_error [OF prod_eqI, simplified] split: sum.splits)

subsection \<open>An idle system\<close>

definition idle :: "wsi \<Rightarrow> 's system \<Rightarrow> bool" where
  "idle ws sys \<longleftrightarrow> (let sv = sys_server sys; cl = sys_client sys in
    sh_connection sv = Some ws \<and> sh_is_authenticated sv \<and> \<not> sh_shutdown_requested sv \<and>
    sh_requests sv = [] \<and> sh_current_message sv = [] \<and>
    sh_pending_responses sv (fst (next_id sv)) = None \<and>
    cl_current_message cl = [] \<and> cl_requests cl = [])"

text \<open>The server after the request was queued, polled and written.\<close>

definition after_write :: "nat \<Rightarrow> wsi \<Rightarrow> messagewriter \<Rightarrow> server \<Rightarrow> server" where
  "after_write lws_pre ws writer sv =
    (let i = fst (next_id sv); p = length (sv_futures sv) in
     sv\<lparr>sh_id := i, sh_pending_responses := (sh_pending_responses sv)(i \<mapsto> p),
        sv_futures := sv_futures sv @ [Future_waiting],
        sv_calls := sv_calls sv @ [Lws_cancel_service, Lws_callback_on_writable (Some ws),
          Lws_write (Some ws) (get_data lws_pre (set_id lws_pre i writer))]\<rparr>)"

lemma after_write_futures [simp]:
  "sv_futures (after_write lws_pre ws writer sv) = sv_futures sv @ [Future_waiting]"
  by (simp add: after_write_def Let_def)

lemma new_messages_refl [simp]: "new_messages cs cs = []"
  by (simp add: new_messages_def)

lemma perform_and_write:
  assumes "idle ws sys"
  shows "handler_perform lws_pre writer (sys_server sys) = (p, sv) \<Longrightarrow>
    p = length (sv_futures (sys_server sys)) \<and>
    snd (on_writable lws_pre (poll (lws Lws_cancel_service sv))) = after_write lws_pre ws writer (sys_server sys) \<and>
    new_messages (sv_calls (lws Lws_cancel_service sv)) (sv_calls (after_write lws_pre ws writer (sys_server sys))) =
      [get_data lws_pre (set_id lws_pre (fst (next_id (sys_server sys))) writer)]"
  using assms
  by (auto simp: idle_def Let_def handler_perform_def promise_new_def perform_enqueue_def
      pending_emplace_def case_prod_unfold poll_def on_writable_def lws_def after_write_def
      new_messages_def next_id_eq)

text \<open>The client answers one message.\<close>

lemma client_answers:
  assumes "cl_current_message cl = []" and "cl_requests cl = []"
    and "handler (cl_fs cl, messagereader_new d) = (Inr writer, (fs', r'))"
  shows "\<exists>cl'. deliver_to_client handler wc [d] cl = (Inr (), cl') \<and> length (cl_requests cl') = 1 \<and>
    (let cl'' = client_writeable lws_pre wc cl' in
      new_messages (cl_calls cl') (cl_calls cl'') = [get_data lws_pre writer] \<and>
      cl_current_message cl'' = [] \<and> cl_requests cl'' = [] \<and> cl_fs cl'' = fs')"
  using assms
  by (simp add: client_receive_def Let_def bind_m_def return_apply client_lws_def client_writeable_def
      new_messages_def)

lemma client_silent:
  assumes "cl_current_message cl = []" and "cl_requests cl = []"
    and "handler (cl_fs cl, messagereader_new d) = (Inl e, (fs', r'))"
  shows "deliver_to_client handler wc [d] cl =
    (if e = Undefined_behaviour then Inl e else Inr (), cl\<lparr>cl_fs := fs'\<rparr>)"
  using assms by (simp add: client_receive_def Let_def bind_m_def return_apply)

text \<open>The server receives the response.\<close>

lemma after_write_receive:
  assumes "idle ws sys" and "c \<noteq> response_code response_getcreds"
    and "i = fst (next_id (sys_server sys))"
  shows "on_receive env ws (header i c @ payload) True (after_write lws_pre ws writer (sys_server sys)) =
    (after_write lws_pre ws writer (sys_server sys))
      \<lparr>sv_futures := sv_futures (sys_server sys) @
          [Future_value (advance 5 (messagereader_new (header i c @ payload)))],
       sh_pending_responses := sh_pending_responses (sys_server sys)\<rparr>"
proof -
  let ?sv = "sys_server sys"
  have "sh_pending_responses ?sv i = None" using assms by (simp add: idle_def Let_def)
  then have "(sh_pending_responses ?sv)(i := None) = sh_pending_responses ?sv" by auto
  then show ?thesis
    using assms
    by (simp add: on_receive_def Let_def process_message_header deliver_response_def promise_set_def
        after_write_def idle_def)
qed

lemma getcreds_only: "t \<noteq> request_getcreds \<Longrightarrow> request_code t OR 0x80 \<noteq> response_code response_getcreds"
  by (cases t) simp_all

text \<open>
  On an idle system a request is answered as by the direct transport, with the next id; afterwards the
  connection is idle again, up to the id counter and, after a timeout, the entry of the lost request.
\<close>

lemma system_perform_loopback:
  assumes idle: "idle ws sys" and t: "t \<noteq> request_getcreds"
    and sys': "system_perform lws_pre (on_message lws_pre un fs) env ws wc (request_message lws_pre t body) sys =
      (v, sys')"
  shows "loopback lws_pre un fs (fst (next_id (sys_server sys))) (request_message lws_pre t body)
      (cl_fs (sys_client sys)) = (v, cl_fs (sys_client sys'))"
proof -
  let ?sv = "sys_server sys" and ?cl = "sys_client sys" and ?req = "request_message lws_pre t body"
  let ?i = "fst (next_id ?sv)" and ?h = "on_message lws_pre un fs"
  let ?aw = "after_write lws_pre ws ?req ?sv" and ?d = "header ?i (request_code t) @ body"
  obtain p sv where p: "handler_perform lws_pre ?req ?sv = (p, sv)"
    by (cases "handler_perform lws_pre ?req ?sv")
  have w: "p = length (sv_futures ?sv)" "snd (on_writable lws_pre (poll (lws Lws_cancel_service sv))) = ?aw"
    "new_messages (sv_calls (lws Lws_cancel_service sv)) (sv_calls ?aw) = [?d]"
    using perform_and_write [OF idle p] by (simp_all add: set_id_request)
  have cl: "cl_current_message ?cl = []" "cl_requests ?cl = []"
    using idle by (simp_all add: idle_def Let_def)
  obtain u fs' r' where h: "?h (cl_fs ?cl, messagereader_new ?d) = (u, (fs', r'))"
    by (metis prod.exhaust)
  show ?thesis
  proof (cases u)
    case (Inl e)
    have "v = Inl (no_response e) \<and> cl_fs (sys_client sys') = fs'"
      using sys' client_silent [of ?cl ?h ?d e fs' r' wc, OF cl h [unfolded Inl]] p w cl
      by (auto simp: system_perform_def exchange_def Let_def no_response_def await_future_def
          nth_append split: if_splits)
    then show ?thesis using h Inl by (simp add: loopback_def set_id_request)
  next
    case (Inr writer)
    obtain c payload where c: "get_data lws_pre writer = header ?i c @ payload"
        "c \<noteq> response_code response_getcreds"
      using handled_response [OF h [unfolded Inr]] getcreds_only [OF t] by auto
    from client_answers [of ?cl ?h ?d writer fs' r' wc lws_pre, OF cl h [unfolded Inr]] obtain cl' where
      cl': "deliver_to_client ?h wc [?d] ?cl = (Inr (), cl')" "length (cl_requests cl') = 1"
        "new_messages (cl_calls cl') (cl_calls (client_writeable lws_pre wc cl')) = [header ?i c @ payload]"
        "cl_fs (client_writeable lws_pre wc cl') = fs'"
      unfolding Let_def c(1) by blast
    have "v = Inr (advance 5 (messagereader_new (header ?i c @ payload))) \<and> cl_fs (sys_client sys') = fs'"
      using sys' p w cl' after_write_receive [OF idle c(2) refl]
      by (auto simp: system_perform_def exchange_def Let_def await_future_def nth_append)
    then show ?thesis using h Inr c(1) by (simp add: loopback_def set_id_request strip_header_eq)
  qed
qed

text \<open>After an answered request the system is idle again.\<close>

lemma system_perform_idle:
  assumes idle: "idle ws sys" and pending: "sh_pending_responses (sys_server sys) = Map.empty"
    and t: "t \<noteq> request_getcreds"
    and sys': "system_perform lws_pre (on_message lws_pre un fs) env ws wc (request_message lws_pre t body) sys =
      (Inr reader, sys')"
  shows "idle ws sys' \<and> sh_pending_responses (sys_server sys') = Map.empty"
proof -
  let ?sv = "sys_server sys" and ?cl = "sys_client sys" and ?req = "request_message lws_pre t body"
  let ?i = "fst (next_id ?sv)" and ?h = "on_message lws_pre un fs"
  let ?aw = "after_write lws_pre ws ?req ?sv" and ?d = "header ?i (request_code t) @ body"
  obtain p sv where p: "handler_perform lws_pre ?req ?sv = (p, sv)"
    by (cases "handler_perform lws_pre ?req ?sv")
  have w: "snd (on_writable lws_pre (poll (lws Lws_cancel_service sv))) = ?aw"
    "new_messages (sv_calls (lws Lws_cancel_service sv)) (sv_calls ?aw) = [?d]"
    using perform_and_write [OF idle p] by (simp_all add: set_id_request)
  have cl: "cl_current_message ?cl = []" "cl_requests ?cl = []"
    using idle by (simp_all add: idle_def Let_def)
  have "\<exists>s'. loopback lws_pre un fs ?i ?req (cl_fs ?cl) = (Inr reader, s')"
    using system_perform_loopback [OF idle t sys'] by blast
  then obtain writer fs' r' where h: "?h (cl_fs ?cl, messagereader_new ?d) = (Inr writer, (fs', r'))"
    by (auto simp: loopback_def set_id_request split: prod.splits sum.splits)
  obtain c payload where c: "get_data lws_pre writer = header ?i c @ payload"
      "c \<noteq> response_code response_getcreds"
    using handled_response [OF h] getcreds_only [OF t] by auto
  from client_answers [of ?cl ?h ?d writer fs' r' wc lws_pre, OF cl h] obtain cl' where
    cl': "deliver_to_client ?h wc [?d] ?cl = (Inr (), cl')" "length (cl_requests cl') = 1"
      "new_messages (cl_calls cl') (cl_calls (client_writeable lws_pre wc cl')) = [header ?i c @ payload]"
      "cl_current_message (client_writeable lws_pre wc cl') = []"
      "cl_requests (client_writeable lws_pre wc cl') = []"
    unfolding Let_def c(1) by blast
  have "sys' = \<lparr>sys_server = on_receive env ws (header ?i c @ payload) True ?aw,
      sys_client = client_writeable lws_pre wc cl'\<rparr>"
    using sys' p w cl' by (auto simp: system_perform_def exchange_def Let_def)
  then show ?thesis
    using idle pending cl' unfolding after_write_receive [OF idle c(2) refl]
    by (simp add: idle_def Let_def after_write_def)
qed

subsection \<open>The operations of the file system over the system\<close>

text \<open>\<open>\<pi>\<close> maps the states of one transport to those of another that gives the same answers.\<close>

definition same_answer :: "('p \<Rightarrow> 'q) \<Rightarrow> 'p \<Rightarrow> ('p, 'a) sm \<Rightarrow> ('q, 'a) sm \<Rightarrow> bool" where
  "same_answer \<pi> p m1 m2 \<longleftrightarrow> (case m1 p of (v, p') \<Rightarrow> m2 (\<pi> p) = (v, \<pi> p'))"

lemma same_answer_status:
  assumes "same_answer \<pi> p (perform1 req) (perform2 req)"
  shows "same_answer \<pi> p (try_catch (bind_m (perform1 req) (of_reader rd)) (return_m d))
    (try_catch (bind_m (perform2 req) (of_reader rd)) (return_m d))"
  using assms
  by (auto simp: same_answer_def try_catch_def bind_m_def of_reader_def return_apply
      split: prod.splits sum.splits)

lemma same_answer_value:
  assumes "same_answer \<pi> p (perform1 req) (perform2 req)"
  shows "same_answer \<pi> p
    (with_out obj (try_catch (bind_m (call_proxy (perform1 req)) (on_reader rd)) (fall_back f)))
    (with_out obj (try_catch (bind_m (call_proxy (perform2 req)) (on_reader rd)) (fall_back f)))"
  using assms
  by (auto simp: same_answer_def with_out_def try_catch_def bind_m_def call_proxy_def on_reader_def
      fall_back_def split: prod.splits sum.splits)

lemma filesystem_same_answer:
  assumes same: "\<And>t body. t \<noteq> request_getcreds \<Longrightarrow>
      same_answer \<pi> p (perform1 (request_message lws_pre t body)) (perform2 (request_message lws_pre t body))"
    and n: "n \<le> length data"
  shows
    "same_answer \<pi> p (filesystem_access lws_pre perform1 path mode)
      (filesystem_access lws_pre perform2 path mode)"
    "same_answer \<pi> p (filesystem_symlink lws_pre perform1 target linkpath)
      (filesystem_symlink lws_pre perform2 target linkpath)"
    "same_answer \<pi> p (filesystem_link lws_pre perform1 old_path new_path)
      (filesystem_link lws_pre perform2 old_path new_path)"
    "same_answer \<pi> p (filesystem_rename lws_pre perform1 old_path new_path flags)
      (filesystem_rename lws_pre perform2 old_path new_path flags)"
    "same_answer \<pi> p (filesystem_chmod lws_pre perform1 path fmode)
      (filesystem_chmod lws_pre perform2 path fmode)"
    "same_answer \<pi> p (filesystem_chown lws_pre perform1 path uid gid)
      (filesystem_chown lws_pre perform2 path uid gid)"
    "same_answer \<pi> p (filesystem_truncate lws_pre perform1 path len handle)
      (filesystem_truncate lws_pre perform2 path len handle)"
    "same_answer \<pi> p (filesystem_fsync lws_pre perform1 path is_datasync handle)
      (filesystem_fsync lws_pre perform2 path is_datasync handle)"
    "same_answer \<pi> p (filesystem_utimens lws_pre perform1 path tv handle)
      (filesystem_utimens lws_pre perform2 path tv handle)"
    "same_answer \<pi> p (filesystem_mknod lws_pre perform1 path fmode rdev)
      (filesystem_mknod lws_pre perform2 path fmode rdev)"
    "same_answer \<pi> p (filesystem_release lws_pre perform1 path handle)
      (filesystem_release lws_pre perform2 path handle)"
    "same_answer \<pi> p (filesystem_unlink lws_pre perform1 path)
      (filesystem_unlink lws_pre perform2 path)"
    "same_answer \<pi> p (filesystem_write lws_pre perform1 path data n offset handle)
      (filesystem_write lws_pre perform2 path data n offset handle)"
    "same_answer \<pi> p (filesystem_mkdir lws_pre perform1 path fmode)
      (filesystem_mkdir lws_pre perform2 path fmode)"
    "same_answer \<pi> p (filesystem_rmdir lws_pre perform1 path)
      (filesystem_rmdir lws_pre perform2 path)"
    "same_answer \<pi> p (filesystem_getattr lws_pre perform1 path attr)
      (filesystem_getattr lws_pre perform2 path attr)"
    "same_answer \<pi> p (filesystem_readlink lws_pre perform1 path out)
      (filesystem_readlink lws_pre perform2 path out)"
    "same_answer \<pi> p (filesystem_open lws_pre perform1 path flags handle)
      (filesystem_open lws_pre perform2 path flags handle)"
    "same_answer \<pi> p (filesystem_create lws_pre perform1 path fmode handle)
      (filesystem_create lws_pre perform2 path fmode handle)"
    "same_answer \<pi> p (filesystem_read lws_pre perform1 path buffer buffer_size offset handle)
      (filesystem_read lws_pre perform2 path buffer buffer_size offset handle)"
    "same_answer \<pi> p (filesystem_readdir lws_pre perform1 path entries)
      (filesystem_readdir lws_pre perform2 path entries)"
    "same_answer \<pi> p (filesystem_statfs lws_pre perform1 path statistics)
      (filesystem_statfs lws_pre perform2 path statistics)"
  unfolding filesystem_access_def filesystem_symlink_def filesystem_link_def filesystem_rename_def filesystem_chmod_def filesystem_chown_def filesystem_truncate_def filesystem_fsync_def filesystem_utimens_def filesystem_mknod_def filesystem_release_def filesystem_unlink_def filesystem_write_def filesystem_mkdir_def filesystem_rmdir_def filesystem_getattr_def filesystem_readlink_def filesystem_open_def filesystem_create_def filesystem_read_def filesystem_readdir_def filesystem_statfs_def Let_def
    write_str_append write_access_mode_append write_rename_flags_append write_mode_append
    write_uid_append write_gid_append write_u64_append write_u32_append write_bool_append
    write_time_append write_openflags_append write_data_append [OF n] append_data_append request_append
  by (rule same_answer_status same_answer_value, rule same, simp)+

lemma system_same_answer:
  assumes "idle ws sys" and "t \<noteq> request_getcreds"
  shows "same_answer (\<lambda>sys. cl_fs (sys_client sys)) sys
    (system_perform lws_pre (on_message lws_pre un fs) env ws wc (request_message lws_pre t body))
    (loopback lws_pre un fs (fst (next_id (sys_server sys))) (request_message lws_pre t body))"
  using system_perform_loopback [OF assms] by (simp add: same_answer_def split: prod.splits)

subsection \<open>A sample system\<close>

definition sample_system :: "unit system" where
  "sample_system = \<lparr>sys_server = sample_connected '''', sys_client = client_new ()\<rparr>"

lemma sample_system_idle: "idle 5 sample_system"
  by (simp add: sample_system_def idle_def sample_connected_def filter_connection_def
      authenticate_via_header_def on_established_eq server_new_def next_id_def client_new_def)

subsection \<open>Properties\<close>

text \<open>
  One request over both programs and the network, on a connected, authenticated and idle system: the
  outcome of \<^verbatim>\<open>ws_server::perform\<close> and the effect on the provider's file system are those of handing the
  request to the provider's handler directly and reading its response; when the handler throws, the
  service runs into the timeout.
\<close>

theorem system_perform_is_direct:
  assumes "idle ws sys" and "t \<noteq> request_getcreds"
    and "system_perform lws_pre (on_message lws_pre un fs) env ws wc
      (append_data body (messagewriter_request lws_pre t)) sys = (v, sys')"
  shows "loopback lws_pre un fs (fst (next_id (sys_server sys)))
      (append_data body (messagewriter_request lws_pre t)) (cl_fs (sys_client sys)) =
    (v, cl_fs (sys_client sys'))"
  using assms unfolding request_append by (rule system_perform_loopback)

theorem system_perform_is_direct_witness:
  "\<exists>v sys'. system_perform 16 (on_message 16 uninit_zero empty_filesystem) null_env 5 3
      (append_data (enc_str ''/'') (messagewriter_request 16 request_rmdir)) sample_system = (v, sys') \<and>
    loopback 16 uninit_zero empty_filesystem (fst (next_id (sys_server sample_system)))
      (append_data (enc_str ''/'') (messagewriter_request 16 request_rmdir)) (cl_fs (sys_client sample_system)) =
      (v, cl_fs (sys_client sys'))"
proof -
  let ?r = "system_perform 16 (on_message 16 uninit_zero empty_filesystem) null_env 5 3
      (append_data (enc_str ''/'') (messagewriter_request 16 request_rmdir)) sample_system"
  show ?thesis
    using system_perform_is_direct [OF sample_system_idle, of request_rmdir 16 uninit_zero
        empty_filesystem null_env 3 "enc_str ''/''" "fst ?r" "snd ?r"]
    by (intro exI [of _ "fst ?r"] exI [of _ "snd ?r"]) simp
qed

text \<open>
  C3. Every operation of the service's file system, on such a system, returns what it returns over the
  direct transport, and has the same effect on the provider's file system.
\<close>

theorem system_refines_loopback:
  assumes "idle ws sys" and "n \<le> length data"
    and "perform = system_perform lws_pre (on_message lws_pre un fs) env ws wc"
    and "direct = loopback lws_pre un fs (fst (next_id (sys_server sys)))"
    and "\<pi> = (\<lambda>sys. cl_fs (sys_client sys))"
  shows
    "same_answer \<pi> sys (filesystem_access lws_pre perform path mode)
        (filesystem_access lws_pre direct path mode) \<and>
    same_answer \<pi> sys (filesystem_symlink lws_pre perform target linkpath)
        (filesystem_symlink lws_pre direct target linkpath) \<and>
    same_answer \<pi> sys (filesystem_link lws_pre perform old_path new_path)
        (filesystem_link lws_pre direct old_path new_path) \<and>
    same_answer \<pi> sys (filesystem_rename lws_pre perform old_path new_path flags)
        (filesystem_rename lws_pre direct old_path new_path flags) \<and>
    same_answer \<pi> sys (filesystem_chmod lws_pre perform path fmode)
        (filesystem_chmod lws_pre direct path fmode) \<and>
    same_answer \<pi> sys (filesystem_chown lws_pre perform path uid gid)
        (filesystem_chown lws_pre direct path uid gid) \<and>
    same_answer \<pi> sys (filesystem_truncate lws_pre perform path len handle)
        (filesystem_truncate lws_pre direct path len handle) \<and>
    same_answer \<pi> sys (filesystem_fsync lws_pre perform path is_datasync handle)
        (filesystem_fsync lws_pre direct path is_datasync handle) \<and>
    same_answer \<pi> sys (filesystem_utimens lws_pre perform path tv handle)
        (filesystem_utimens lws_pre direct path tv handle) \<and>
    same_answer \<pi> sys (filesystem_mknod lws_pre perform path fmode rdev)
        (filesystem_mknod lws_pre direct path fmode rdev) \<and>
    same_answer \<pi> sys (filesystem_release lws_pre perform path handle)
        (filesystem_release lws_pre direct path handle) \<and>
    same_answer \<pi> sys (filesystem_unlink lws_pre perform path)
        (filesystem_unlink lws_pre direct path) \<and>
    same_answer \<pi> sys (filesystem_write lws_pre perform path data n offset handle)
        (filesystem_write lws_pre direct path data n offset handle) \<and>
    same_answer \<pi> sys (filesystem_mkdir lws_pre perform path fmode)
        (filesystem_mkdir lws_pre direct path fmode) \<and>
    same_answer \<pi> sys (filesystem_rmdir lws_pre perform path)
        (filesystem_rmdir lws_pre direct path) \<and>
    same_answer \<pi> sys (filesystem_getattr lws_pre perform path attr)
        (filesystem_getattr lws_pre direct path attr) \<and>
    same_answer \<pi> sys (filesystem_readlink lws_pre perform path out)
        (filesystem_readlink lws_pre direct path out) \<and>
    same_answer \<pi> sys (filesystem_open lws_pre perform path flags handle)
        (filesystem_open lws_pre direct path flags handle) \<and>
    same_answer \<pi> sys (filesystem_create lws_pre perform path fmode handle)
        (filesystem_create lws_pre direct path fmode handle) \<and>
    same_answer \<pi> sys (filesystem_read lws_pre perform path buffer buffer_size offset handle)
        (filesystem_read lws_pre direct path buffer buffer_size offset handle) \<and>
    same_answer \<pi> sys (filesystem_readdir lws_pre perform path entries)
        (filesystem_readdir lws_pre direct path entries) \<and>
    same_answer \<pi> sys (filesystem_statfs lws_pre perform path statistics)
        (filesystem_statfs lws_pre direct path statistics)"
  unfolding assms(3-5)
  by (intro conjI filesystem_same_answer [where n = n and data = data] system_same_answer assms(1,2))

theorem system_refines_loopback_witness:
  "idle 5 sample_system \<and>
   same_answer (\<lambda>sys. cl_fs (sys_client sys)) sample_system
    (filesystem_rmdir 16 (system_perform 16 (on_message 16 uninit_zero empty_filesystem) null_env 5 3) ''/x'')
    (filesystem_rmdir 16 (loopback 16 uninit_zero empty_filesystem (fst (next_id (sys_server sample_system)))) ''/x'')"
  using system_refines_loopback [OF sample_system_idle _ refl refl refl, of 0 "''''" 16 uninit_zero
      empty_filesystem null_env 3]
  by (simp add: sample_system_idle)

text \<open>
  After an answered request the system is idle again, with nothing pending: every operation starts
  from the state the theorems above assume, for as long as the provider answers.
\<close>

theorem system_stays_idle:
  assumes "idle ws sys" and "sh_pending_responses (sys_server sys) = Map.empty"
    and "t \<noteq> request_getcreds"
    and "system_perform lws_pre (on_message lws_pre un fs) env ws wc
      (append_data body (messagewriter_request lws_pre t)) sys = (Inr reader, sys')"
  shows "idle ws sys' \<and> sh_pending_responses (sys_server sys') = Map.empty"
  using assms unfolding request_append by (rule system_perform_idle)

theorem system_stays_idle_witness:
  "\<exists>reader sys'. system_perform 16 (on_message 16 uninit_zero (empty_filesystem :: unit filesystem_i)) null_env 5 3
      (append_data (enc_str ''/'') (messagewriter_request 16 request_rmdir)) sample_system = (Inr reader, sys') \<and>
    idle 5 sys'"
proof -
  let ?req = "append_data (enc_str ''/'') (messagewriter_request 16 request_rmdir)"
  let ?perform = "system_perform 16 (on_message 16 uninit_zero (empty_filesystem :: unit filesystem_i)) null_env 5 3"
  obtain v sys' where v: "?perform ?req sample_system = (v, sys')" by (cases "?perform ?req sample_system")
  have e: "fsi_rmdir (empty_filesystem :: unit filesystem_i) ''/'' = return_m (- EPERM)"
    by (simp add: empty_filesystem_def empty_rmdir_def)
  have "provider_serve 16 uninit_zero (empty_filesystem :: unit filesystem_i) i request_rmdir (enc_str ''/'') =
      answer_status (fsi_rmdir empty_filesystem ''/'')" for i
    by (rule loop_fs.serve_rmdir) (simp add: str_ok_def)
  then have "provider_serve 16 uninit_zero (empty_filesystem :: unit filesystem_i) i request_rmdir (enc_str ''/'') () =
      (Inr (be_bytes 4 (- EPERM)), ())" for i
    by (simp add: e answer_status_def return_apply)
  from loop.perform_answer [OF this [of "fst (next_id (sys_server sample_system))"]]
  have "\<exists>reader. v = Inr reader"
    using system_perform_loopback [OF sample_system_idle _ v [unfolded request_append]]
    by (auto simp: request_append)
  then obtain reader where "v = Inr reader" by blast
  moreover have "sh_pending_responses (sys_server sample_system) = Map.empty"
    by (simp add: sample_system_def sample_connected_def filter_connection_def
        authenticate_via_header_def on_established_eq server_new_def)
  ultimately show ?thesis
    using system_stays_idle [OF sample_system_idle _ _ v [unfolded \<open>v = Inr reader\<close>]] v by auto
qed

end
