(* ===== verification/Server_Correlation.thy ===== *)
theory Server_Correlation
  imports Server_Handler
begin

text \<open>
  Which response a caller of \<^verbatim>\<open>perform\<close> can get, over every interleaving of the threads of the service.
  The transition system of \<^verbatim>\<open>server_handler\<close> is extended by a ghost: the id under which the call that
  owns a promise sent its request. The ghost is written by the critical section of \<^verbatim>\<open>perform\<close> (raced by a new
  connection or not) and by nothing else; every run of the service has exactly such a history.
\<close>

subsection \<open>The history of ids\<close>

type_synonym history = "promise \<rightharpoonup> u32"

inductive history_step ::
    "nat \<Rightarrow> server_env set \<Rightarrow> server_state \<times> history \<Rightarrow> server_state \<times> history \<Rightarrow> bool"
  for lws_pre envs where
  sent: "(p, writer) \<in> set ps \<Longrightarrow>
    history_step lws_pre envs ((s, ps), ids)
      ((perform_enqueue lws_pre writer p s, remove1 (p, writer) ps), ids(p \<mapsto> fst (next_id s)))"
| sent_raced: "sv_establishing s = None \<Longrightarrow> sh_connection s = None \<Longrightarrow> (p, writer) \<in> set ps \<Longrightarrow>
    history_step lws_pre envs ((s, ps), ids)
      ((enqueue_raced lws_pre r w writer p s, remove1 (p, writer) ps), ids(p \<mapsto> fst (next_id_raced r (sh_id s))))"
| other: "server_step lws_pre envs (s, ps) (s', ps') \<Longrightarrow> length ps \<le> length ps' \<Longrightarrow>
    history_step lws_pre envs ((s, ps), ids) ((s', ps'), ids)"

inductive history_reachable ::
    "nat \<Rightarrow> server_env set \<Rightarrow> string \<Rightarrow> string \<Rightarrow> server_state \<times> history \<Rightarrow> bool"
  for lws_pre envs app hdr where
  start: "history_reachable lws_pre envs app hdr ((server_new app hdr, []), Map.empty)"
| step: "history_reachable lws_pre envs app hdr h \<Longrightarrow> history_step lws_pre envs h h' \<Longrightarrow>
    history_reachable lws_pre envs app hdr h'"

lemma history_step_server: "history_step lws_pre envs h h' \<Longrightarrow> server_step lws_pre envs (fst h) (fst h')"
  by (induction rule: history_step.induct) (simp_all add: step_locked step_raced)

lemma history_server:
  "history_reachable lws_pre envs app hdr h \<Longrightarrow> server_reachable lws_pre envs app hdr (fst h)"
proof (induction rule: history_reachable.induct)
  case start
  show ?case by (simp add: server_reachable.start)
next
  case (step h h')
  then show ?case using history_step_server server_reachable.step by blast
qed

text \<open>Every step of the service has a history step, so no run is left out.\<close>

lemma server_step_history:
  assumes "server_step lws_pre envs st st'"
  shows "\<exists>ids'. history_step lws_pre envs (st, ids) (st', ids')"
proof (cases "length (snd st) \<le> length (snd st')")
  case True
  then show ?thesis using assms history_step.other by (metis surjective_pairing)
next
  case False
  with assms show ?thesis
    by (induction rule: server_step_induct) (auto intro: history_step.sent history_step.sent_raced simp: promise_new_def)
qed

lemma server_history:
  assumes "server_reachable lws_pre envs app hdr st"
  shows "\<exists>ids. history_reachable lws_pre envs app hdr (st, ids)"
  using assms
proof (induction rule: server_reachable.induct)
  case start
  show ?case using history_reachable.start by blast
next
  case (step st st')
  then show ?case using server_step_history history_reachable.step by meson
qed

subsection \<open>The invariant\<close>

text \<open>
  A pending promise waits under the id of its request, and a satisfied one holds a complete message
  with that id in its header.
\<close>

definition answered_as :: "u32 \<Rightarrow> messagereader \<Rightarrow> bool" where
  "answered_as i r \<longleftrightarrow> (\<exists>c payload. c \<noteq> response_code response_getcreds \<and>
    r = advance 5 (messagereader_new (header i c @ payload)))"

definition correlated :: "future list \<Rightarrow> (u32 \<rightharpoonup> promise) \<Rightarrow> history \<Rightarrow> bool" where
  "correlated fs m ids \<longleftrightarrow>
    (\<forall>i p. m i = Some p \<longrightarrow> ids p = Some i) \<and>
    (\<forall>p r. p < length fs \<longrightarrow> fs ! p = Future_value r \<longrightarrow>
      (\<exists>i. ids p = Some i \<and> answered_as i r))"

definition history_ok :: "server_state \<times> history \<Rightarrow> bool" where
  "history_ok h = correlated (sv_futures (fst (fst h))) (sh_pending_responses (fst (fst h))) (snd h)"

lemma nth_update_in: "q < length xs \<Longrightarrow> xs[p := x] ! q = (if p = q then x else xs ! q)"
  by (cases "p = q") simp_all

lemma correlated_deliver:
  "correlated fs m ids \<Longrightarrow> m i = Some p \<Longrightarrow> answered_as i r \<Longrightarrow>
    correlated (fs[p := Future_value r]) (m(i := None)) ids"
  unfolding correlated_def by (auto simp: nth_update_in split: if_splits)

lemma correlated_append:
  "correlated fs m ids \<Longrightarrow> (\<And>r. f \<noteq> Future_value r) \<Longrightarrow> correlated (fs @ [f]) m ids"
  unfolding correlated_def by (auto simp: nth_append less_Suc_eq)

lemma break_value [simp]: "break_future f = Future_value r \<longleftrightarrow> f = Future_value r"
  by (cases f) (simp_all add: break_future_def)

lemma correlated_clear:
  "correlated fs m ids \<Longrightarrow>
    correlated (map (\<lambda>p. if p \<in> ran m then break_future (fs ! p) else fs ! p) [0..<length fs]) Map.empty ids"
  unfolding correlated_def by (auto split: if_splits)

text \<open>The promise that is sent waits, so the history may name its id.\<close>

lemma correlated_sent:
  "correlated fs m ids \<Longrightarrow> fs ! p = Future_waiting \<Longrightarrow> (\<forall>i. m i \<noteq> Some p) \<Longrightarrow> m i = None \<Longrightarrow>
    correlated fs (m(i \<mapsto> p)) (ids(p \<mapsto> i))"
  unfolding correlated_def by auto

lemma correlated_lost:
  "correlated fs m ids \<Longrightarrow> fs ! p = Future_waiting \<Longrightarrow> (\<forall>i. m i \<noteq> Some p) \<Longrightarrow>
    correlated (fs[p := break_future (fs ! p)]) m (ids(p \<mapsto> i))"
  unfolding correlated_def by (auto simp: nth_update_in split: if_splits)

lemma history_ok_same:
  "history_ok ((s, ps), ids) \<Longrightarrow> same_promises s s' \<Longrightarrow> history_ok ((s', ps'), ids)"
  by (simp add: history_ok_def same_promises_def)

lemma history_ok_process:
  assumes "promises_ok (s, ps)" and "history_ok ((s, ps), ids)"
  shows "history_ok ((snd (process_message env w message s), ps), ids)"
proof (cases "5 \<le> length message")
  case True
  then obtain i c payload where m: "message = header i c @ payload" using message_header by blast
  let ?r = "advance 5 (messagereader_new (header i c @ payload))"
  have "history_ok ((snd (deliver_response i ?r s), ps), ids)" if "c \<noteq> response_code response_getcreds"
  proof (cases "sh_pending_responses s i")
    case None
    then show ?thesis using assms(2) by (simp add: deliver_missing)
  next
    case (Some p)
    have "answered_as i ?r" using that by (auto simp: answered_as_def)
    with Some show ?thesis
      using correlated_deliver [where m = "sh_pending_responses s" and i = i] assms(2)
      by (simp add: deliver_found [OF assms(1)] history_ok_def)
  qed
  then show ?thesis
    using history_ok_same [OF assms(2) same_finish] by (simp add: m process_message_header Let_def)
next
  case False
  then show ?thesis using assms(2) by (simp add: process_message_short)
qed

lemma history_ok_callback:
  assumes "promises_ok (s, ps)" and "history_ok ((s, ps), ids)"
  shows "history_ok ((snd (ws_server_callback lws_pre env reason s), ps), ids)"
proof (cases "\<exists>w b. reason = Ev_receive w b True")
  case True
  then obtain w b where r: "reason = Ev_receive w b True" by blast
  have same: "same_promises s (s\<lparr>sh_current_message := []\<rparr>)" by (simp add: same_promises_def)
  show ?thesis
    using history_ok_process [OF promises_ok_same [OF assms(1) same] history_ok_same [OF assms(2) same]]
    by (simp add: r ws_server_callback_def on_receive_def)
next
  case False
  then show ?thesis using history_ok_same [OF assms(2) same_callback] by blast
qed

lemma history_ok_poll: "history_ok ((s, ps), ids) \<Longrightarrow> history_ok ((poll s, ps), ids)"
  by (auto simp: poll_def history_ok_def pending_clear_def correlated_clear split: option.splits
      cong: if_cong)

lemma history_ok_emplace:
  assumes "promises_ok (s, ps)" and "history_ok ((s, ps), ids)" and p: "(p, writer) \<in> set ps" and "same_promises s s'"
  shows "history_ok ((pending_emplace i p s', ps'), ids(p \<mapsto> i))"
proof -
  let ?m = "sh_pending_responses s" and ?fs = "sv_futures s"
  have ok: "correlated ?fs ?m ids" using assms(2) by (simp add: history_ok_def)
  have "p \<in> set (map fst ps)" using p by force
  then have w: "?fs ! p = Future_waiting" "\<forall>i. ?m i \<noteq> Some p"
    using assms(1) by (auto simp: promises_ok_def owned_ok_def)
  show ?thesis
    using correlated_sent [OF ok w, of i] correlated_lost [OF ok w, of i] assms(4)
    by (simp add: history_ok_def same_promises_def pending_emplace_def promise_destroy_def split: option.splits)
qed

text \<open>A step that takes no call from in front of the lock leaves the history alone.\<close>

lemma history_ok_other:
  assumes "server_step lws_pre envs st st'" and "length (snd st) \<le> length (snd st')"
    and "promises_ok st" and "history_ok (st, ids)"
  shows "history_ok (st', ids)"
  using assms
proof (induction rule: server_step_induct)
  case (interrupted s w ps)
  then show ?case using history_ok_same same_established(1) by blast
next
  case (resumed s w ps)
  then show ?case using history_ok_same same_established(2) by blast
next
  case (locked p writer ps s)
  then have False using length_pos_if_in_set [of "(p, writer)" ps] by (simp add: length_remove1 del: length_greater_0_conv)
  then show ?case ..
next
  case (raced s p writer ps r w)
  then have False using length_pos_if_in_set [of "(p, writer)" ps] by (simp add: length_remove1 del: length_greater_0_conv)
  then show ?case ..
qed (simp_all add: history_ok_callback history_ok_poll perform_refused_eq,
    auto simp: history_ok_def promise_new_def correlated_append)

lemma history_ok_step:
  "history_step lws_pre envs h h' \<Longrightarrow> promises_ok (fst h) \<Longrightarrow> history_ok h \<Longrightarrow> history_ok h'"
proof (induction rule: history_step.induct)
  case (sent p writer ps s ids)
  then show ?case using history_ok_emplace enqueue_emplaces by (metis fst_conv)
next
  case (sent_raced s p writer ps ids r w)
  then show ?case using history_ok_emplace raced_emplaces by (metis fst_conv)
next
  case (other s ps s' ps' ids)
  then show ?case using history_ok_other by simp
qed

lemma history_ok_reachable: "history_reachable lws_pre envs app hdr h \<Longrightarrow> history_ok h"
proof (induction rule: history_reachable.induct)
  case start
  show ?case by (simp add: history_ok_def correlated_def server_new_def)
next
  case (step h h')
  then show ?case using history_ok_step promises_ok_reachable [OF history_server] by blast
qed

lemma answered_asD:
  "answered_as i r \<Longrightarrow> \<exists>c payload. c \<noteq> response_code response_getcreds \<and>
    mr_data r = header i c @ payload \<and> remaining r = payload"
  unfolding answered_as_def by (auto simp: advance_def messagereader_new_def remaining_def header_def)

subsection \<open>Properties\<close>

text \<open>
  C10. Responses do not cross: in every reachable state, however the threads interleave and whatever the
  provider sends, the value a caller of \<^verbatim>\<open>perform\<close> gets is a complete message with the id under which
  the request of that very caller was sent, read up to the payload, and never the answer to the request
  for credentials; and a promise that waits in \<^verbatim>\<open>pending_responses\<close> waits under the id of its own request.
\<close>

theorem responses_do_not_cross:
  assumes "history_reachable lws_pre envs app hdr ((s, ps), ids)"
  shows "(\<forall>p r. p < length (sv_futures s) \<longrightarrow> sv_futures s ! p = Future_value r \<longrightarrow>
      (\<exists>i c payload. ids p = Some i \<and> c \<noteq> response_code response_getcreds \<and>
        mr_data r = header i c @ payload \<and> remaining r = payload)) \<and>
    (\<forall>i p. sh_pending_responses s i = Some p \<longrightarrow> ids p = Some i)"
proof -
  have ok: "correlated (sv_futures s) (sh_pending_responses s) ids"
    using history_ok_reachable [OF assms] by (simp add: history_ok_def)
  show ?thesis
  proof (intro conjI allI impI)
    fix p r assume "p < length (sv_futures s)" and "sv_futures s ! p = Future_value r"
    then obtain i where "ids p = Some i" "answered_as i r" using ok unfolding correlated_def by blast
    then show "\<exists>i c payload. ids p = Some i \<and> c \<noteq> response_code response_getcreds \<and>
        mr_data r = header i c @ payload \<and> remaining r = payload"
      using answered_asD by blast
  qed (use ok in \<open>simp add: correlated_def\<close>)
qed

lemma history_callback:
  "history_reachable lws_pre envs app hdr ((s, ps), ids) \<Longrightarrow> sv_establishing s = None \<Longrightarrow> env \<in> envs \<Longrightarrow>
    history_reachable lws_pre envs app hdr ((snd (ws_server_callback lws_pre env reason s), ps), ids)"
  by (erule history_reachable.step) (intro history_step.other step_callback, simp_all)

lemma history_perform:
  assumes "history_reachable lws_pre envs app hdr ((s, ps), ids)" and "sh_is_authenticated s"
  shows "history_reachable lws_pre envs app hdr
    ((snd (handler_perform lws_pre writer s), ps), ids(length (sv_futures s) \<mapsto> fst (next_id s)))"
proof -
  obtain p s' where p: "promise_new s = (p, s')" by (cases "promise_new s")
  then have s': "p = length (sv_futures s)" "s' = s\<lparr>sv_futures := sv_futures s @ [Future_waiting]\<rparr>"
    by (simp_all add: promise_new_def)
  have "history_reachable lws_pre envs app hdr ((s', (p, writer) # ps), ids)"
    using assms(1) by (rule history_reachable.step)
      (intro history_step.other step_checked [OF assms(2) p], simp)
  then have "history_reachable lws_pre envs app hdr
      ((perform_enqueue lws_pre writer p s', remove1 (p, writer) ((p, writer) # ps)),
        ids(p \<mapsto> fst (next_id s')))"
    by (rule history_reachable.step) (rule history_step.sent, simp)
  then show ?thesis using assms(2) p by (simp add: handler_perform_def s')
qed

text \<open>Two requests on their way at the same time, answered in the opposite order.\<close>

definition sample_crossing :: server where
  "sample_crossing =
    on_receive null_env 5 (header 1 0x84 @ [7]) True
      (on_receive null_env 5 (header 2 0x95 @ [8]) True
        (snd (handler_perform 16 (messagewriter_request 16 request_rmdir) sample_waiting)))"

lemma sample_waiting_auth:
  "sh_is_authenticated sample_waiting" "fst (next_id sample_waiting) = 2"
  by (simp_all add: sample_waiting_def sample_connected_def handler_perform_def promise_new_def
      perform_enqueue_def pending_emplace_def filter_connection_def authenticate_via_header_def
      on_established_eq server_new_def next_id_def)

lemma next_id_message: "sh_current_message (snd (next_id s)) = sh_current_message s"
  by (simp add: next_id_eq Let_def)

lemma sample_waiting_two:
  "sv_futures (snd (handler_perform 16 writer sample_waiting)) = [Future_waiting, Future_waiting]"
  "sh_pending_responses (snd (handler_perform 16 writer sample_waiting)) = [1 \<mapsto> 0, 2 \<mapsto> 1]"
  "sh_current_message (snd (handler_perform 16 writer sample_waiting)) = []"
  by (simp_all add: handler_perform_def promise_new_def perform_enqueue_def pending_emplace_def
      case_prod_unfold Let_def sample_waiting_auth sample_waiting_eq next_id_message)

lemma sample_crossing_reachable:
  "history_reachable 16 {null_env} '''' '''' ((sample_crossing, []), [0 \<mapsto> 1, 1 \<mapsto> 2])"
proof -
  have 1: "history_reachable 16 {null_env} '''' '''' ((sample_connected '''', []), Map.empty)"
    using history_callback [OF history_callback [OF history_reachable.start _ insertI1] _ insertI1, of "''''" "''''" 16 null_env
        "Ev_filter_protocol_connection 5" "{}" "Ev_established 5"]
    by (simp add: sample_connected_def ws_server_callback_def)
  have 2: "history_reachable 16 {null_env} '''' '''' ((sample_waiting, []), [0 \<mapsto> 1])"
    using history_perform [OF 1, of "messagewriter_request 16 request_statfs"]
    by (simp add: sample_waiting_def sample_connected_def filter_connection_def
        authenticate_via_header_def on_established_eq server_new_def next_id_def)
  have 3: "history_reachable 16 {null_env} '''' ''''
      ((snd (handler_perform 16 (messagewriter_request 16 request_rmdir) sample_waiting), []), [0 \<mapsto> 1, 1 \<mapsto> 2])"
    using history_perform [OF 2, of "messagewriter_request 16 request_rmdir"]
    by (simp add: sample_waiting_auth sample_waiting_eq)
  show ?thesis
    using history_callback [OF history_callback [OF 3 _ insertI1] _ singletonI,
        of "Ev_receive 5 (header 2 0x95 @ [8]) True" "Ev_receive 5 (header 1 0x84 @ [7]) True"]
    by (simp add: sample_crossing_def ws_server_callback_def)
qed

lemma sample_crossing_eq:
  "sv_futures sample_crossing =
    [Future_value (advance 5 (messagereader_new (header 1 0x84 @ [7]))),
     Future_value (advance 5 (messagereader_new (header 2 0x95 @ [8])))]"
  by (simp add: sample_crossing_def on_receive_def process_message_header deliver_response_def
      promise_set_def sample_waiting_two)

theorem responses_do_not_cross_witness:
  "\<exists>r q. sv_futures sample_crossing = [Future_value r, Future_value q] \<and>
    (\<exists>c payload. mr_data r = header 1 c @ payload) \<and> (\<exists>c payload. mr_data q = header 2 c @ payload)"
proof -
  note h = responses_do_not_cross [OF sample_crossing_reachable, THEN conjunct1, rule_format]
  show ?thesis
    using h [of 0] h [of 1] by (auto simp: sample_crossing_eq)
qed

end
