(* ===== verification/Provider_Safety.thy ===== *)
theory Provider_Safety
  imports Filesystem_Proxy
begin

text \<open>
  When the provider's handler is free of undefined behaviour: for a file system that keeps the contract of
  \<open>filesystem_contract\<close> and whose own operations are free of it.
\<close>

lemma never_undefined_call_fs: "never_undefined m \<Longrightarrow> never_undefined (call_fs m)"
  unfolding never_undefined_def call_fs_def by (auto split: prod.splits) (metis fst_conv)

lemma never_undefined_read_into: "never_undefined m \<Longrightarrow> never_undefined (read_into obj m)"
  unfolding never_undefined_def read_into_def by (auto split: prod.splits sum.splits) (metis fst_conv)

lemma never_undefined_split: "(\<And>a b. never_undefined (f a b)) \<Longrightarrow> never_undefined (case p of (a, b) \<Rightarrow> f a b)"
  by (cases p) simp

lemma never_undefined_str: "never_undefined read_str"
  by (simp add: read_str_def never_undefined_bytes)

lemma never_undefined_mode: "never_undefined read_mode"
  unfolding read_mode_def by (rule never_undefined_rules)+

locale defined_filesystem = filesystem_contract fs for fs :: "'s filesystem_i" +
  assumes access_defined: "never_undefined (fsi_access fs path imode)"
    and getattr_defined: "never_undefined (fsi_getattr fs path attr)"
    and readlink_defined: "never_undefined (fsi_readlink fs path out)"
    and symlink_defined: "never_undefined (fsi_symlink fs from to)"
    and link_defined: "never_undefined (fsi_link fs from to)"
    and rename_defined: "never_undefined (fsi_rename fs from to flags)"
    and chmod_defined: "never_undefined (fsi_chmod fs path mode)"
    and chown_defined: "never_undefined (fsi_chown fs path uid gid)"
    and truncate_defined: "never_undefined (fsi_truncate fs path len handle)"
    and fsync_defined: "never_undefined (fsi_fsync fs path datasync handle)"
    and utimens_defined: "never_undefined (fsi_utimens fs path tv handle)"
    and open_defined: "never_undefined (fsi_open fs path flags handle)"
    and mknod_defined: "never_undefined (fsi_mknod fs path mode rdev)"
    and create_defined: "never_undefined (fsi_create fs path mode handle)"
    and release_defined: "never_undefined (fsi_release fs path handle)"
    and unlink_defined: "never_undefined (fsi_unlink fs path)"
    and read_defined: "never_undefined (fsi_read fs path buffer n offset handle)"
    and write_defined: "never_undefined (fsi_write fs path buffer n offset handle)"
    and mkdir_defined: "never_undefined (fsi_mkdir fs path mode)"
    and readdir_defined: "never_undefined (fsi_readdir fs path entries)"
    and rmdir_defined: "never_undefined (fsi_rmdir fs path)"
    and statfs_defined: "never_undefined (fsi_statfs fs path statistics)"
    and get_credentials_defined: "never_undefined (fsi_get_credentials fs)"
begin

lemmas operations_defined = access_defined getattr_defined readlink_defined symlink_defined link_defined
  rename_defined chmod_defined chown_defined truncate_defined fsync_defined utimens_defined open_defined
  mknod_defined create_defined release_defined unlink_defined write_defined mkdir_defined readdir_defined
  rmdir_defined statfs_defined get_credentials_defined

text \<open>The one place where the handler itself depends on the contract.\<close>

lemma never_undefined_fs_read:
  "never_undefined (bind_m (call_fs (fsi_read fs path (replicate n c) n offset handle)) (\<lambda>(result, buffer).
    if 0 < sint result
    then (if unat result \<le> length buffer then return_m (f result buffer) else throw_m Undefined_behaviour)
    else return_m (g result)))"
  unfolding never_undefined_def
proof
  fix sr :: "'s \<times> messagereader"
  obtain s r where sr: "sr = (s, r)" by (cases sr)
  obtain v s' where m: "fsi_read fs path (replicate n c) n offset handle s = (v, s')"
    by (cases "fsi_read fs path (replicate n c) n offset handle s")
  have "v \<noteq> Inl Undefined_behaviour"
    using read_defined [of path "replicate n c" n offset handle] m
    unfolding never_undefined_def by (metis fst_conv)
  then show "fst (bind_m (call_fs (fsi_read fs path (replicate n c) n offset handle)) (\<lambda>(result, buffer).
      if 0 < sint result
      then (if unat result \<le> length buffer then return_m (f result buffer) else throw_m Undefined_behaviour)
      else return_m (g result)) sr) \<noteq> Inl Undefined_behaviour"
    using m read_bound [of path "replicate n c" n offset handle s]
    by (cases v) (auto simp: sr call_fs_def bind_m_def return_apply split: if_splits)
qed

lemmas handler_defined = never_undefined_rules never_undefined_call_fs never_undefined_read_into
  never_undefined_split never_undefined_str never_undefined_mode operations_defined

lemma handle_request_defined: "never_undefined (handle_request un t fs w)"
  unfolding handle_request_def provider_defs Let_def handler_reads
  by (cases t; simp only: request_type.case; (rule never_undefined_fs_read handler_defined)+)

lemma on_message_defined: "never_undefined (on_message lws_pre un fs)"
  unfolding on_message_def Let_def by (rule handler_defined handle_request_defined)+

end

interpretation empty_defined: defined_filesystem empty_filesystem
  by unfold_locales (simp_all add: empty_filesystem_def never_undefined_return)

end
