(* ===== verification/Concurrent_System.thy ===== *)
theory Concurrent_System
  imports System Server_Correlation Provider_Safety
begin

text \<open>
  The two programs together while many threads of libfuse use the mount at once: the threads that call
  \<^verbatim>\<open>ws_server::perform\<close>, the service thread, the network in both directions and the service loop of the provider take
  their steps in any order. The lemmas show that the provider's file system is used as if the calls had been made one
  after the other, in the order in which they took the lock of the server's handler, and that every caller gets the
  answer of its own call.
\<close>

subsection \<open>The transition system\<close>

text \<open>A request that took the lock: its id, the promise of its caller, its type and body.\<close>

type_synonym entry = "u32 \<times> promise \<times> request_type \<times> u8 list"

definition message :: "entry \<Rightarrow> u8 list" where
  "message = (\<lambda>(i, p, t, body). header i (request_code t) @ body)"

text \<open>
  \<open>nw_calls\<close> are the calls of \<^verbatim>\<open>perform\<close> in front of the lock, \<open>nw_down\<close> and \<open>nw_up\<close> the messages in transit; \<open>nw_log\<close>
  is a ghost, the requests in the order in which they took the lock.
\<close>

record 's network =
  nw_server :: server
  nw_calls :: "(promise \<times> messagewriter) list"
  nw_down :: "u8 list list"
  nw_client :: "'s client"
  nw_up :: "u8 list list"
  nw_log :: "entry list"

inductive network_step ::
    "nat \<Rightarrow> uninit \<Rightarrow> 's filesystem_i \<Rightarrow> wsi \<Rightarrow> wsi \<Rightarrow> 's network \<Rightarrow> 's network \<Rightarrow> bool"
  for lws_pre un fs ws wc where
  call: "t \<noteq> request_getcreds \<Longrightarrow> sh_is_authenticated (nw_server n) \<Longrightarrow> promise_new (nw_server n) = (p, sv) \<Longrightarrow>
    network_step lws_pre un fs ws wc n
      (n\<lparr>nw_server := sv, nw_calls := (p, request_message lws_pre t body) # nw_calls n\<rparr>)"
| lock: "t \<noteq> request_getcreds \<Longrightarrow> (p, request_message lws_pre t body) \<in> set (nw_calls n) \<Longrightarrow>
    network_step lws_pre un fs ws wc n
      (n\<lparr>nw_server := perform_enqueue lws_pre (request_message lws_pre t body) p (nw_server n),
         nw_calls := remove1 (p, request_message lws_pre t body) (nw_calls n),
         nw_log := nw_log n @ [(fst (next_id (nw_server n)), p, t, body)]\<rparr>)"
| wake: "network_step lws_pre un fs ws wc n (n\<lparr>nw_server := lws Lws_cancel_service (nw_server n)\<rparr>)"
| poll: "network_step lws_pre un fs ws wc n (n\<lparr>nw_server := poll (nw_server n)\<rparr>)"
| server_writable: "sv = snd (on_writable lws_pre (nw_server n)) \<Longrightarrow>
    network_step lws_pre un fs ws wc n
      (n\<lparr>nw_server := sv, nw_down := nw_down n @ new_messages (sv_calls (nw_server n)) (sv_calls sv)\<rparr>)"
| client_receives: "nw_down n = d # ds \<Longrightarrow>
    client_receive (on_message lws_pre un fs) wc d True (nw_client n) = (Inr (), cl) \<Longrightarrow>
    network_step lws_pre un fs ws wc n (n\<lparr>nw_down := ds, nw_client := cl\<rparr>)"
| client_writable: "cl = client_writeable lws_pre wc (nw_client n) \<Longrightarrow>
    network_step lws_pre un fs ws wc n
      (n\<lparr>nw_client := cl, nw_up := nw_up n @ new_messages (cl_calls (nw_client n)) (cl_calls cl)\<rparr>)"
| server_receives: "nw_up n = d # ds \<Longrightarrow>
    network_step lws_pre un fs ws wc n (n\<lparr>nw_up := ds, nw_server := on_receive env ws d True (nw_server n)\<rparr>)"

inductive network_run ::
    "nat \<Rightarrow> uninit \<Rightarrow> 's filesystem_i \<Rightarrow> wsi \<Rightarrow> wsi \<Rightarrow> 's network \<Rightarrow> 's network \<Rightarrow> bool"
  for lws_pre un fs ws wc n0 where
  start: "network_run lws_pre un fs ws wc n0 n0"
| step: "network_run lws_pre un fs ws wc n0 n \<Longrightarrow> network_step lws_pre un fs ws wc n n' \<Longrightarrow>
    network_run lws_pre un fs ws wc n0 n'"

text \<open>The connection of both programs, before the first call.\<close>

definition session :: "wsi \<Rightarrow> server \<Rightarrow> bool" where
  "session ws sv \<longleftrightarrow> sh_connection sv = Some ws \<and> sh_is_authenticated sv \<and> \<not> sh_shutdown_requested sv \<and>
    sh_current_message sv = []"

definition quiet :: "'s network \<Rightarrow> bool" where
  "quiet n \<longleftrightarrow> nw_calls n = [] \<and> sh_requests (nw_server n) = [] \<and> nw_down n = [] \<and>
    cl_requests (nw_client n) = [] \<and> nw_up n = []"

definition connected :: "wsi \<Rightarrow> 's network \<Rightarrow> bool" where
  "connected ws n \<longleftrightarrow> session ws (nw_server n) \<and> quiet n \<and> nw_log n = [] \<and>
    sh_pending_responses (nw_server n) = Map.empty \<and> cl_current_message (nw_client n) = []"

subsection \<open>One call after the other\<close>

text \<open>The specification: the calls one after the other, each answered by the provider's handler directly.\<close>

fun serial ::
    "nat \<Rightarrow> uninit \<Rightarrow> 's filesystem_i \<Rightarrow> entry list \<Rightarrow> 's \<Rightarrow> (exn + messagereader) list \<times> 's" where
  "serial lws_pre un fs [] s = ([], s)"
| "serial lws_pre un fs ((i, p, t, body) # es) s =
    (case loopback lws_pre un fs i (request_message lws_pre t body) s of (v, s') \<Rightarrow>
     case serial lws_pre un fs es s' of (vs, s'') \<Rightarrow> (v # vs, s''))"

lemma serial_snoc:
  assumes "serial lws_pre un fs es s = (vs, s')"
    and "loopback lws_pre un fs i (request_message lws_pre t body) s' = (v, s'')"
  shows "serial lws_pre un fs (es @ [(i, p, t, body)]) s = (vs @ [v], s'')"
  using assms
proof (induction es arbitrary: s vs)
  case (Cons e es)
  then show ?case by (cases e) (auto split: prod.splits)
qed simp

lemma serial_length: "serial lws_pre un fs es s = (vs, s') \<Longrightarrow> length vs = length es"
proof (induction es arbitrary: s vs)
  case (Cons e es)
  then show ?case by (cases e) (auto split: prod.splits)
qed simp

text \<open>The answers among the results, with the id and the promise they belong to.\<close>

definition reply :: "entry \<Rightarrow> exn + messagereader \<Rightarrow> (u32 \<times> promise \<times> messagereader) list" where
  "reply = (\<lambda>(i, p, _) v. case v of Inl _ \<Rightarrow> [] | Inr x \<Rightarrow> [(i, p, x)])"

definition replies :: "entry list \<Rightarrow> (exn + messagereader) list \<Rightarrow> (u32 \<times> promise \<times> messagereader) list" where
  "replies es vs = concat (map2 reply es vs)"

lemma replies_Nil [simp]: "replies [] vs = []"
  by (simp add: replies_def)

lemma replies_snoc: "length vs = length es \<Longrightarrow> replies (es @ [e]) (vs @ [v]) = replies es vs @ reply e v"
  by (simp add: replies_def)

lemma replies_iff:
  assumes "length vs = length es"
  shows "(i, p, x) \<in> set (replies es vs) \<longleftrightarrow>
    (\<exists>k < length es. \<exists>t body. es ! k = (i, p, t, body) \<and> vs ! k = Inr x)"
proof -
  have "(i, p, x) \<in> set (reply e v) \<longleftrightarrow> (\<exists>t body. e = (i, p, t, body) \<and> v = Inr x)" for e v
    by (cases e) (auto simp: reply_def split: sum.splits)
  then have "(i, p, x) \<in> set (replies es vs) \<longleftrightarrow> (\<exists>t body. ((i, p, t, body), Inr x) \<in> set (zip es vs))"
    by (force simp: replies_def)
  then show ?thesis using assms by (auto simp: in_set_zip)
qed

text \<open>What the direct transport returns is what the provider sends.\<close>

lemma handled_loopback:
  assumes "on_message lws_pre un fs (s, messagereader_new (header i (request_code t) @ body)) = (Inr w, s', rd)"
    and "t \<noteq> request_getcreds"
  shows "\<exists>x. loopback lws_pre un fs i (request_message lws_pre t body) s = (Inr x, s') \<and>
    answered_as i x \<and> mr_data x = get_data lws_pre w"
proof -
  obtain c payload where c: "get_data lws_pre w = header i c @ payload" "c \<noteq> response_code response_getcreds"
    using handled_response [OF assms(1)] getcreds_only [OF assms(2)] by auto
  let ?x = "advance 5 (messagereader_new (header i c @ payload))"
  have "loopback lws_pre un fs i (request_message lws_pre t body) s = (Inr ?x, s')"
    using assms(1) by (simp add: loopback_def set_id_request strip_header_eq c(1))
  then show ?thesis using c by (auto simp: answered_as_def advance_def messagereader_new_def)
qed

lemma unhandled_loopback:
  assumes "on_message lws_pre un fs (s, messagereader_new (header i (request_code t) @ body)) = (Inl e, s', rd)"
  shows "loopback lws_pre un fs i (request_message lws_pre t body) s = (Inl (no_response e), s')"
  using assms by (simp add: loopback_def set_id_request)

subsection \<open>The invariant\<close>

text \<open>Ids count the requests since \<open>base\<close>; they do not wrap around as long as there are fewer than 2^32.\<close>

definition numbered :: "nat \<Rightarrow> entry list \<Rightarrow> server \<Rightarrow> bool" where
  "numbered base es sv \<longleftrightarrow> map fst es = map (\<lambda>k. of_nat (base + k)) [1..<Suc (length es)] \<and>
    sh_id sv = of_nat (base + length es)"

lemma unat_u32_of_nat: "n < 2 ^ 32 \<Longrightarrow> unat (of_nat n :: u32) = n"
  by (simp add: unsigned_of_nat take_bit_nat_eq_self)

lemma numbered_distinct:
  assumes "numbered base es sv" and "base + length es < 2 ^ 32"
  shows "distinct (map fst es)"
proof -
  have "inj_on (\<lambda>k. of_nat (base + k) :: u32) {1..<Suc (length es)}"
  proof (rule inj_onI)
    fix j k
    assume "j \<in> {1..<Suc (length es)}" "k \<in> {1..<Suc (length es)}"
      and eq: "(of_nat (base + j) :: u32) = of_nat (base + k)"
    with assms(2) have "base + j < 2 ^ 32" "base + k < 2 ^ 32" by auto
    with arg_cong [OF eq, of unat] show "j = k" by (simp only: unat_u32_of_nat)
  qed
  then show ?thesis
    using assms(1) by (simp add: numbered_def distinct_map atLeastLessThanSuc_atLeastAtMost del: upt_Suc of_nat_add)
qed

lemma numbered_next:
  assumes "numbered base es sv" and "Suc (base + length es) < 2 ^ 32"
  shows "fst (next_id sv) = of_nat (base + Suc (length es))" and "fst (next_id sv) \<notin> fst ` set es"
proof -
  have eq: "sh_id sv + 1 = of_nat (base + Suc (length es))"
    using assms(1) by (simp add: numbered_def)
  then have "unat (sh_id sv + 1) = base + Suc (length es)"
    using assms(2) by (simp only: eq unat_u32_of_nat add_Suc_right)
  then have "sh_id sv + 1 \<noteq> 0" by auto
  with eq show nid: "fst (next_id sv) = of_nat (base + Suc (length es))"
    by (simp add: next_id_def Let_def)
  have "numbered base (es @ [(fst (next_id sv), 0, request_access, [])]) (snd (next_id sv))"
    using assms nid by (simp add: numbered_def)
  from numbered_distinct [OF this] assms(2) show "fst (next_id sv) \<notin> fst ` set es" by simp
qed

text \<open>
  \<open>ds\<close> are the answers that were delivered. Their promises have them as values; every other promise of the log waits.
\<close>

definition delivered ::
    "entry list \<Rightarrow> (u32 \<times> promise \<times> messagereader) list \<Rightarrow> future list \<Rightarrow> (u32 \<rightharpoonup> promise) \<Rightarrow> bool" where
  "delivered es ds fs m \<longleftrightarrow>
    (\<forall>(i, p, x) \<in> set ds. p < length fs \<and> fs ! p = Future_value x) \<and>
    (\<forall>i p. m i = Some p \<longleftrightarrow> (\<exists>t body. (i, p, t, body) \<in> set es) \<and> i \<notin> fst ` set ds)"

text \<open>
  The log consists of the requests \<open>es\<close> that the provider executed, with the results \<open>vs\<close>, and the requests \<open>qs\<close> on their way
  to it; the answers of the executed ones consist of the delivered \<open>ds\<close> and those on their way back, \<open>us\<close>.
\<close>

definition history ::
    "nat \<Rightarrow> uninit \<Rightarrow> 's filesystem_i \<Rightarrow> wsi \<Rightarrow> nat \<Rightarrow> 's \<Rightarrow> 's network \<Rightarrow> entry list \<Rightarrow> entry list \<Rightarrow>
      (exn + messagereader) list \<Rightarrow> (u32 \<times> promise \<times> messagereader) list \<Rightarrow>
      (u32 \<times> promise \<times> messagereader) list \<Rightarrow> bool" where
  "history lws_pre un fs ws base s n es qs vs ds us \<longleftrightarrow>
    session ws (nw_server n) \<and> promises_ok (nw_server n, nw_calls n) \<and>
    nw_log n = es @ qs \<and> numbered base (es @ qs) (nw_server n) \<and>
    (\<forall>(i, p, t, body) \<in> set (es @ qs). t \<noteq> request_getcreds) \<and>
    serial lws_pre un fs es s = (vs, cl_fs (nw_client n)) \<and> cl_current_message (nw_client n) = [] \<and>
    nw_down n @ map (get_data lws_pre) (sh_requests (nw_server n)) = map message qs \<and>
    replies es vs = ds @ us \<and> (\<forall>(i, p, x) \<in> set us. answered_as i x) \<and>
    nw_up n @ map (get_data lws_pre) (cl_requests (nw_client n)) = map (\<lambda>(i, p, x). mr_data x) us \<and>
    delivered (es @ qs) ds (sv_futures (nw_server n)) (sh_pending_responses (nw_server n))"

lemma historyI:
  assumes "session ws (nw_server n)" and "promises_ok (nw_server n, nw_calls n)"
    and "nw_log n = es @ qs" and "numbered base (es @ qs) (nw_server n)"
    and "\<forall>(i, p, t, body) \<in> set (es @ qs). t \<noteq> request_getcreds"
    and "serial lws_pre un fs es s = (vs, cl_fs (nw_client n))" and "cl_current_message (nw_client n) = []"
    and "nw_down n @ map (get_data lws_pre) (sh_requests (nw_server n)) = map message qs"
    and "replies es vs = ds @ us" and "\<forall>(i, p, x) \<in> set us. answered_as i x"
    and "nw_up n @ map (get_data lws_pre) (cl_requests (nw_client n)) = map (\<lambda>(i, p, x). mr_data x) us"
    and "delivered (es @ qs) ds (sv_futures (nw_server n)) (sh_pending_responses (nw_server n))"
  shows "history lws_pre un fs ws base s n es qs vs ds us"
  using assms unfolding history_def by blast

lemma historyD:
  assumes "history lws_pre un fs ws base s n es qs vs ds us"
  shows "session ws (nw_server n)" and "promises_ok (nw_server n, nw_calls n)"
    and "nw_log n = es @ qs" and "numbered base (es @ qs) (nw_server n)"
    and "\<forall>(i, p, t, body) \<in> set (es @ qs). t \<noteq> request_getcreds"
    and "serial lws_pre un fs es s = (vs, cl_fs (nw_client n))" and "cl_current_message (nw_client n) = []"
    and "nw_down n @ map (get_data lws_pre) (sh_requests (nw_server n)) = map message qs"
    and "replies es vs = ds @ us" and "\<forall>(i, p, x) \<in> set us. answered_as i x"
    and "nw_up n @ map (get_data lws_pre) (cl_requests (nw_client n)) = map (\<lambda>(i, p, x). mr_data x) us"
    and "delivered (es @ qs) ds (sv_futures (nw_server n)) (sh_pending_responses (nw_server n))"
  using assms unfolding history_def by blast+

lemma delivered_append: "delivered es ds fs m \<Longrightarrow> delivered es ds (fs @ gs) m"
  unfolding delivered_def by (fastforce simp: nth_append)

lemma delivered_lock:
  "delivered es ds fs m \<Longrightarrow> i \<notin> fst ` set es \<Longrightarrow> i \<notin> fst ` set ds \<Longrightarrow>
    delivered (es @ [(i, p, t, body)]) ds fs (m(i \<mapsto> p))"
  unfolding delivered_def by (force simp: image_iff)

lemma delivered_answer:
  assumes "delivered es ds fs m" and "m i = Some p" and "p < length fs" and "fs ! p = Future_waiting"
  shows "delivered es (ds @ [(i, p, x)]) (fs[p := Future_value x]) (m(i := None))"
proof -
  have "(\<forall>(j, q, y) \<in> set (ds @ [(i, p, x)]). q < length (fs[p := Future_value x]) \<and>
      fs[p := Future_value x] ! q = Future_value y)"
    using assms unfolding delivered_def by (fastforce simp: nth_update_in)
  then show ?thesis using assms(1) unfolding delivered_def by auto
qed

subsection \<open>Every step keeps the invariant\<close>

lemma reply_id: "(i, p, x) \<in> set (reply e v) \<Longrightarrow> i = fst e"
  by (cases e) (auto simp: reply_def split: sum.splits)

lemma replies_ids: "fst ` set (replies es vs) \<subseteq> fst ` set es"
  by (auto simp: replies_def dest!: reply_id set_zip_leftD) (metis fst_conv image_eqI)

lemma replies_Cons: "replies (e # es) (v # vs) = reply e v @ replies es vs"
  by (simp add: replies_def)

lemma replies_distinct: "distinct (map fst es) \<Longrightarrow> distinct (map fst (replies es vs))"
proof (induction es arbitrary: vs)
  case (Cons e es)
  show ?case
  proof (cases vs)
    case Nil
    then show ?thesis by (simp add: replies_def)
  next
    case vs: (Cons v vs')
    have "fst e \<notin> fst ` set es" using Cons.prems by simp
    then have fresh: "fst e \<notin> fst ` set (replies es vs')" using replies_ids by blast
    have "distinct (map fst (replies es vs'))" using Cons by simp
    with fresh show ?thesis
      by (cases e) (simp add: vs replies_Cons reply_def split: sum.split)
  qed
qed simp

lemma next_id_session [simp]:
  "sh_shutdown_requested (snd (next_id sv)) = sh_shutdown_requested sv"
  "sh_current_message (snd (next_id sv)) = sh_current_message sv"
  by (simp_all add: next_id_eq Let_def)

text \<open>Steps of the server that only touch its log of library calls.\<close>

lemma history_lws:
  assumes "history lws_pre un fs ws base s n es qs vs ds us"
  shows "history lws_pre un fs ws base s (n\<lparr>nw_server := lws c (nw_server n)\<rparr>) es qs vs ds us"
  by (rule historyI) (use historyD [OF assms] in \<open>simp_all add: session_def promises_ok_def numbered_def\<close>)

lemma poll_session: "session ws sv \<Longrightarrow> poll sv = sv \<or> poll sv = lws (Lws_callback_on_writable (Some ws)) sv"
  by (simp add: session_def poll_def)

lemma history_poll:
  assumes "history lws_pre un fs ws base s n es qs vs ds us"
  shows "history lws_pre un fs ws base s (n\<lparr>nw_server := poll (nw_server n)\<rparr>) es qs vs ds us"
  using poll_session [OF historyD(1) [OF assms]] history_lws [OF assms] assms by auto

lemma history_call:
  assumes "history lws_pre un fs ws base s n es qs vs ds us" and new: "promise_new (nw_server n) = (p, sv)"
  shows "history lws_pre un fs ws base s (n\<lparr>nw_server := sv, nw_calls := (p, writer) # nw_calls n\<rparr>) es qs vs ds us"
proof -
  have sv: "sv = (nw_server n)\<lparr>sv_futures := sv_futures (nw_server n) @ [Future_waiting]\<rparr>"
    using new by (simp add: promise_new_def)
  show ?thesis
    by (rule historyI)
      (use historyD [OF assms(1)] promises_ok_new [OF _ new] in
        \<open>simp_all add: session_def numbered_def sv delivered_append\<close>)
qed

text \<open>A request takes the lock: its id is new, and its promise waits under it.\<close>

lemma enqueue_fresh:
  assumes "numbered base es sv" and "Suc (base + length es) < 2 ^ 32"
    and "\<And>i p. sh_pending_responses sv i = Some p \<Longrightarrow> i \<in> fst ` set es"
  shows "perform_enqueue lws_pre writer p sv = (snd (next_id sv))
    \<lparr>sh_requests := sh_requests sv @ [set_id lws_pre (fst (next_id sv)) writer],
     sh_pending_responses := (sh_pending_responses sv)(fst (next_id sv) \<mapsto> p)\<rparr>"
proof -
  have "sh_pending_responses sv (fst (next_id sv)) = None"
    using numbered_next(2) [OF assms(1,2)] assms(3) by (cases "sh_pending_responses sv (fst (next_id sv))") auto
  then show ?thesis by (simp add: perform_enqueue_def pending_emplace_def case_prod_unfold Let_def)
qed

lemma numbered_enqueue:
  assumes "numbered base es sv" and "Suc (base + length es) < 2 ^ 32" and "sh_id sv' = sh_id (snd (next_id sv))"
  shows "numbered base (es @ [(fst (next_id sv), p, t, body)]) sv'"
  using assms numbered_next(1) [OF assms(1,2)] by (simp add: numbered_def)

lemma delivered_pending: "delivered es ds fs m \<Longrightarrow> m i = Some p \<Longrightarrow> i \<in> fst ` set es"
  by (force simp: delivered_def image_iff)

lemma history_lock:
  assumes H: "history lws_pre un fs ws base s n es qs vs ds us" and "t \<noteq> request_getcreds"
    and call: "(p, request_message lws_pre t body) \<in> set (nw_calls n)"
    and bound: "Suc (base + length (es @ qs)) < 2 ^ 32"
  shows "history lws_pre un fs ws base s
    (n\<lparr>nw_server := perform_enqueue lws_pre (request_message lws_pre t body) p (nw_server n),
       nw_calls := remove1 (p, request_message lws_pre t body) (nw_calls n),
       nw_log := nw_log n @ [(fst (next_id (nw_server n)), p, t, body)]\<rparr>)
    es (qs @ [(fst (next_id (nw_server n)), p, t, body)]) vs ds us"
proof -
  let ?sv = "nw_server n" and ?req = "request_message lws_pre t body"
  let ?i = "fst (next_id ?sv)"
  note D = historyD [OF H]
  have i: "?i \<notin> fst ` set (es @ qs)" by (rule numbered_next(2) [OF D(4) bound])
  have ds: "?i \<notin> fst ` set ds"
    using i replies_ids [of es vs] D(9) by fastforce
  note sv' = enqueue_fresh [OF D(4) bound delivered_pending [OF D(12)]]
  have "promises_ok (perform_enqueue lws_pre ?req p ?sv, remove1 (p, ?req) (nw_calls n))"
    by (rule promises_ok_enqueue [OF D(2) call])
  then show ?thesis
    using D assms(2) delivered_lock [OF D(12) i ds] numbered_enqueue [OF D(4) bound]
    by (intro historyI) (auto simp: sv' session_def message_def set_id_request)
qed

text \<open>Messages that leave a queue enter the network.\<close>

lemma history_server_writable:
  assumes H: "history lws_pre un fs ws base s n es qs vs ds us" and sv: "sv = snd (on_writable lws_pre (nw_server n))"
  shows "history lws_pre un fs ws base s
    (n\<lparr>nw_server := sv, nw_down := nw_down n @ new_messages (sv_calls (nw_server n)) (sv_calls sv)\<rparr>) es qs vs ds us"
proof (cases "sh_requests (nw_server n)")
  case Nil
  then have "sv = nw_server n" using historyD(1) [OF H] by (simp add: sv on_writable_def session_def)
  then show ?thesis using H by (simp add: new_messages_def)
next
  case (Cons w rest)
  have "\<not> sh_shutdown_requested (nw_server n)" using historyD(1) [OF H] by (simp add: session_def)
  then show ?thesis
    using historyD [OF H] Cons
    by (intro historyI) (auto simp: sv on_writable_def session_def numbered_def new_messages_def promises_ok_def lws_def Let_def)
qed

lemma history_client_writable:
  assumes H: "history lws_pre un fs ws base s n es qs vs ds us" and cl: "cl = client_writeable lws_pre wc (nw_client n)"
  shows "history lws_pre un fs ws base s
    (n\<lparr>nw_client := cl, nw_up := nw_up n @ new_messages (cl_calls (nw_client n)) (cl_calls cl)\<rparr>) es qs vs ds us"
proof (cases "cl_requests (nw_client n)")
  case Nil
  then have "cl = nw_client n" by (simp add: cl client_writeable_def)
  then show ?thesis using H by (simp add: new_messages_def)
next
  case (Cons w rest)
  then show ?thesis
    using historyD [OF H]
    by (intro historyI) (auto simp: cl client_writeable_def client_lws_def new_messages_def Let_def)
qed

text \<open>The provider executes the next request of the log.\<close>

lemma provider_executes:
  assumes serial: "serial lws_pre un fs es s = (vs, cl_fs cl)" and t: "t \<noteq> request_getcreds"
    and cl: "cl_current_message cl = []"
      "client_receive (on_message lws_pre un fs) wc (message (i, p, t, body)) True cl = (Inr (), cl')"
  shows "\<exists>v. serial lws_pre un fs (es @ [(i, p, t, body)]) s = (vs @ [v], cl_fs cl') \<and> cl_current_message cl' = [] \<and>
    map (get_data lws_pre) (cl_requests cl') =
      map (get_data lws_pre) (cl_requests cl) @ map (\<lambda>(i, p, x). mr_data x) (reply (i, p, t, body) v) \<and>
    (\<forall>(j, q, x) \<in> set (reply (i, p, t, body) v). answered_as j x)"
proof -
  let ?d = "header i (request_code t) @ body"
  obtain u s' rd where h: "on_message lws_pre un fs (cl_fs cl, messagereader_new ?d) = (u, s', rd)"
    by (metis prod.exhaust)
  show ?thesis
  proof (cases u)
    case (Inl e)
    have "cl' = cl\<lparr>cl_fs := s'\<rparr>"
      using cl h Inl by (auto simp: message_def client_receive_def Let_def split: if_splits)
    then show ?thesis
      using serial_snoc [OF serial unhandled_loopback [OF h [unfolded Inl]], of p] cl(1)
      by (intro exI [of _ "Inl (no_response e)"]) (simp add: reply_def)
  next
    case (Inr w)
    obtain x where x: "loopback lws_pre un fs i (request_message lws_pre t body) (cl_fs cl) = (Inr x, s')"
        "answered_as i x" "mr_data x = get_data lws_pre w"
      using handled_loopback [OF h [unfolded Inr] t] by blast
    have "cl' = client_lws (Lws_callback_on_writable (Some wc))
        (cl\<lparr>cl_current_message := [], cl_fs := s', cl_requests := cl_requests cl @ [w]\<rparr>)"
      using cl h Inr by (auto simp: message_def client_receive_def Let_def)
    then show ?thesis
      using serial_snoc [OF serial x(1), of p] x(2,3)
      by (intro exI [of _ "Inr x"]) (simp add: reply_def client_lws_def)
  qed
qed

lemma history_client_receives:
  assumes H: "history lws_pre un fs ws base s n es qs vs ds us" and down: "nw_down n = d # down"
    and cl: "client_receive (on_message lws_pre un fs) wc d True (nw_client n) = (Inr (), cl)"
  shows "\<exists>es qs vs us. history lws_pre un fs ws base s (n\<lparr>nw_down := down, nw_client := cl\<rparr>) es qs vs ds us"
proof -
  note D = historyD [OF H]
  obtain i p t body qs' where q: "qs = (i, p, t, body) # qs'" "d = message (i, p, t, body)"
      "down @ map (get_data lws_pre) (sh_requests (nw_server n)) = map message qs'"
    using D(8) down by (cases qs) auto
  have t: "t \<noteq> request_getcreds" using D(5) q(1) by simp
  let ?e = "(i, p, t, body)"
  from provider_executes [OF D(6) t D(7) cl [unfolded q(2)]] obtain v where
    v: "serial lws_pre un fs (es @ [?e]) s = (vs @ [v], cl_fs cl)" "cl_current_message cl = []"
      "map (get_data lws_pre) (cl_requests cl) =
        map (get_data lws_pre) (cl_requests (nw_client n)) @ map (\<lambda>(i, p, x). mr_data x) (reply ?e v)"
      "\<forall>(j, q, x) \<in> set (reply ?e v). answered_as j x"
    by blast
  have up: "nw_up n @ map (get_data lws_pre) (cl_requests cl) = map (\<lambda>(i, p, x). mr_data x) (us @ reply ?e v)"
    using D(11) v(3) by (simp flip: append_assoc)
  have "history lws_pre un fs ws base s (n\<lparr>nw_down := down, nw_client := cl\<rparr>) (es @ [?e]) qs' (vs @ [v]) ds
      (us @ reply ?e v)"
    by (rule historyI)
      (use D q(1,3) v up replies_snoc [OF serial_length [OF D(6)], of ?e v] in \<open>simp_all add: ball_Un\<close>)
  then show ?thesis by blast
qed

text \<open>The next answer reaches the promise of its request.\<close>

lemma receive_answer:
  assumes session: "session ws sv" and ok: "promises_ok (sv, calls)"
    and D: "delivered es ds (sv_futures sv) (sh_pending_responses sv)"
    and e: "(i, p, t, body) \<in> set es" "i \<notin> fst ` set ds" and x: "answered_as i x"
  shows "session ws (on_receive env ws (mr_data x) True sv) \<and> promises_ok (on_receive env ws (mr_data x) True sv, calls) \<and>
    sh_id (on_receive env ws (mr_data x) True sv) = sh_id sv \<and>
    sh_requests (on_receive env ws (mr_data x) True sv) = sh_requests sv \<and>
    delivered es (ds @ [(i, p, x)]) (sv_futures (on_receive env ws (mr_data x) True sv))
      (sh_pending_responses (on_receive env ws (mr_data x) True sv))"
proof -
  have pending: "sh_pending_responses sv i = Some p"
    using D e unfolding delivered_def by blast
  have waits: "p < length (sv_futures sv)" "sv_futures sv ! p = Future_waiting"
    using ok pending by (auto simp: promises_ok_def owned_ok_def)
  obtain c payload where c: "x = advance 5 (messagereader_new (header i c @ payload))"
      "c \<noteq> response_code response_getcreds"
    using x by (auto simp: answered_as_def)
  then have d: "mr_data x = header i c @ payload" by (simp add: advance_def messagereader_new_def)
  have same: "promises_ok (sv\<lparr>sh_current_message := []\<rparr>, calls)"
    using ok by (rule promises_ok_same) (simp add: same_promises_def)
  have sv': "on_receive env ws (mr_data x) True sv = sv\<lparr>sh_current_message := [],
      sv_futures := (sv_futures sv)[p := Future_value x], sh_pending_responses := (sh_pending_responses sv)(i := None)\<rparr>"
    unfolding d using session c deliver_found [OF same, of i p] pending
    by (simp add: session_def on_receive_def Let_def process_message_header)
  have "promises_ok (on_receive env ws (mr_data x) True sv, calls)"
    using promises_ok_callback [OF ok, of 0 env "Ev_receive ws (mr_data x) True"] by (simp add: ws_server_callback_def)
  with delivered_answer [OF D pending waits] session show ?thesis by (simp add: sv' session_def)
qed

text \<open>The answer at the head of those in transit belongs to a request that was not answered yet.\<close>

lemma head_reply:
  assumes "replies es vs = ds @ (i, p, x) # us" and "length vs = length es"
    and "distinct (map fst (es @ qs))"
  shows "\<exists>t body. (i, p, t, body) \<in> set (es @ qs)" and "i \<notin> fst ` set ds"
proof -
  show "\<exists>t body. (i, p, t, body) \<in> set (es @ qs)"
    using replies_iff [OF assms(2), of i p x] assms(1) by (auto simp: in_set_conv_nth)
  show "i \<notin> fst ` set ds"
    using replies_distinct [of es vs] assms(1,3) by auto
qed

lemma history_server_receives:
  assumes H: "history lws_pre un fs ws base s n es qs vs ds us" and up: "nw_up n = d # up"
    and bound: "base + length (es @ qs) < 2 ^ 32"
  shows "\<exists>ds us. history lws_pre un fs ws base s
    (n\<lparr>nw_up := up, nw_server := on_receive env ws d True (nw_server n)\<rparr>) es qs vs ds us"
proof -
  note D = historyD [OF H]
  obtain i p x us' where u: "us = (i, p, x) # us'" "d = mr_data x"
      "up @ map (get_data lws_pre) (cl_requests (nw_client n)) = map (\<lambda>(i, p, x). mr_data x) us'"
    using D(11) up by (cases us) auto
  have x: "answered_as i x" using D(10) u(1) by simp
  have dist: "distinct (map fst (es @ qs))" by (rule numbered_distinct [OF D(4) bound])
  obtain t body where e: "(i, p, t, body) \<in> set (es @ qs)" and fresh: "i \<notin> fst ` set ds"
    using head_reply [OF D(9) [unfolded u(1)] serial_length [OF D(6)] dist] by blast
  from receive_answer [OF D(1,2,12) e fresh x, of env]
  have "history lws_pre un fs ws base s (n\<lparr>nw_up := up, nw_server := on_receive env ws d True (nw_server n)\<rparr>) es qs vs
      (ds @ [(i, p, x)]) us'"
    by (intro historyI) (use D u in \<open>simp_all add: numbered_def\<close>)
  then show ?thesis by blast
qed

lemma log_grows: "network_step lws_pre un fs ws wc n n' \<Longrightarrow> length (nw_log n) \<le> length (nw_log n')"
  by (induction rule: network_step.induct) simp_all

lemma history_step:
  assumes "network_step lws_pre un fs ws wc n n'"
    and "\<exists>es qs vs ds us. history lws_pre un fs ws base s n es qs vs ds us"
    and "base + length (nw_log n') < 2 ^ 32"
  shows "\<exists>es qs vs ds us. history lws_pre un fs ws base s n' es qs vs ds us"
proof -
  obtain es qs vs ds us where H: "history lws_pre un fs ws base s n es qs vs ds us" using assms(2) by blast
  have log: "nw_log n = es @ qs" by (rule historyD(3) [OF H])
  have bound: "base + length (es @ qs) < 2 ^ 32" using log_grows [OF assms(1)] assms(3) log by simp
  from assms(1) show ?thesis
  proof cases
    case (lock t p body)
    then have "Suc (base + length (es @ qs)) < 2 ^ 32" using assms(3) log by simp
    from history_lock [OF H lock(2,3) this] show ?thesis unfolding lock(1) by blast
  next
    case (client_receives d ds cl)
    then show ?thesis using history_client_receives [OF H] by blast
  next
    case (server_receives d ds env)
    then show ?thesis using history_server_receives [OF H _ bound] by blast
  qed (use history_call [OF H] history_lws [OF H] history_poll [OF H] history_server_writable [OF H]
      history_client_writable [OF H] in blast)+
qed

lemma history_run:
  assumes "network_run lws_pre un fs ws wc n0 n" and "connected ws n0"
    and "unat (sh_id (nw_server n0)) + length (nw_log n) < 2 ^ 32"
  shows "\<exists>es qs vs ds us.
    history lws_pre un fs ws (unat (sh_id (nw_server n0))) (cl_fs (nw_client n0)) n es qs vs ds us"
  using assms(1,3)
proof (induction rule: network_run.induct)
  case start
  have "history lws_pre un fs ws (unat (sh_id (nw_server n0))) (cl_fs (nw_client n0)) n0 [] [] [] [] []"
    using assms(2)
    by (intro historyI)
      (simp_all add: connected_def quiet_def numbered_def promises_ok_def owned_ok_def delivered_def)
  then show ?case by blast
next
  case (step n n')
  then have "unat (sh_id (nw_server n0)) + length (nw_log n) < 2 ^ 32" using log_grows [OF step(2)] by simp
  then show ?case by (intro history_step [OF step(2) step.IH step.prems])
qed

subsection \<open>What a caller gets\<close>

text \<open>The outcome of the \<open>k\<close>-th call of the log: it waits, or it has the answer of the sequential execution.\<close>

lemma history_outcome:
  assumes H: "history lws_pre un fs ws base s n es qs vs ds us" and bound: "base + length (nw_log n) < 2 ^ 32"
    and k: "k < length es" "es ! k = (i, p, t, body)"
  shows "sv_futures (nw_server n) ! p = Future_waiting \<and> i \<notin> fst ` set ds \<or>
    (\<exists>x. vs ! k = Inr x \<and> sv_futures (nw_server n) ! p = Future_value x)"
proof (cases "i \<in> fst ` set ds")
  case True
  note D = historyD [OF H]
  from True obtain q x where d: "(i, q, x) \<in> set ds" by auto
  then have "(i, q, x) \<in> set (replies es vs)" using D(9) by simp
  then obtain j t' body' where j: "j < length es" "es ! j = (i, q, t', body')" "vs ! j = Inr x"
    using replies_iff [OF serial_length [OF D(6)]] by blast
  have "distinct (map fst es)"
    using numbered_distinct [OF D(4)] bound D(3) by simp
  then have "j = k" using j(1,2) k nth_eq_iff_index_eq [of "map fst es" j k] by simp
  then show ?thesis using j k d D(12) unfolding delivered_def by auto
next
  case False
  note D = historyD [OF H]
  have "(i, p, t, body) \<in> set es" using nth_mem [OF k(1)] k(2) by simp
  then have "sh_pending_responses (nw_server n) i = Some p"
    using D(12) False unfolding delivered_def by auto
  then show ?thesis using D(2) False by (auto simp: promises_ok_def owned_ok_def)
qed

lemma history_unsent:
  assumes H: "history lws_pre un fs ws base s n es qs vs ds us" and bound: "base + length (nw_log n) < 2 ^ 32"
    and "(i, p, t, body) \<in> set qs"
  shows "sv_futures (nw_server n) ! p = Future_waiting"
proof -
  note D = historyD [OF H]
  have "distinct (map fst (es @ qs))"
    using numbered_distinct [OF D(4)] bound D(3) by simp
  then have "i \<notin> fst ` set es" using assms(3) by force
  then have "i \<notin> fst ` set ds" using replies_ids [of es vs] D(9) by auto
  then have "sh_pending_responses (nw_server n) i = Some p"
    using D(12) assms(3) unfolding delivered_def by auto
  then show ?thesis using D(2) by (auto simp: promises_ok_def owned_ok_def)
qed

text \<open>When nothing is in transit any more, every answer was delivered.\<close>

lemma history_quiet:
  assumes H: "history lws_pre un fs ws base s n es qs vs ds us" and bound: "base + length (nw_log n) < 2 ^ 32"
    and "quiet n"
  shows "qs = []" and "k < length es \<Longrightarrow> es ! k = (i, p, t, body) \<Longrightarrow>
    sv_futures (nw_server n) ! p = (case vs ! k of Inl _ \<Rightarrow> Future_waiting | Inr x \<Rightarrow> Future_value x)"
proof -
  note D = historyD [OF H]
  show "qs = []" using D(8) assms(3) by (simp add: quiet_def)
  have us: "us = []" using D(11) assms(3) by (simp add: quiet_def)
  assume k: "k < length es" "es ! k = (i, p, t, body)"
  show "sv_futures (nw_server n) ! p = (case vs ! k of Inl _ \<Rightarrow> Future_waiting | Inr x \<Rightarrow> Future_value x)"
  proof (cases "vs ! k")
    case (Inl e)
    then show ?thesis using history_outcome [OF H bound k] by simp
  next
    case (Inr x)
    then have "(i, p, x) \<in> set ds"
      using replies_iff [OF serial_length [OF D(6)], of i p x] D(9) us k by auto
    then show ?thesis using history_outcome [OF H bound k] Inr by force
  qed
qed

subsection \<open>No call is stuck\<close>

definition weight :: "'s network \<Rightarrow> nat" where
  "weight n = 5 * length (nw_calls n) + 4 * length (sh_requests (nw_server n)) + 3 * length (nw_down n) +
    2 * length (cl_requests (nw_client n)) + length (nw_up n)"

definition calls_ok :: "nat \<Rightarrow> 's network \<Rightarrow> bool" where
  "calls_ok lws_pre n \<longleftrightarrow>
    (\<forall>(p, writer) \<in> set (nw_calls n). \<exists>t body. t \<noteq> request_getcreds \<and> writer = request_message lws_pre t body)"

lemma calls_ok_step: "network_step lws_pre un fs ws wc n n' \<Longrightarrow> calls_ok lws_pre n \<Longrightarrow> calls_ok lws_pre n'"
  by (induction rule: network_step.induct) (auto simp: calls_ok_def dest: notin_set_remove1 set_remove1_subset [THEN subsetD])

lemma calls_ok_run: "network_run lws_pre un fs ws wc n0 n \<Longrightarrow> calls_ok lws_pre n0 \<Longrightarrow> calls_ok lws_pre n"
  by (induction rule: network_run.induct) (auto intro: calls_ok_step)

lemma enqueue_requests:
  "length (sh_requests (perform_enqueue lws_pre writer p sv)) = Suc (length (sh_requests sv))"
  by (simp add: perform_enqueue_def pending_emplace_def promise_destroy_def case_prod_unfold Let_def split: option.splits)

lemma on_receive_requests: "sh_requests (on_receive env ws d b sv) = sh_requests sv"
  by (auto simp: on_receive_def process_message_def finish_authentication_def deliver_response_def promise_set_def Let_def
      split: prod.splits sum.splits option.splits)

text \<open>As long as there is something to do, one of the programs can do it.\<close>

lemma network_progress:
  assumes H: "history lws_pre un fs ws base s n es qs vs ds us" and calls: "calls_ok lws_pre n"
    and handler: "never_undefined (on_message lws_pre un fs)" and busy: "\<not> quiet n"
  shows "\<exists>n'. network_step lws_pre un fs ws wc n n' \<and> weight n' < weight n \<and>
    length (nw_log n') + length (nw_calls n') = length (nw_log n) + length (nw_calls n)"
proof -
  have running: "\<not> sh_shutdown_requested (nw_server n)" using historyD(1) [OF H] by (simp add: session_def)
  consider (calls) "nw_calls n \<noteq> []" | (requests) "sh_requests (nw_server n) \<noteq> []" | (down) "nw_down n \<noteq> []"
    | (answers) "cl_requests (nw_client n) \<noteq> []" | (up) "nw_up n \<noteq> []"
    using busy by (auto simp: quiet_def)
  then show ?thesis
  proof cases
    case calls
    then obtain p writer cs where c: "nw_calls n = (p, writer) # cs" by (cases "nw_calls n") auto
    then obtain t body where t: "t \<noteq> request_getcreds" "(p, request_message lws_pre t body) \<in> set (nw_calls n)"
        "writer = request_message lws_pre t body"
      using assms(2) by (auto simp: calls_ok_def)
    show ?thesis
      by (rule exI, rule conjI, rule network_step.lock [OF t(1,2)])
        (simp add: weight_def enqueue_requests c t(3))
  next
    case requests
    then obtain w rest where w: "sh_requests (nw_server n) = w # rest" by (cases "sh_requests (nw_server n)") auto
    show ?thesis
      by (rule exI, rule conjI, rule network_step.server_writable [OF refl])
        (auto simp: w running weight_def on_writable_def new_messages_def lws_def Let_def)
  next
    case down
    then obtain d rest where d: "nw_down n = d # rest" by (cases "nw_down n") auto
    obtain r cl where cl: "client_receive (on_message lws_pre un fs) wc d True (nw_client n) = (r, cl)"
      by (cases "client_receive (on_message lws_pre un fs) wc d True (nw_client n)")
    have "r = Inr ()" "length (cl_requests cl) \<le> Suc (length (cl_requests (nw_client n)))"
      using cl handler [unfolded never_undefined_def, rule_format, of "(cl_fs (nw_client n), messagereader_new (cl_current_message (nw_client n) @ d))"]
      by (auto simp: client_receive_def client_lws_def Let_def split: prod.splits sum.splits if_splits)
    with cl have "client_receive (on_message lws_pre un fs) wc d True (nw_client n) = (Inr (), cl)" by simp
    then show ?thesis
      using \<open>length (cl_requests cl) \<le> Suc (length (cl_requests (nw_client n)))\<close>
      by (intro exI [of _ "n\<lparr>nw_down := rest, nw_client := cl\<rparr>"] conjI network_step.client_receives [OF d])
        (simp_all add: weight_def d)
  next
    case answers
    then obtain w rest where w: "cl_requests (nw_client n) = w # rest" by (cases "cl_requests (nw_client n)") auto
    show ?thesis
      by (rule exI, rule conjI, rule network_step.client_writable [OF refl])
        (auto simp: w weight_def client_writeable_def client_lws_def new_messages_def Let_def)
  next
    case up
    then obtain d rest where d: "nw_up n = d # rest" by (cases "nw_up n") auto
    show ?thesis
      by (rule exI, rule conjI, rule network_step.server_receives [OF d])
        (simp add: weight_def on_receive_requests d)
  qed
qed

lemma network_run_trans:
  "network_run lws_pre un fs ws wc m n \<Longrightarrow> network_run lws_pre un fs ws wc l m \<Longrightarrow> network_run lws_pre un fs ws wc l n"
  by (induction rule: network_run.induct) (auto intro: network_run.step)

lemma network_drains:
  assumes "network_run lws_pre un fs ws wc n0 n" and "connected ws n0"
    and "unat (sh_id (nw_server n0)) + length (nw_log n) + length (nw_calls n) < 2 ^ 32"
    and "never_undefined (on_message lws_pre un fs)"
  shows "\<exists>n'. network_run lws_pre un fs ws wc n n' \<and> quiet n' \<and>
    length (nw_log n') = length (nw_log n) + length (nw_calls n)"
  using assms(1,3)
proof (induction "weight n" arbitrary: n rule: less_induct)
  case less
  show ?case
  proof (cases "quiet n")
    case True
    then show ?thesis by (intro exI [of _ n]) (simp add: network_run.start quiet_def)
  next
    case False
    have "calls_ok lws_pre n0" using assms(2) by (simp add: connected_def quiet_def calls_ok_def)
    then have calls: "calls_ok lws_pre n" by (rule calls_ok_run [OF less.prems(1)])
    obtain es qs vs ds us where
      "history lws_pre un fs ws (unat (sh_id (nw_server n0))) (cl_fs (nw_client n0)) n es qs vs ds us"
      using history_run [OF less.prems(1) assms(2)] less.prems(2) by auto
    from network_progress [OF this calls assms(4) False] obtain n1 where
      n1: "network_step lws_pre un fs ws wc n n1" "weight n1 < weight n"
        "length (nw_log n1) + length (nw_calls n1) = length (nw_log n) + length (nw_calls n)"
      by blast
    have "\<exists>n'. network_run lws_pre un fs ws wc n1 n' \<and> quiet n' \<and>
        length (nw_log n') = length (nw_log n1) + length (nw_calls n1)"
      using less.prems n1 by (intro less.hyps network_run.step [OF less.prems(1)]) simp_all
    then show ?thesis
      using n1 network_run_trans [OF _ network_run.step [OF network_run.start n1(1)]] by auto
  qed
qed

subsection \<open>A sample run\<close>

text \<open>A service without authenticator, a provider with the empty file system, and two threads that call at once.\<close>

definition sample_network :: "unit network" where
  "sample_network = \<lparr>nw_server = sample_connected '''', nw_calls = [], nw_down = [], nw_client = client_new (),
    nw_up = [], nw_log = []\<rparr>"

lemma sample_network_connected: "connected 5 sample_network" "sh_id (nw_server sample_network) = 0"
  by (simp_all add: sample_network_def connected_def session_def quiet_def sample_connected_def filter_connection_def
      authenticate_via_header_def on_established_eq server_new_def client_new_def)

lemma sample_network_calls:
  "\<exists>n. network_run 16 uninit_zero empty_filesystem 5 3 sample_network n \<and> nw_log n = [] \<and> length (nw_calls n) = 2"
proof -
  let ?step = "network_step 16 uninit_zero empty_filesystem 5 3"
  have 1: "\<exists>n'. ?step n n' \<and> sh_is_authenticated (nw_server n') \<and> nw_log n' = nw_log n \<and>
      length (nw_calls n') = Suc (length (nw_calls n))" if "sh_is_authenticated (nw_server n)" for n :: "unit network"
    by (rule exI, rule conjI, rule network_step.call [of request_rmdir, OF _ that surjective_pairing])
      (use that in \<open>simp_all add: promise_new_def\<close>)
  have "sh_is_authenticated (nw_server sample_network)"
    using sample_network_connected(1) by (simp add: connected_def session_def)
  from 1 [OF this] obtain n1 where n1: "?step sample_network n1" "sh_is_authenticated (nw_server n1)"
      "nw_log n1 = []" "length (nw_calls n1) = 1"
    by (auto simp: sample_network_def)
  from 1 [OF n1(2)] obtain n2 where n2: "?step n1 n2" "nw_log n2 = []" "length (nw_calls n2) = 2"
    using n1 by auto
  have "network_run 16 uninit_zero empty_filesystem 5 3 sample_network n2"
    by (rule network_run.step [OF network_run.step [OF network_run.start n1(1)] n2(1)])
  with n2 show ?thesis by blast
qed

subsection \<open>Properties\<close>

text \<open>
  C4. Concurrent calls are linearizable. However the threads of libfuse, the service thread, the network and the provider
  interleave: the provider has executed a prefix of the requests in the order in which they took the lock, its file
  system is in the state that executing them one after the other leaves, and every call that got an answer got the
  one of that sequential execution; all other calls wait. The ids must not have wrapped around.
\<close>

theorem calls_linearize:
  assumes "network_run lws_pre un fs ws wc n0 n" and "connected ws n0"
    and "unat (sh_id (nw_server n0)) + length (nw_log n) < 2 ^ 32"
  shows "\<exists>es qs vs. nw_log n = es @ qs \<and>
    serial lws_pre un fs es (cl_fs (nw_client n0)) = (vs, cl_fs (nw_client n)) \<and>
    (\<forall>k i p t body. k < length es \<longrightarrow> es ! k = (i, p, t, body) \<longrightarrow>
      sv_futures (nw_server n) ! p = Future_waiting \<or>
      (\<exists>x. vs ! k = Inr x \<and> sv_futures (nw_server n) ! p = Future_value x)) \<and>
    (\<forall>i p t body. (i, p, t, body) \<in> set qs \<longrightarrow> sv_futures (nw_server n) ! p = Future_waiting)"
proof -
  obtain es qs vs ds us where
    H: "history lws_pre un fs ws (unat (sh_id (nw_server n0))) (cl_fs (nw_client n0)) n es qs vs ds us"
    using history_run [OF assms] by blast
  show ?thesis
    using historyD(3,6) [OF H] history_outcome [OF H assms(3)] history_unsent [OF H assms(3)] by blast
qed

theorem calls_linearize_witness:
  "\<exists>n es qs vs. network_run 16 uninit_zero (empty_filesystem :: unit filesystem_i) 5 3 sample_network n \<and>
    length (nw_log n) = 2 \<and> nw_log n = es @ qs \<and>
    serial 16 uninit_zero (empty_filesystem :: unit filesystem_i) es () = (vs, cl_fs (nw_client n))"
proof -
  obtain n where n: "network_run 16 uninit_zero (empty_filesystem :: unit filesystem_i) 5 3 sample_network n"
      "nw_log n = []" "length (nw_calls n) = 2"
    using sample_network_calls by blast
  have bound: "unat (sh_id (nw_server sample_network)) + length (nw_log n) + length (nw_calls n) < 2 ^ 32"
    using n(2,3) by (simp add: sample_network_connected(2))
  obtain n' where n': "network_run 16 uninit_zero (empty_filesystem :: unit filesystem_i) 5 3 n n'" "length (nw_log n') = 2"
    using network_drains [OF n(1) sample_network_connected(1) bound empty_defined.on_message_defined] n(2,3) by auto
  have run: "network_run 16 uninit_zero (empty_filesystem :: unit filesystem_i) 5 3 sample_network n'"
    by (rule network_run_trans [OF n'(1) n(1)])
  from calls_linearize [OF run sample_network_connected(1)] run n'(2) show ?thesis
    by (auto simp: sample_network_connected(2))
qed

text \<open>
  C5. No call is stuck and none is lost: from every state, the programs can go on until nothing is queued or in transit,
  and then every call has the answer of the sequential execution in the order of the log; the only calls that still
  wait, and run into the timeout, are those whose request the provider's handler rejected with an exception. The
  provider's handler is free of undefined behaviour; a writable connection is a step the network may always make.
\<close>

theorem calls_complete:
  assumes "network_run lws_pre un fs ws wc n0 n" and "connected ws n0"
    and "unat (sh_id (nw_server n0)) + length (nw_log n) + length (nw_calls n) < 2 ^ 32"
    and "never_undefined (on_message lws_pre un fs)"
  shows "\<exists>n' vs. network_run lws_pre un fs ws wc n n' \<and> quiet n' \<and>
    length (nw_log n') = length (nw_log n) + length (nw_calls n) \<and>
    serial lws_pre un fs (nw_log n') (cl_fs (nw_client n0)) = (vs, cl_fs (nw_client n')) \<and>
    (\<forall>k i p t body. k < length (nw_log n') \<longrightarrow> nw_log n' ! k = (i, p, t, body) \<longrightarrow>
      sv_futures (nw_server n') ! p = (case vs ! k of Inl _ \<Rightarrow> Future_waiting | Inr x \<Rightarrow> Future_value x))"
proof -
  obtain n' where n': "network_run lws_pre un fs ws wc n n'" "quiet n'"
      "length (nw_log n') = length (nw_log n) + length (nw_calls n)"
    using network_drains [OF assms] by blast
  have bound: "unat (sh_id (nw_server n0)) + length (nw_log n') < 2 ^ 32" using assms(3) n'(3) by simp
  obtain es qs vs ds us where
    H: "history lws_pre un fs ws (unat (sh_id (nw_server n0))) (cl_fs (nw_client n0)) n' es qs vs ds us"
    using history_run [OF network_run_trans [OF n'(1) assms(1)] assms(2) bound] by blast
  have log: "nw_log n' = es" using historyD(3) [OF H] history_quiet(1) [OF H bound n'(2)] by simp
  show ?thesis
    by (intro exI [of _ n'] exI [of _ vs] conjI allI impI)
      (use n' historyD(6) [OF H] history_quiet(2) [OF H bound n'(2)] log in auto)
qed

theorem calls_complete_witness:
  "\<exists>n n' vs. network_run 16 uninit_zero (empty_filesystem :: unit filesystem_i) 5 3 sample_network n \<and>
    length (nw_calls n) = 2 \<and> network_run 16 uninit_zero empty_filesystem 5 3 n n' \<and> quiet n' \<and> length (nw_log n') = 2 \<and>
    serial 16 uninit_zero (empty_filesystem :: unit filesystem_i) (nw_log n') () = (vs, cl_fs (nw_client n'))"
proof -
  obtain n where n: "network_run 16 uninit_zero (empty_filesystem :: unit filesystem_i) 5 3 sample_network n"
      "nw_log n = []" "length (nw_calls n) = 2"
    using sample_network_calls by blast
  have bound: "unat (sh_id (nw_server sample_network)) + length (nw_log n) + length (nw_calls n) < 2 ^ 32"
    using n(2,3) by (simp add: sample_network_connected(2))
  from n obtain n' vs where "network_run 16 uninit_zero (empty_filesystem :: unit filesystem_i) 5 3 n n'" "quiet n'"
      "length (nw_log n') = 2"
      "serial 16 uninit_zero (empty_filesystem :: unit filesystem_i) (nw_log n') () = (vs, cl_fs (nw_client n'))"
    using calls_complete [OF n(1) sample_network_connected(1) bound empty_defined.on_message_defined] by auto
  with n show ?thesis by blast
qed

end
