(* ===== verification/Handshake.thy ===== *)
theory Handshake
  imports Concurrent_System
begin

text \<open>
  How a connection starts, over both programs: the service filters the connection by its headers, asks for credentials
  when these did not decide, the provider answers with its token, and the authenticator decides. The result is either
  the session that \<open>Concurrent_System\<close> starts from, or a connection that the service closes. The service may be a new
  one or one whose last connection left nothing behind.
\<close>

definition network_of :: "'s system \<Rightarrow> 's network" where
  "network_of sys = \<lparr>nw_server = sys_server sys, nw_calls = [], nw_down = [], nw_client = sys_client sys, nw_up = [],
    nw_log = []\<rparr>"

text \<open>The request for credentials and its answer.\<close>

lemma getcreds_answer:
  assumes "fsi_get_credentials fs s = (Inr token, s')"
  shows "\<exists>w rd. on_message lws_pre un fs (s, messagereader_new (header i (request_code request_getcreds))) = (Inr w, s', rd) \<and>
    get_data lws_pre w = header i (response_code response_getcreds) @ enc_str (recv_str token)"
proof -
  let ?c = "request_code request_getcreds" and ?w = "response_header lws_pre i request_getcreds"
  let ?r = "messagereader_new (header i ?c)"
  have t: "get_request_type ?c = request_getcreds" by (simp add: get_request_type_def)
  have "on_message lws_pre un fs (s, ?r) = provider_fs_get_credentials fs ?w (s, advance 5 ?r)"
    using handled_request [of ?r i ?c "[]" lws_pre un fs s] by (simp add: t [simplified] handle_request_def)
  also have "\<dots> = (Inr (append_data (enc_str (recv_str token)) ?w), s', advance 5 ?r)"
    using servesD [OF serves_get_credentials [of fs ?w], of "advance 5 ?r" "[]" s] assms
    by (simp add: bind_m_def return_apply header_def)
  finally show ?thesis
    by (auto simp: response_header_def append_data_def get_data_message get_response_type_def)
qed

text \<open>What the service does with the credentials.\<close>

lemma receive_credentials:
  assumes "sh_current_message sv = []"
  shows "on_receive env ws (header i (response_code response_getcreds) @ enc_str (recv_str token)) True sv =
    (if auth_authenticate env (sh_authenticator sv) (recv_str token) then sv\<lparr>sh_current_message := [], sh_is_authenticated := True\<rparr>
     else lws (Lws_callback_on_writable (Some ws)) (sv\<lparr>sh_current_message := [], sh_shutdown_requested := True\<rparr>))"
proof -
  let ?r = "advance 5 (messagereader_new (header i (response_code response_getcreds) @ enc_str (recv_str token)))"
  have "read_str ?r = (Inr (recv_str token), advance (length (enc_str (recv_str token))) ?r)"
    by (rule readsD [OF reads_str, of _ _ "[]"]) (simp_all add: header_def)
  then show ?thesis
    using assms by (simp add: on_receive_def process_message_header Let_def finish_authentication_def)
qed

text \<open>A service without a connection that has nothing left of an earlier one.\<close>

definition fresh :: "server \<Rightarrow> bool" where
  "fresh sv \<longleftrightarrow> sh_connection sv = None \<and> sh_requests sv = [] \<and> sh_pending_responses sv = Map.empty \<and>
    sh_current_message sv = [] \<and> \<not> sh_shutdown_requested sv"

lemma server_new_fresh: "fresh (server_new app hdr)"
  by (simp add: fresh_def server_new_def)

lemma filter_accepts:
  assumes "filter_connection env ws sv0 = (0, sv)"
  shows "sv = sv0\<lparr>sh_is_authenticated := sh_is_authenticated sv\<rparr>" and "sh_authenticator sv0 = '''' \<Longrightarrow> sh_is_authenticated sv"
  using assms by (auto simp: filter_connection_def authenticate_via_header_def Let_def split: if_splits)

text \<open>The exchange of the request for credentials.\<close>

lemma exchange_credentials:
  assumes "fsi_get_credentials fs s = (Inr token, s')"
    and sv: "sh_requests sv = [set_id lws_pre i (messagewriter_request lws_pre request_getcreds)]"
      "sh_connection sv = Some ws" "\<not> sh_shutdown_requested sv" "sh_current_message sv = []"
    and "exchange lws_pre (on_message lws_pre un fs) env ws wc \<lparr>sys_server = sv, sys_client = client_new s\<rparr> = (r, sys')"
  shows "r = Inr () \<and> cl_requests (sys_client sys') = [] \<and> cl_current_message (sys_client sys') = [] \<and>
    (\<exists>calls. sys_server sys' = on_receive env ws (header i (response_code response_getcreds) @ enc_str (recv_str token)) True
      (sv\<lparr>sh_requests := [], sv_calls := calls\<rparr>))"
proof -
  let ?h = "on_message lws_pre un fs" and ?d = "header i (request_code request_getcreds)"
  let ?a = "header i (response_code response_getcreds) @ enc_str (recv_str token)"
  have d: "get_data lws_pre (set_id lws_pre i (messagewriter_request lws_pre request_getcreds)) = ?d"
    using set_id_request [of lws_pre i request_getcreds "[]"] by (simp add: request_message_def)
  define sv' where "sv' = snd (on_writable lws_pre (poll sv))"
  have sv': "sv' = sv\<lparr>sh_requests := [], sv_calls := sv_calls sv @ [Lws_callback_on_writable (Some ws), Lws_write (Some ws) ?d]\<rparr>"
    using sv by (simp add: sv'_def poll_def on_writable_def lws_def d)
  have down: "new_messages (sv_calls sv) (sv_calls sv') = [?d]" by (simp add: sv' new_messages_def)
  obtain w rd where w: "?h (s, messagereader_new ?d) = (Inr w, s', rd)" "get_data lws_pre w = ?a"
    using getcreds_answer [OF assms(1)] by blast
  have cl: "cl_current_message (client_new s) = []" "cl_requests (client_new s) = []" "cl_fs (client_new s) = s"
    by (simp_all add: client_new_def)
  from client_answers [OF cl(1,2), of ?h ?d w s' rd wc lws_pre] w cl(3) obtain cl' where
    cl': "deliver_to_client ?h wc [?d] (client_new s) = (Inr (), cl')" "length (cl_requests cl') = 1"
      "new_messages (cl_calls cl') (cl_calls (client_writeable lws_pre wc cl')) = [?a]"
      "cl_current_message (client_writeable lws_pre wc cl') = []" "cl_requests (client_writeable lws_pre wc cl') = []"
    by (auto simp: Let_def)
  have "sys' = \<lparr>sys_server = on_receive env ws ?a True sv', sys_client = client_writeable lws_pre wc cl'\<rparr> \<and> r = Inr ()"
    using assms(6) cl' down by (auto simp: exchange_def Let_def simp flip: sv'_def)
  then show ?thesis using cl' by (auto simp: sv')
qed

lemma handshake_exchange:
  assumes "fresh sv0" and "filter_connection env ws sv0 = (0, sv)" and "fsi_get_credentials fs s = (Inr token, s')"
    and "exchange lws_pre (on_message lws_pre un fs) env ws wc
      \<lparr>sys_server = snd (on_established lws_pre ws sv), sys_client = client_new s\<rparr> = (r, sys')"
  shows "r = Inr () \<and>
    (if sh_is_authenticated sv \<or> auth_authenticate env (sh_authenticator sv0) (recv_str token)
     then connected ws (network_of sys')
     else \<not> sh_is_authenticated (sys_server sys') \<and> fst (on_writable lws_pre (sys_server sys')) = - 1)"
proof -
  let ?sv = "snd (on_established lws_pre ws sv)"
  note new = filter_accepts [OF assms(2)] and fresh = assms(1) [unfolded fresh_def]
  show ?thesis
  proof (cases "sh_is_authenticated sv")
    case True
    have sv: "?sv = sv0\<lparr>sh_is_authenticated := True, sh_connection := Some ws, sh_id := 0\<rparr>"
      using True fresh by (subst new(1)) (simp add: on_established_eq)
    then have "r = Inr () \<and> sys' = \<lparr>sys_server = ?sv, sys_client = client_new s\<rparr>"
      using assms(4) fresh by (auto simp: exchange_def poll_def on_writable_def client_new_def return_apply)
    then show ?thesis
      using True sv fresh
      by (simp add: connected_def session_def quiet_def network_of_def client_new_def)
  next
    case False
    then have app: "sh_authenticator sv0 \<noteq> ''''" using new(2) by blast
    have sv: "?sv = sv0\<lparr>sh_is_authenticated := False, sh_connection := Some ws, sh_id := 1,
        sh_requests := [set_id lws_pre 1 (messagewriter_request lws_pre request_getcreds)],
        sv_calls := sv_calls sv0 @ [Lws_callback_on_writable (Some ws)]\<rparr>"
      using False app fresh by (subst new(1)) (simp add: on_established_eq next_id_def lws_def Let_def)
    have pre: "sh_requests ?sv = [set_id lws_pre 1 (messagewriter_request lws_pre request_getcreds)]"
        "sh_connection ?sv = Some ws" "\<not> sh_shutdown_requested ?sv" "sh_current_message ?sv = []"
      using fresh by (simp_all add: sv)
    from exchange_credentials [OF assms(3) pre assms(4)] obtain calls where
      x: "r = Inr ()" "cl_requests (sys_client sys') = []" "cl_current_message (sys_client sys') = []"
        "sys_server sys' = on_receive env ws (header 1 (response_code response_getcreds) @ enc_str (recv_str token)) True
          (?sv\<lparr>sh_requests := [], sv_calls := calls\<rparr>)"
      by blast
    then show ?thesis
      using False fresh
      by (auto simp: receive_credentials [simplified] sv connected_def session_def quiet_def network_of_def on_writable_def)
  qed
qed

text \<open>What the filter does, with its decision in terms of the configuration, the header and the authenticator.\<close>

lemma filter_decides:
  "filter_connection env ws sv0 =
    (let app = sh_authenticator sv0; tok = get_auth_token env ws sv0; presented = sh_auth_header sv0 \<noteq> '''' \<and> tok \<noteq> '''' in
     (if app \<noteq> '''' \<and> presented \<and> \<not> auth_authenticate env app tok then - 1 else 0,
      sv0\<lparr>sh_is_authenticated := (app = '''' \<or> presented \<and> auth_authenticate env app tok)\<rparr>))"
  by (simp add: filter_connection_def authenticate_via_header_def Let_def)

subsection \<open>Properties\<close>

text \<open>
  C8. The handshake decides. A provider connects to a service that has nothing left of an earlier connection, with its
  token in the header or not, and both programs do one round of their loops. With an authenticator that rejects the token
  of the header, the connection is refused by the filter, and the service is not authenticated. Otherwise it passes the
  filter, and it is ready for calls exactly if no authenticator is configured, or the header carried a token (which was
  accepted), or the authenticator accepts the token that the provider's file system returns; if not, the service
  is not authenticated and closes the connection as soon as the socket is writable.
\<close>

theorem handshake_decides:
  assumes "fresh sv0" and "filter_connection env ws sv0 = (result, sv)" and "fsi_get_credentials fs s = (Inr token, s')"
    and "exchange lws_pre (on_message lws_pre un fs) env ws wc
      \<lparr>sys_server = snd (on_established lws_pre ws sv), sys_client = client_new s\<rparr> = (r, sys')"
  shows "let app = sh_authenticator sv0; hdr_token = get_auth_token env ws sv0;
      presented = sh_auth_header sv0 \<noteq> '''' \<and> hdr_token \<noteq> ''''
    in if app \<noteq> '''' \<and> presented \<and> \<not> auth_authenticate env app hdr_token
      then result = - 1 \<and> \<not> sh_is_authenticated sv
      else result = 0 \<and> r = Inr () \<and>
        (if app = '''' \<or> presented \<or> auth_authenticate env app (recv_str token)
         then connected ws (network_of sys')
         else \<not> sh_is_authenticated (sys_server sys') \<and> fst (on_writable lws_pre (sys_server sys')) = - 1)"
proof -
  note filter = assms(2) [unfolded filter_decides Let_def, THEN sym]
  show ?thesis
  proof (cases "result = 0")
    case True
    have "filter_connection env ws sv0 = (0, sv)" using assms(2) True by simp
    from handshake_exchange [OF assms(1) this assms(3,4)] show ?thesis
      using filter True unfolding Let_def by (auto split: if_splits)
  next
    case False
    then show ?thesis using filter unfolding Let_def by (auto split: if_splits)
  qed
qed

text \<open>A provider without token and an authenticator that accepts everything, and one whose header the authenticator rejects.\<close>

theorem handshake_decides_witness:
  "let env = null_env\<lparr>auth_authenticate := \<lambda>_ _. True\<rparr>;
       sv = snd (filter_connection env 5 (server_new ''auth'' ''''));
       bad = null_env\<lparr>lws_hdr_total_length := \<lambda>_ _. 3, lws_hdr_copy := \<lambda>_ _ _. (3, ''bad'')\<rparr>
   in connected 5 (network_of (snd (exchange 16 (on_message 16 uninit_zero (empty_filesystem :: unit filesystem_i)) env 5 3
     \<lparr>sys_server = snd (on_established 16 5 sv), sys_client = client_new ()\<rparr>))) \<and>
     fst (filter_connection bad 5 (server_new ''auth'' ''x-auth-token'')) = - 1"
proof -
  let ?env = "null_env\<lparr>auth_authenticate := \<lambda>_ _. True\<rparr>"
  let ?bad = "null_env\<lparr>lws_hdr_total_length := \<lambda>_ _. 3, lws_hdr_copy := \<lambda>_ _ _. (3, ''bad'')\<rparr>"
  have tok: "get_auth_token ?bad 5 (server_new ''auth'' ''x-auth-token'') = ''bad''"
    by (simp add: get_auth_token_def get_auth_token_of_known_header_def server_new_def c_str_def)
  have creds: "fsi_get_credentials (empty_filesystem :: unit filesystem_i) () = (Inr '''', ())"
    by (simp add: empty_filesystem_def empty_get_credentials_def return_apply)
  show ?thesis
    using handshake_decides [OF server_new_fresh [of "''auth''" "''''"] surjective_pairing creds surjective_pairing,
        where env = ?env and ws = 5 and lws_pre = 16 and un = uninit_zero and wc = 3]
      handshake_decides [OF server_new_fresh [of "''auth''" "''x-auth-token''"] surjective_pairing creds surjective_pairing,
        where env = ?bad and ws = 5 and lws_pre = 16 and un = uninit_zero and wc = 3]
      tok
    by (simp add: Let_def server_new_def null_env_def)
qed

end
