(* ===== verification/Service_Loop.thy ===== *)
theory Service_Loop
  imports Prelude "HOL-Library.While_Combinator"
begin

text \<open>
  Both programs run a loop of the form \<^verbatim>\<open>while (!shutdown_requested) { service(); }\<close>. What happens during one
  call of \<^verbatim>\<open>service\<close> - the events the library delivers, signals, other threads - is one element of the
  sequence \<open>rounds\<close>. The loop counts its rounds; a loop that never ends is \<open>None\<close>.
\<close>

definition service_loop ::
    "('s \<Rightarrow> bool) \<Rightarrow> ('r \<Rightarrow> 's \<Rightarrow> 's) \<Rightarrow> (nat \<Rightarrow> 'r) \<Rightarrow> 's \<Rightarrow> (nat \<times> 's) option" where
  "service_loop shutdown service rounds s =
    while_option (\<lambda>(n, s). \<not> shutdown s) (\<lambda>(n, s). (Suc n, service (rounds n) s)) (0, s)"

text \<open>The state after \<open>n\<close> rounds, whether or not the loop would have ended before.\<close>

fun after_rounds :: "('r \<Rightarrow> 's \<Rightarrow> 's) \<Rightarrow> (nat \<Rightarrow> 'r) \<Rightarrow> nat \<Rightarrow> 's \<Rightarrow> 's" where
  "after_rounds service rounds 0 s = s"
| "after_rounds service rounds (Suc n) s = service (rounds n) (after_rounds service rounds n s)"

lemma funpow_rounds:
  "((\<lambda>(n, s). (Suc n, service (rounds n) s)) ^^ k) (0, s) = (k, after_rounds service rounds k s)"
  by (induction k) simp_all

lemma service_loop_ends:
  assumes "shutdown (after_rounds service rounds n s)"
    and "\<And>i. i < n \<Longrightarrow> \<not> shutdown (after_rounds service rounds i s)"
  shows "service_loop shutdown service rounds s = Some (n, after_rounds service rounds n s)"
proof -
  have "(LEAST k. shutdown (after_rounds service rounds k s)) = n"
    using assms by (intro Least_equality) (auto simp: not_less [symmetric])
  then show ?thesis
    using assms(1) by (auto simp: service_loop_def while_option_def funpow_rounds)
qed

lemma service_loop_diverges:
  assumes "\<And>i. \<not> shutdown (after_rounds service rounds i s)"
  shows "service_loop shutdown service rounds s = None"
  using assms by (simp add: service_loop_def while_option_def funpow_rounds)

subsection \<open>Loops that end on request\<close>

text \<open>
  The contract of a round: in a state with the invariant it keeps the invariant, and requests the shutdown
  exactly when something happens in it that does so (\<open>stops\<close>).
\<close>

locale stoppable_service =
  fixes inv :: "'s \<Rightarrow> bool" and shutdown :: "'s \<Rightarrow> bool" and service :: "'r \<Rightarrow> 's \<Rightarrow> 's" and stops :: "'r \<Rightarrow> bool"
  assumes inv_service: "inv s \<Longrightarrow> inv (service r s)"
    and shutdown_service: "inv s \<Longrightarrow> shutdown (service r s) \<longleftrightarrow> shutdown s \<or> stops r"
begin

lemma inv_after: "inv s \<Longrightarrow> inv (after_rounds service rounds n s)"
  by (induction n) (simp_all add: inv_service)

lemma shutdown_after:
  "inv s \<Longrightarrow> shutdown (after_rounds service rounds n s) \<longleftrightarrow> shutdown s \<or> (\<exists>i<n. stops (rounds i))"
  by (induction n) (auto simp: shutdown_service inv_after less_Suc_eq)

lemma loop_ends:
  assumes "inv s" "\<not> shutdown s" "stops (rounds n)"
  shows "\<exists>k\<le>n. service_loop shutdown service rounds s =
    Some (Suc k, after_rounds service rounds (Suc k) s) \<and> stops (rounds k) \<and> (\<forall>i<k. \<not> stops (rounds i))"
proof -
  obtain k where k: "k \<le> n" "stops (rounds k)" "\<forall>i<k. \<not> stops (rounds i)"
    using assms(3) ex_least_nat_le [of "\<lambda>i. stops (rounds i)" n] by blast
  have "service_loop shutdown service rounds s = Some (Suc k, after_rounds service rounds (Suc k) s)"
  proof (rule service_loop_ends)
    show "shutdown (after_rounds service rounds (Suc k) s)"
      using k(2) assms(1) by (subst shutdown_after) auto
    show "\<not> shutdown (after_rounds service rounds i s)" if "i < Suc k" for i
      using that k(3) assms(1,2) by (subst shutdown_after) auto
  qed
  with k show ?thesis by blast
qed

lemma loop_runs_forever:
  assumes "inv s" "\<not> shutdown s" "\<And>n. \<not> stops (rounds n)"
  shows "service_loop shutdown service rounds s = None"
  using assms by (intro service_loop_diverges) (simp add: shutdown_after)

lemma loop_shut_down: "shutdown s \<Longrightarrow> service_loop shutdown service rounds s = Some (0, s)"
  using service_loop_ends [of shutdown service rounds 0 s] by simp

end

end
