(* ===== verification/Server_Loop.thy ===== *)
theory Server_Loop
  imports Server_Handler Service_Loop
begin

text \<open>
  The threads around \<^verbatim>\<open>ws_server\<close> (\<^verbatim>\<open>ws/server.cpp\<close>): the service thread, which polls the handler and calls
  \<^verbatim>\<open>lws_service\<close> until the shutdown is requested, the threads of libfuse in \<^verbatim>\<open>ws_server::perform\<close>, and the thread that
  runs the destructor; and the order in which requests are written.
\<close>

subsection \<open>Writing requests\<close>

interpretation server_queue: write_queue
  sh_requests "\<lambda>s. written (sv_calls s)" "\<lambda>s. snd (on_writable lws_pre s)" "get_data lws_pre"
  "\<lambda>s. \<not> sh_shutdown_requested s" for lws_pre
  by unfold_locales (simp_all add: on_writable_def lws_def Let_def)

subsection \<open>One round of the service thread\<close>

text \<open>
  The body of the loop without interruption: \<^verbatim>\<open>poll\<close>, and one call of \<^verbatim>\<open>lws_service\<close>, during which the library makes
  callbacks in this thread and the threads of libfuse call \<^verbatim>\<open>perform\<close>.
\<close>

datatype server_action =
    Act_callback server_env server_event
  | Act_perform messagewriter

definition server_act :: "nat \<Rightarrow> server_action \<Rightarrow> server \<Rightarrow> server" where
  "server_act lws_pre a s = (case a of
      Act_callback env reason \<Rightarrow> snd (ws_server_callback lws_pre env reason s)
    | Act_perform writer \<Rightarrow> snd (handler_perform lws_pre writer s))"

definition server_thread_round :: "nat \<Rightarrow> server_action list \<Rightarrow> server \<Rightarrow> server" where
  "server_thread_round lws_pre actions s = fold (server_act lws_pre) actions (poll s)"

subsection \<open>The threads\<close>

text \<open>
  Where the service thread is: in front of the test of the loop, in front of \<^verbatim>\<open>poll\<close>, in \<^verbatim>\<open>lws_service\<close>, or at its end;
  and where the destructor is: not called, or in front of \<^verbatim>\<open>lws_cancel_service\<close>, of \<^verbatim>\<open>join\<close>, of
  \<^verbatim>\<open>lws_context_destroy\<close>, or at its end.
\<close>

datatype thread_pc = Thread_test | Thread_poll | Thread_service | Thread_ended

datatype destructor_pc =
    Destructor_not_called
  | Destructor_cancel
  | Destructor_join
  | Destructor_destroy
  | Destructor_done

text \<open>
  \<open>lp_cancelled\<close>: \<^verbatim>\<open>lws_cancel_service\<close> was called, and no call of \<^verbatim>\<open>lws_service\<close> has returned for it yet. \<open>lp_handled\<close>:
  the current call of \<^verbatim>\<open>lws_service\<close> made a callback. \<open>lp_uncancelled\<close> counts the calls of \<^verbatim>\<open>ws_server::perform\<close> that left the
  handler and did not call \<^verbatim>\<open>lws_cancel_service\<close> yet.
\<close>

record server_loop =
  lp_handler :: server_state
  lp_thread :: thread_pc
  lp_shutdown_requested :: bool
  lp_destructor :: destructor_pc
  lp_cancelled :: bool
  lp_handled :: bool
  lp_uncancelled :: nat

definition loop_new :: "string \<Rightarrow> string \<Rightarrow> server_loop" where
  "loop_new auth_app auth_hdr =
    \<lparr>lp_handler = (server_new auth_app auth_hdr, []), lp_thread = Thread_test, lp_shutdown_requested = False,
     lp_destructor = Destructor_not_called, lp_cancelled = False, lp_handled = False, lp_uncancelled = 0\<rparr>"

text \<open>
  The steps of the service thread itself. Whether \<^verbatim>\<open>lws_service\<close> returns, once no callback is running any more, is up to
  the library: the argument \<open>lws_returns\<close> says it by whether the call made a callback and whether it was cancelled. A
  return may use the cancellation up or leave it to the next call.
\<close>

inductive thread_step :: "(bool \<Rightarrow> bool \<Rightarrow> bool) \<Rightarrow> nat \<Rightarrow> server_loop \<Rightarrow> server_loop \<Rightarrow> bool"
  for lws_returns lws_pre where
  test_continues: "lp_thread l = Thread_test \<Longrightarrow> \<not> lp_shutdown_requested l \<Longrightarrow>
    thread_step lws_returns lws_pre l (l\<lparr>lp_thread := Thread_poll\<rparr>)"
| test_ends: "lp_thread l = Thread_test \<Longrightarrow> lp_shutdown_requested l \<Longrightarrow>
    thread_step lws_returns lws_pre l (l\<lparr>lp_thread := Thread_ended\<rparr>)"
| polls: "lp_thread l = Thread_poll \<Longrightarrow> lp_handler l = (s, ps) \<Longrightarrow>
    thread_step lws_returns lws_pre l (l\<lparr>lp_handler := (poll s, ps), lp_thread := Thread_service, lp_handled := False\<rparr>)"
| resumes: "lp_thread l = Thread_service \<Longrightarrow> lp_handler l = (s, ps) \<Longrightarrow> sv_establishing s = Some w \<Longrightarrow>
    thread_step lws_returns lws_pre l (l\<lparr>lp_handler := ((established_ask lws_pre w s)\<lparr>sv_establishing := None\<rparr>, ps),
      lp_handled := True\<rparr>)"
| returns: "lp_thread l = Thread_service \<Longrightarrow> sv_establishing (fst (lp_handler l)) = None \<Longrightarrow>
    lws_returns (lp_handled l) (lp_cancelled l) \<Longrightarrow> cancelled \<longrightarrow> lp_cancelled l \<Longrightarrow>
    thread_step lws_returns lws_pre l (l\<lparr>lp_thread := Thread_test, lp_cancelled := cancelled\<rparr>)"

text \<open>The statements of the destructor, one by one; \<^verbatim>\<open>join\<close> waits for the service thread.\<close>

definition destructor_step :: "server_loop \<Rightarrow> server_loop option" where
  "destructor_step l = (case lp_destructor l of
      Destructor_not_called \<Rightarrow> Some (l\<lparr>lp_shutdown_requested := True, lp_destructor := Destructor_cancel\<rparr>)
    | Destructor_cancel \<Rightarrow> Some (l\<lparr>lp_cancelled := True, lp_destructor := Destructor_join\<rparr>)
    | Destructor_join \<Rightarrow>
        (if lp_thread l = Thread_ended then Some (l\<lparr>lp_destructor := Destructor_destroy\<rparr>) else None)
    | Destructor_destroy \<Rightarrow> Some (l\<lparr>lp_destructor := Destructor_done\<rparr>)
    | Destructor_done \<Rightarrow> None)"

text \<open>
  All threads. A callback is made inside of \<^verbatim>\<open>lws_service\<close>; calls of \<^verbatim>\<open>perform\<close> may come as long as the context exists.
\<close>

inductive loop_step :: "(bool \<Rightarrow> bool \<Rightarrow> bool) \<Rightarrow> nat \<Rightarrow> server_env set \<Rightarrow> server_loop \<Rightarrow> server_loop \<Rightarrow> bool"
  for lws_returns lws_pre envs where
  thread: "thread_step lws_returns lws_pre l l' \<Longrightarrow> loop_step lws_returns lws_pre envs l l'"
| callback: "lp_thread l = Thread_service \<Longrightarrow> service_step lws_pre envs (lp_handler l) st \<Longrightarrow>
    loop_step lws_returns lws_pre envs l (l\<lparr>lp_handler := st, lp_handled := True\<rparr>)"
| raced: "lp_thread l = Thread_service \<Longrightarrow> race_step lws_pre (lp_handler l) st \<Longrightarrow> lp_destructor l \<noteq> Destructor_done \<Longrightarrow>
    loop_step lws_returns lws_pre envs l (l\<lparr>lp_handler := st, lp_handled := True, lp_uncancelled := lp_uncancelled l + 1\<rparr>)"
| perform: "perform_step lws_pre n (lp_handler l) st \<Longrightarrow> lp_destructor l \<noteq> Destructor_done \<Longrightarrow>
    loop_step lws_returns lws_pre envs l (l\<lparr>lp_handler := st, lp_uncancelled := lp_uncancelled l + n\<rparr>)"
| cancels: "0 < lp_uncancelled l \<Longrightarrow> lp_destructor l \<noteq> Destructor_done \<Longrightarrow>
    loop_step lws_returns lws_pre envs l (l\<lparr>lp_cancelled := True, lp_uncancelled := lp_uncancelled l - 1\<rparr>)"
| destructor: "destructor_step l = Some l' \<Longrightarrow> loop_step lws_returns lws_pre envs l l'"

inductive loop_reachable :: "(bool \<Rightarrow> bool \<Rightarrow> bool) \<Rightarrow> nat \<Rightarrow> server_env set \<Rightarrow> string \<Rightarrow> string \<Rightarrow> server_loop \<Rightarrow> bool"
  for lws_returns lws_pre envs auth_app auth_hdr where
  start: "loop_reachable lws_returns lws_pre envs auth_app auth_hdr (loop_new auth_app auth_hdr)"
| step: "loop_reachable lws_returns lws_pre envs auth_app auth_hdr l \<Longrightarrow> loop_step lws_returns lws_pre envs l l' \<Longrightarrow>
    loop_reachable lws_returns lws_pre envs auth_app auth_hdr l'"

subsection \<open>The invariant\<close>

text \<open>The library will call \<^verbatim>\<open>on_writable\<close>: that was the last thing the handler asked for.\<close>

definition writable_due :: "server \<Rightarrow> bool" where
  "writable_due s \<longleftrightarrow> (\<exists>w. sh_connection s = Some w \<and> sv_calls s \<noteq> [] \<and>
    last (sv_calls s) = Lws_callback_on_writable (Some w))"

text \<open>The service thread sleeps: nothing makes \<^verbatim>\<open>lws_service\<close> return.\<close>

definition asleep :: "(bool \<Rightarrow> bool \<Rightarrow> bool) \<Rightarrow> server_loop \<Rightarrow> bool" where
  "asleep lws_returns l \<longleftrightarrow> lp_thread l = Thread_service \<and> sv_establishing (fst (lp_handler l)) = None \<and>
    \<not> lws_returns (lp_handled l) (lp_cancelled l)"

text \<open>What the library documents: it returns after it handled events, and when it was cancelled.\<close>

definition lws_service_documented :: "(bool \<Rightarrow> bool \<Rightarrow> bool) \<Rightarrow> bool" where
  "lws_service_documented lws_returns \<longleftrightarrow> (\<forall>handled cancelled. handled \<or> cancelled \<longrightarrow> lws_returns handled cancelled)"

lemma asleepD:
  "lws_service_documented lws_returns \<Longrightarrow> asleep lws_returns l \<Longrightarrow>
    lp_thread l = Thread_service \<and> \<not> lp_handled l \<and> \<not> lp_cancelled l"
  unfolding asleep_def lws_service_documented_def by blast

definition loop_ok :: "server_loop \<Rightarrow> bool" where
  "loop_ok l \<longleftrightarrow> (let s = fst (lp_handler l) in
    (sv_establishing s \<noteq> None \<longrightarrow> lp_thread l = Thread_service \<and> lp_handled l) \<and>
    (lp_thread l = Thread_service \<and> \<not> lp_handled l \<and> \<not> lp_cancelled l \<and> lp_uncancelled l = 0 \<longrightarrow>
      sh_requests s = [] \<or> writable_due s) \<and>
    (lp_destructor l = Destructor_not_called \<longleftrightarrow> \<not> lp_shutdown_requested l) \<and>
    (lp_thread l = Thread_ended \<longrightarrow> lp_shutdown_requested l) \<and>
    (lp_destructor l = Destructor_join \<longrightarrow> lp_thread l = Thread_poll \<or> lp_thread l = Thread_service \<longrightarrow>
      lp_cancelled l \<or> lp_thread l = Thread_service \<and> lp_handled l) \<and>
    (lp_destructor l \<in> {Destructor_destroy, Destructor_done} \<longrightarrow> lp_thread l = Thread_ended))"

lemma loop_ok_new: "loop_ok (loop_new app hdr)"
  by (simp add: loop_ok_def loop_new_def)

text \<open>\<^verbatim>\<open>poll\<close> leaves either an empty queue or a callback that is due.\<close>

lemma poll_due: "sh_requests (poll s) = [] \<or> writable_due (poll s)"
  by (auto simp: poll_def pending_clear_def writable_due_def split: option.splits)

lemma loop_ok_thread: "thread_step lws_returns lws_pre l l' \<Longrightarrow> loop_ok l \<Longrightarrow> loop_ok l'"
proof (induction rule: thread_step.induct)
  case (polls l s ps)
  then show ?case using poll_due [of s] by (auto simp: loop_ok_def Let_def)
qed (auto simp: loop_ok_def Let_def)

text \<open>A call of \<^verbatim>\<open>perform\<close> that changes the queue has not yet called \<^verbatim>\<open>lws_cancel_service\<close>.\<close>

lemma perform_step_keeps:
  assumes "perform_step lws_pre n st st'"
  shows "sv_establishing (fst st') = sv_establishing (fst st)"
    and "n = 0 \<Longrightarrow> sh_requests (fst st') = sh_requests (fst st) \<and> writable_due (fst st') = writable_due (fst st)"
  using assms
  by (induction rule: perform_step.induct)
    (auto simp: promise_new_def perform_enqueue_def pending_emplace_def promise_destroy_def next_id_def
      writable_due_def case_prod_unfold Let_def split: option.splits)

lemma loop_ok_step: "loop_step lws_returns lws_pre envs l l' \<Longrightarrow> loop_ok l \<Longrightarrow> loop_ok l'"
proof (induction rule: loop_step.induct)
  case (thread l l')
  then show ?case by (rule loop_ok_thread)
next
  case (perform n l st)
  then show ?case
    using perform_step_keeps [OF perform(1)] by (auto simp: loop_ok_def Let_def)
next
  case (destructor l l')
  then show ?case
    by (auto simp: loop_ok_def destructor_step_def Let_def
        split: destructor_pc.splits if_splits)
qed (auto simp: loop_ok_def Let_def)

lemma loop_ok_reachable: "loop_reachable lws_returns lws_pre envs app hdr l \<Longrightarrow> loop_ok l"
  by (induction rule: loop_reachable.induct) (auto intro: loop_ok_new loop_ok_step)

text \<open>The loop makes steps of the handler only.\<close>

lemma loop_step_handler:
  "loop_step lws_returns lws_pre envs l l' \<Longrightarrow> loop_ok l \<Longrightarrow>
    lp_handler l' = lp_handler l \<or> server_step lws_pre envs (lp_handler l) (lp_handler l')"
proof (induction rule: loop_step.induct)
  case (thread l l')
  then show ?case
    by (induction rule: thread_step.induct)
      (auto simp: loop_ok_def intro: server_step.poll server_step.service service_step.established_resumed)
qed (auto intro: server_step.intros simp: destructor_step_def split: destructor_pc.splits if_splits)

lemma loop_handler_reachable:
  "loop_reachable lws_returns lws_pre envs app hdr l \<Longrightarrow> server_reachable lws_pre envs app hdr (lp_handler l)"
proof (induction rule: loop_reachable.induct)
  case start
  show ?case by (simp add: loop_new_def server_reachable.start)
next
  case (step l l')
  then show ?case using loop_step_handler [OF step(2) loop_ok_reachable] server_reachable.step by metis
qed

text \<open>How many steps the service thread has left once the shutdown is requested.\<close>

definition steps_left :: "server_loop \<Rightarrow> nat" where
  "steps_left l = (case lp_thread l of
      Thread_poll \<Rightarrow> 4
    | Thread_service \<Rightarrow> (if sv_establishing (fst (lp_handler l)) = None then 2 else 3)
    | Thread_test \<Rightarrow> 1
    | Thread_ended \<Rightarrow> 0)"

lemma thread_progress:
  assumes "lws_service_documented lws_returns" and "loop_ok l" and "lp_destructor l = Destructor_join"
    and "lp_thread l \<noteq> Thread_ended"
  shows "\<exists>l'. thread_step lws_returns lws_pre l l'"
proof (cases "lp_thread l")
  case Thread_test
  then show ?thesis using thread_step.test_continues thread_step.test_ends by blast
next
  case Thread_poll
  then show ?thesis using thread_step.polls by (metis surjective_pairing)
next
  case Thread_service
  then show ?thesis
    using assms(1-3) thread_step.resumes thread_step.returns
    unfolding loop_ok_def lws_service_documented_def Let_def by (metis option.exhaust surjective_pairing)
qed (use assms in simp)

lemma thread_step_closer:
  assumes "thread_step lws_returns lws_pre l l'" and "lp_shutdown_requested l"
  shows "steps_left l' < steps_left l" and "lp_destructor l' = lp_destructor l"
  using assms by (cases rule: thread_step.cases; auto simp: steps_left_def)+

lemma thread_runs_to_end:
  assumes doc: "lws_service_documented lws_returns" and "loop_ok l" and "lp_destructor l = Destructor_join"
  shows "\<exists>n l'. n \<le> steps_left l \<and> (thread_step lws_returns lws_pre ^^ n) l l' \<and> lp_thread l' = Thread_ended \<and>
    lp_destructor l' = Destructor_join"
  using assms(2,3)
proof (induction "steps_left l" arbitrary: l rule: less_induct)
  case less
  show ?case
  proof (cases "lp_thread l = Thread_ended")
    case True
    then show ?thesis using less.prems by (intro exI [of _ 0]) auto
  next
    case False
    then obtain l1 where l1: "thread_step lws_returns lws_pre l l1" using thread_progress [OF doc less.prems] by blast
    have "lp_shutdown_requested l" using less.prems by (simp add: loop_ok_def Let_def)
    note closer = thread_step_closer [OF l1 this]
    from less.hyps [OF closer(1) loop_ok_thread [OF l1 less.prems(1)]] closer(2) less.prems(2)
    obtain n l' where n: "n \<le> steps_left l1" "(thread_step lws_returns lws_pre ^^ n) l1 l'" "lp_thread l' = Thread_ended"
      "lp_destructor l' = Destructor_join" by auto
    with closer(1) show ?thesis
      using relpowp_Suc_I2 [of "thread_step lws_returns lws_pre", OF l1 n(2)]
      by (intro exI [of _ "Suc n"] exI [of _ l']) simp
  qed
qed

lemma steps_left_bound: "steps_left l \<le> 4"
  by (simp add: steps_left_def split: thread_pc.splits)

subsection \<open>Properties\<close>

text \<open>
  Requests leave in the order in which they were queued: once the connection was writable often enough,
  exactly the queued requests have been written, oldest first, and none is left.
\<close>

theorem server_writes_in_order:
  assumes "\<not> sh_shutdown_requested s" and "length (sh_requests s) \<le> n"
  shows "let s' = ((\<lambda>s. snd (on_writable lws_pre s)) ^^ n) s in
    sh_requests s' = [] \<and> written (sv_calls s') = written (sv_calls s) @ map (get_data lws_pre) (sh_requests s)"
  using server_queue.drained [OF assms] by (simp add: Let_def)

theorem server_writes_in_order_witness:
  "let s = (server_new '''' '''')\<lparr>sh_requests := [\<lparr>mw_id = 1, mw_data = [0, 7]\<rparr>, \<lparr>mw_id = 2, mw_data = [0, 8]\<rparr>]\<rparr>
   in written (sv_calls (((\<lambda>s. snd (on_writable 1 s)) ^^ 2) s)) = [[7], [8]]"
  using server_writes_in_order [of "(server_new '''' '''')\<lparr>sh_requests :=
      [\<lparr>mw_id = 1, mw_data = [0, 7]\<rparr>, \<lparr>mw_id = 2, mw_data = [0, 8]\<rparr>]\<rparr>" 2 1]
  by (simp add: server_new_def get_data_def Let_def)

text \<open>
  C22. The service thread, in every state that it, the destructor and the calls of \<^verbatim>\<open>perform\<close> can reach in any
  interleaving, with a library that behaves as documented: \<^verbatim>\<open>lws_service\<close> returns after it handled events and after
  \<^verbatim>\<open>lws_cancel_service\<close>. No wake-up is lost: once the destructor waits in \<^verbatim>\<open>join\<close>, the service thread does not sleep any more, and
  needs at most four steps of its own until \<^verbatim>\<open>join\<close> returns; before the destructor sets the flag it does not end, and the
  context is destroyed only after it ended. No request is forgotten: when the thread sleeps and no call of \<^verbatim>\<open>perform\<close> is still to wake
  it, the queue is empty or the library was asked to call back when the connection is writable. The state of the handler is
  one that \<open>server_step\<close> reaches.
\<close>

theorem server_thread_joins:
  assumes "loop_reachable lws_returns lws_pre envs auth_app auth_hdr l" and "lws_service_documented lws_returns"
  shows "(lp_destructor l = Destructor_join \<longrightarrow> \<not> asleep lws_returns l \<and>
      (\<exists>n l'. n \<le> 4 \<and> (thread_step lws_returns lws_pre ^^ n) l l' \<and> lp_thread l' = Thread_ended \<and>
        destructor_step l' \<noteq> None)) \<and>
    (lp_destructor l = Destructor_not_called \<longrightarrow> lp_thread l \<noteq> Thread_ended) \<and>
    (lp_destructor l \<in> {Destructor_destroy, Destructor_done} \<longrightarrow> lp_thread l = Thread_ended) \<and>
    (asleep lws_returns l \<and> lp_uncancelled l = 0 \<longrightarrow>
      sh_requests (fst (lp_handler l)) = [] \<or> writable_due (fst (lp_handler l))) \<and>
    server_reachable lws_pre envs auth_app auth_hdr (lp_handler l)"
proof -
  have ok: "loop_ok l" using assms(1) by (rule loop_ok_reachable)
  have "\<exists>n l'. n \<le> 4 \<and> (thread_step lws_returns lws_pre ^^ n) l l' \<and> lp_thread l' = Thread_ended \<and> destructor_step l' \<noteq> None"
    if join: "lp_destructor l = Destructor_join"
  proof -
    obtain n l' where "n \<le> steps_left l" "(thread_step lws_returns lws_pre ^^ n) l l'" "lp_thread l' = Thread_ended"
      "lp_destructor l' = Destructor_join"
      using thread_runs_to_end [OF assms(2) ok join] by blast
    then show ?thesis
      using steps_left_bound [of l] by (intro exI [of _ n] exI [of _ l']) (simp add: destructor_step_def)
  qed
  moreover have "\<not> asleep lws_returns l" if "lp_destructor l = Destructor_join"
    using that ok asleepD [OF assms(2), of l] by (auto simp: loop_ok_def Let_def)
  moreover have "sh_requests (fst (lp_handler l)) = [] \<or> writable_due (fst (lp_handler l))"
    if "asleep lws_returns l" "lp_uncancelled l = 0"
    using that(2) ok asleepD [OF assms(2) that(1)] by (simp add: loop_ok_def Let_def)
  moreover have "lp_destructor l = Destructor_not_called \<longrightarrow> lp_thread l \<noteq> Thread_ended"
    "lp_destructor l \<in> {Destructor_destroy, Destructor_done} \<longrightarrow> lp_thread l = Thread_ended"
    using ok by (auto simp: loop_ok_def Let_def)
  ultimately show ?thesis using loop_handler_reachable [OF assms(1)] by blast
qed

text \<open>The destructor is called while the thread sleeps in \<^verbatim>\<open>lws_service\<close>.\<close>

theorem server_thread_joins_witness:
  "\<exists>l. loop_reachable (\<or>) 16 {null_env} '''' '''' l \<and> lp_thread l = Thread_service \<and> lp_destructor l = Destructor_join \<and>
    \<not> lp_handled l \<and>
    (\<exists>n l'. n \<le> 4 \<and> (thread_step (\<or>) 16 ^^ n) l l' \<and> lp_thread l' = Thread_ended \<and> destructor_step l' \<noteq> None)"
proof -
  let ?l1 = "(loop_new '''' '''')\<lparr>lp_thread := Thread_poll\<rparr>"
  let ?l2 = "?l1\<lparr>lp_handler := (poll (server_new '''' ''''), []), lp_thread := Thread_service, lp_handled := False\<rparr>"
  let ?l3 = "?l2\<lparr>lp_shutdown_requested := True, lp_destructor := Destructor_cancel\<rparr>"
  let ?l4 = "?l3\<lparr>lp_cancelled := True, lp_destructor := Destructor_join\<rparr>"
  have "loop_step (\<or>) 16 {null_env} (loop_new '''' '''') ?l1"
    by (intro loop_step.thread thread_step.test_continues) (simp_all add: loop_new_def)
  moreover have "loop_step (\<or>) 16 {null_env} ?l1 ?l2"
    by (intro loop_step.thread thread_step.polls) (simp_all add: loop_new_def)
  moreover have "loop_step (\<or>) 16 {null_env} ?l2 ?l3" "loop_step (\<or>) 16 {null_env} ?l3 ?l4"
    by (rule loop_step.destructor, simp add: destructor_step_def loop_new_def)+
  ultimately have l4: "loop_reachable (\<or>) 16 {null_env} '''' '''' ?l4"
    by (meson loop_reachable.intros)
  show ?thesis
    using server_thread_joins [OF l4] l4 by (intro exI [of _ ?l4]) (simp add: lws_service_documented_def)
qed

end
