(* ===== verification/Connection_Loss.thy ===== *)
theory Connection_Loss
  imports Handshake Server_Loop "HOL-Library.Sublist"
begin

text \<open>
  The connection breaks while calls are under way. The two programs notice it independently of each other, in any order:
  the service by the callback that ends in \<^verbatim>\<open>server_handler::on_closed\<close>, the provider by the one that resets the state of
  the client. Messages in transit to an end that is closed are lost. The lemmas show what remains true of
  the calls: the provider has executed a prefix of them, each once and in order, and no caller is given a wrong answer.
  The last part is about what the service keeps for the next connection.
\<close>

subsection \<open>The transition system\<close>

text \<open>
  The second component of the state says whether the provider's end is open; the service's end is open as long as the
  handler has a connection. A thread of libfuse, the service thread and an open end do the steps of \<open>network_step\<close>; a call
  that starts when the service is closed is refused.
\<close>

inductive loss_step ::
    "nat \<Rightarrow> uninit \<Rightarrow> 's filesystem_i \<Rightarrow> wsi \<Rightarrow> wsi \<Rightarrow> 's network \<times> bool \<Rightarrow> 's network \<times> bool \<Rightarrow> bool"
  for lws_pre un fs ws wc where
  call: "t \<noteq> request_getcreds \<Longrightarrow> sh_is_authenticated (nw_server n) \<Longrightarrow> promise_new (nw_server n) = (p, sv) \<Longrightarrow>
    loss_step lws_pre un fs ws wc (n, b)
      (n\<lparr>nw_server := sv, nw_calls := (p, request_message lws_pre t body) # nw_calls n\<rparr>, b)"
| refuse: "\<not> sh_is_authenticated (nw_server n) \<Longrightarrow>
    loss_step lws_pre un fs ws wc (n, b) (n\<lparr>nw_server := snd (handler_perform lws_pre writer (nw_server n))\<rparr>, b)"
| lock: "t \<noteq> request_getcreds \<Longrightarrow> (p, request_message lws_pre t body) \<in> set (nw_calls n) \<Longrightarrow>
    loss_step lws_pre un fs ws wc (n, b)
      (n\<lparr>nw_server := perform_enqueue lws_pre (request_message lws_pre t body) p (nw_server n),
         nw_calls := remove1 (p, request_message lws_pre t body) (nw_calls n),
         nw_log := nw_log n @ [(fst (next_id (nw_server n)), p, t, body)]\<rparr>, b)"
| wake: "loss_step lws_pre un fs ws wc (n, b) (n\<lparr>nw_server := lws Lws_cancel_service (nw_server n)\<rparr>, b)"
| poll: "loss_step lws_pre un fs ws wc (n, b) (n\<lparr>nw_server := poll (nw_server n)\<rparr>, b)"
| server_writable: "sh_connection (nw_server n) = Some ws \<Longrightarrow> sv = snd (on_writable lws_pre (nw_server n)) \<Longrightarrow>
    loss_step lws_pre un fs ws wc (n, b)
      (n\<lparr>nw_server := sv, nw_down := nw_down n @ new_messages (sv_calls (nw_server n)) (sv_calls sv)\<rparr>, b)"
| client_receives: "nw_down n = d # ds \<Longrightarrow>
    client_receive (on_message lws_pre un fs) wc d True (nw_client n) = (Inr (), cl) \<Longrightarrow>
    loss_step lws_pre un fs ws wc (n, True) (n\<lparr>nw_down := ds, nw_client := cl\<rparr>, True)"
| client_writable: "cl = client_writeable lws_pre wc (nw_client n) \<Longrightarrow>
    loss_step lws_pre un fs ws wc (n, True)
      (n\<lparr>nw_client := cl, nw_up := nw_up n @ new_messages (cl_calls (nw_client n)) (cl_calls cl)\<rparr>, True)"
| server_receives: "sh_connection (nw_server n) = Some ws \<Longrightarrow> nw_up n = d # ds \<Longrightarrow>
    loss_step lws_pre un fs ws wc (n, b) (n\<lparr>nw_up := ds, nw_server := on_receive env ws d True (nw_server n)\<rparr>, b)"
| server_closed: "sh_connection (nw_server n) = Some ws \<Longrightarrow>
    loss_step lws_pre un fs ws wc (n, b) (n\<lparr>nw_up := [], nw_server := on_closed ws (nw_server n)\<rparr>, b)"
| client_closed:
    "loss_step lws_pre un fs ws wc (n, True) (n\<lparr>nw_down := [], nw_client := client_disconnected (nw_client n)\<rparr>, False)"

inductive loss_run ::
    "nat \<Rightarrow> uninit \<Rightarrow> 's filesystem_i \<Rightarrow> wsi \<Rightarrow> wsi \<Rightarrow> 's network \<times> bool \<Rightarrow> 's network \<times> bool \<Rightarrow> bool"
  for lws_pre un fs ws wc st0 where
  start: "loss_run lws_pre un fs ws wc st0 st0"
| step: "loss_run lws_pre un fs ws wc st0 st \<Longrightarrow> loss_step lws_pre un fs ws wc st st' \<Longrightarrow>
    loss_run lws_pre un fs ws wc st0 st'"

text \<open>While both ends are open, this is the system without losses.\<close>

definition intact :: "wsi \<Rightarrow> 's network \<times> bool \<Rightarrow> bool" where
  "intact ws = (\<lambda>(n, b). b \<and> sh_connection (nw_server n) = Some ws)"

lemma loss_step_intact:
  assumes "loss_step lws_pre un fs ws wc (n, b) (n', b')" and "intact ws (n, b)" and "intact ws (n', b')"
    and "session ws (nw_server n)"
  shows "network_step lws_pre un fs ws wc n n'"
  using assms(1)
proof cases
  case server_closed
  with assms(3) show ?thesis by (simp add: intact_def on_closed_def)
qed (use assms(2-4) in \<open>auto simp: intact_def session_def intro: network_step.intros\<close>)

subsection \<open>The invariant of a broken connection\<close>

definition broken :: future where
  "broken = Future_exception (Future_error ''broken promise'')"

text \<open>
  The promises of the delivered answers \<open>ds\<close> have them as values. Every other promise of the log is in the map and waits,
  or it is broken.
\<close>

definition accounted ::
    "entry list \<Rightarrow> (u32 \<times> promise \<times> messagereader) list \<Rightarrow> future list \<Rightarrow> (u32 \<rightharpoonup> promise) \<Rightarrow> bool" where
  "accounted es ds fs m \<longleftrightarrow>
    (\<forall>(i, p, x) \<in> set ds. p < length fs \<and> fs ! p = Future_value x) \<and>
    (\<forall>(i, p, t, body) \<in> set es. i \<notin> fst ` set ds \<longrightarrow>
      p < length fs \<and> (fs ! p = Future_waiting \<and> m i = Some p \<or> fs ! p = broken)) \<and>
    (\<forall>i p. m i = Some p \<longrightarrow> i \<in> fst ` set es)"

lemma delivered_accounted:
  assumes "delivered es ds (sv_futures sv) (sh_pending_responses sv)" and "promises_ok (sv, calls)"
  shows "accounted es ds (sv_futures sv) (sh_pending_responses sv)"
proof -
  have "p < length (sv_futures sv) \<and> sv_futures sv ! p = Future_waiting \<and> sh_pending_responses sv i = Some p"
    if "(i, p, t, body) \<in> set es" "i \<notin> fst ` set ds" for i p t body
  proof -
    have "sh_pending_responses sv i = Some p" using assms(1) that unfolding delivered_def by blast
    then show ?thesis using assms(2) by (auto simp: promises_ok_def owned_ok_def)
  qed
  then show ?thesis
    using assms(1) delivered_pending [OF assms(1)] unfolding accounted_def delivered_def by fastforce
qed

lemma accounted_append: "accounted es ds fs m \<Longrightarrow> accounted es ds (fs @ gs) m"
  unfolding accounted_def by (fastforce simp: nth_append)

lemma accounted_lock:
  assumes "accounted es ds fs m" and "i \<notin> fst ` set es" and "p < length fs" and "fs ! p = Future_waiting"
  shows "accounted (es @ [(i, p, t, body)]) ds fs (m(i \<mapsto> p))"
  using assms unfolding accounted_def by (force simp: image_iff)

lemma break_simps [simp]:
  "break_future Future_waiting = broken" "break_future (Future_value x) = Future_value x" "break_future broken = broken"
  by (simp_all add: break_future_def broken_def)

lemma pending_clear_sel:
  "sh_pending_responses (pending_clear sv) = Map.empty" "length (sv_futures (pending_clear sv)) = length (sv_futures sv)"
  "p < length (sv_futures sv) \<Longrightarrow> sv_futures (pending_clear sv) ! p =
    (if p \<in> ran (sh_pending_responses sv) then break_future (sv_futures sv ! p) else sv_futures sv ! p)"
  by (simp_all add: pending_clear_def)

lemma accounted_clear:
  assumes "accounted es ds (sv_futures sv) (sh_pending_responses sv)"
  shows "accounted es ds (sv_futures (pending_clear sv)) (sh_pending_responses (pending_clear sv))"
proof -
  let ?fs = "sv_futures sv" and ?fs' = "sv_futures (pending_clear sv)" and ?m = "sh_pending_responses sv"
  have "p < length ?fs' \<and> ?fs' ! p = Future_value x" if "p < length ?fs \<and> ?fs ! p = Future_value x" for p x
    using that by (simp add: pending_clear_sel)
  moreover have "p < length ?fs' \<and> ?fs' ! p = broken"
    if "p < length ?fs \<and> (?fs ! p = Future_waiting \<and> ?m i = Some p \<or> ?fs ! p = broken)" for i p
    using that by (auto simp: pending_clear_sel ranI)
  ultimately show ?thesis
    using assms unfolding accounted_def by (fastforce simp: pending_clear_sel)
qed

text \<open>
  What holds once an end is closed. While the provider is open, what it can still receive is the beginning of the
  requests it has not executed; while the service is open, what it can still receive is the beginning of the answers that are
  missing.
\<close>

definition severed ::
    "nat \<Rightarrow> uninit \<Rightarrow> 's filesystem_i \<Rightarrow> wsi \<Rightarrow> nat \<Rightarrow> 's \<Rightarrow> 's network \<Rightarrow> bool \<Rightarrow> entry list \<Rightarrow> entry list \<Rightarrow>
      (exn + messagereader) list \<Rightarrow> (u32 \<times> promise \<times> messagereader) list \<Rightarrow>
      (u32 \<times> promise \<times> messagereader) list \<Rightarrow> bool" where
  "severed lws_pre un fs ws base s n b es qs vs ds us \<longleftrightarrow>
    promises_ok (nw_server n, nw_calls n) \<and> nw_log n = es @ qs \<and> numbered base (es @ qs) (nw_server n) \<and>
    (\<forall>(i, p, t, body) \<in> set (es @ qs). t \<noteq> request_getcreds) \<and>
    serial lws_pre un fs es s = (vs, cl_fs (nw_client n)) \<and> replies es vs = ds @ us \<and>
    accounted (es @ qs) ds (sv_futures (nw_server n)) (sh_pending_responses (nw_server n)) \<and>
    (b \<longrightarrow> sh_connection (nw_server n) = None \<and> cl_current_message (nw_client n) = [] \<and>
      prefix (nw_down n) (map message qs)) \<and>
    (sh_connection (nw_server n) \<noteq> None \<longrightarrow> session ws (nw_server n) \<and> (\<forall>(i, p, x) \<in> set us. answered_as i x) \<and>
      prefix (nw_up n) (map (\<lambda>(i, p, x). mr_data x) us) \<and>
      delivered (es @ qs) ds (sv_futures (nw_server n)) (sh_pending_responses (nw_server n)))"


lemma severedI:
  assumes "promises_ok (nw_server n, nw_calls n)" and "nw_log n = es @ qs" and "numbered base (es @ qs) (nw_server n)"
    and "\<forall>(i, p, t, body) \<in> set (es @ qs). t \<noteq> request_getcreds"
    and "serial lws_pre un fs es s = (vs, cl_fs (nw_client n))" and "replies es vs = ds @ us"
    and "accounted (es @ qs) ds (sv_futures (nw_server n)) (sh_pending_responses (nw_server n))"
    and "b \<Longrightarrow> sh_connection (nw_server n) = None" and "b \<Longrightarrow> cl_current_message (nw_client n) = []"
    and "b \<Longrightarrow> prefix (nw_down n) (map message qs)"
    and "sh_connection (nw_server n) \<noteq> None \<Longrightarrow> session ws (nw_server n)"
    and "sh_connection (nw_server n) \<noteq> None \<Longrightarrow> \<forall>(i, p, x) \<in> set us. answered_as i x"
    and "sh_connection (nw_server n) \<noteq> None \<Longrightarrow> prefix (nw_up n) (map (\<lambda>(i, p, x). mr_data x) us)"
    and "sh_connection (nw_server n) \<noteq> None \<Longrightarrow>
      delivered (es @ qs) ds (sv_futures (nw_server n)) (sh_pending_responses (nw_server n))"
  shows "severed lws_pre un fs ws base s n b es qs vs ds us"
  unfolding severed_def using assms by blast

lemma severedD:
  assumes "severed lws_pre un fs ws base s n b es qs vs ds us"
  shows "promises_ok (nw_server n, nw_calls n)" and "nw_log n = es @ qs" and "numbered base (es @ qs) (nw_server n)"
    and "\<forall>(i, p, t, body) \<in> set (es @ qs). t \<noteq> request_getcreds"
    and "serial lws_pre un fs es s = (vs, cl_fs (nw_client n))" and "replies es vs = ds @ us"
    and "accounted (es @ qs) ds (sv_futures (nw_server n)) (sh_pending_responses (nw_server n))"
    and "b \<Longrightarrow> sh_connection (nw_server n) = None" and "b \<Longrightarrow> cl_current_message (nw_client n) = []"
    and "b \<Longrightarrow> prefix (nw_down n) (map message qs)"
    and "sh_connection (nw_server n) \<noteq> None \<Longrightarrow> session ws (nw_server n)"
    and "sh_connection (nw_server n) \<noteq> None \<Longrightarrow> \<forall>(i, p, x) \<in> set us. answered_as i x"
    and "sh_connection (nw_server n) \<noteq> None \<Longrightarrow> prefix (nw_up n) (map (\<lambda>(i, p, x). mr_data x) us)"
    and "sh_connection (nw_server n) \<noteq> None \<Longrightarrow>
      delivered (es @ qs) ds (sv_futures (nw_server n)) (sh_pending_responses (nw_server n))"
  using assms unfolding severed_def by blast+

subsection \<open>The connection breaks\<close>

lemma on_closed_sel [simp]:
  "sv_futures (on_closed w sv) = sv_futures sv" "sh_pending_responses (on_closed w sv) = sh_pending_responses sv"
  "sh_id (on_closed w sv) = sh_id sv" "sh_requests (on_closed w sv) = sh_requests sv"
  by (simp_all add: on_closed_def)

lemma client_disconnected_sel [simp]: "cl_fs (client_disconnected cl) = cl_fs cl"
  by (simp add: client_disconnected_def connection_listener_def)

lemma severed_by_service:
  assumes "history lws_pre un fs ws base s n es qs vs ds us"
  shows "severed lws_pre un fs ws base s (n\<lparr>nw_up := [], nw_server := on_closed ws (nw_server n)\<rparr>) True es qs vs ds us"
proof -
  note D = historyD [OF assms]
  have "prefix (nw_down n) (map message qs)" using D(8) by (metis prefixI)
  moreover have "sh_connection (on_closed ws (nw_server n)) = None"
    using D(1) by (simp add: session_def on_closed_def)
  ultimately show ?thesis
    using D delivered_accounted [OF D(12,2)]
    by (intro severedI) (simp_all add: promises_ok_def numbered_def)
qed

lemma severed_by_provider:
  assumes "history lws_pre un fs ws base s n es qs vs ds us"
  shows "severed lws_pre un fs ws base s (n\<lparr>nw_down := [], nw_client := client_disconnected (nw_client n)\<rparr>) False
    es qs vs ds us"
proof -
  note D = historyD [OF assms]
  have "prefix (nw_up n) (map (\<lambda>(i, p, x). mr_data x) us)" using D(11) by (metis prefixI)
  then show ?thesis
    using D delivered_accounted [OF D(12,2)] by (intro severedI) simp_all
qed

lemma severed_server_closed:
  assumes "severed lws_pre un fs ws base s n b es qs vs ds us" and "sh_connection (nw_server n) = Some ws"
  shows "severed lws_pre un fs ws base s (n\<lparr>nw_up := [], nw_server := on_closed ws (nw_server n)\<rparr>) b es qs vs ds us"
proof -
  note D = severedD [OF assms(1)]
  have "sh_connection (on_closed ws (nw_server n)) = None" "\<not> b"
    using assms(2) D(8) by (auto simp: on_closed_def)
  then show ?thesis
    using D(1-7) by (intro severedI) (simp_all add: promises_ok_def numbered_def)
qed

lemma severed_client_closed:
  assumes "severed lws_pre un fs ws base s n True es qs vs ds us"
  shows "severed lws_pre un fs ws base s (n\<lparr>nw_down := [], nw_client := client_disconnected (nw_client n)\<rparr>) False
    es qs vs ds us"
  using severedD [OF assms] by (intro severedI) simp_all

subsection \<open>Every step keeps the invariant\<close>

text \<open>Steps of the service that neither take the lock nor deliver an answer.\<close>

lemma severed_server:
  assumes "severed lws_pre un fs ws base s n b es qs vs ds us" and "promises_ok (sv, calls)"
    and "sh_id sv = sh_id (nw_server n)" and "sh_connection sv = sh_connection (nw_server n)"
    and "accounted (es @ qs) ds (sv_futures sv) (sh_pending_responses sv)"
    and "sh_connection sv \<noteq> None \<Longrightarrow> session ws sv \<and> delivered (es @ qs) ds (sv_futures sv) (sh_pending_responses sv)"
    and "b \<Longrightarrow> down = nw_down n"
  shows "severed lws_pre un fs ws base s (n\<lparr>nw_server := sv, nw_calls := calls, nw_down := down\<rparr>) b es qs vs ds us"
  using severedD [OF assms(1)] assms(2-7) by (intro severedI) (simp_all add: numbered_def)

lemma severed_call:
  assumes S: "severed lws_pre un fs ws base s n b es qs vs ds us" and new: "promise_new (nw_server n) = (p, sv)"
  shows "severed lws_pre un fs ws base s (n\<lparr>nw_server := sv, nw_calls := (p, writer) # nw_calls n\<rparr>) b es qs vs ds us"
proof -
  note D = severedD [OF S]
  have sv: "sv = (nw_server n)\<lparr>sv_futures := sv_futures (nw_server n) @ [Future_waiting]\<rparr>"
    using new by (simp add: promise_new_def)
  show ?thesis
    using severed_server [OF S promises_ok_new [OF D(1) new, of writer], where down = "nw_down n"] D(7,11,14)
    by (simp add: sv accounted_append delivered_append session_def)
qed

lemma severed_refuse:
  assumes S: "severed lws_pre un fs ws base s n b es qs vs ds us" and un: "\<not> sh_is_authenticated (nw_server n)"
  shows "severed lws_pre un fs ws base s (n\<lparr>nw_server := snd (handler_perform lws_pre writer (nw_server n))\<rparr>) b
    es qs vs ds us"
proof -
  note D = severedD [OF S]
  have "sh_connection (nw_server n) = None" using D(11) un by (metis session_def)
  then show ?thesis
    using severed_server [OF S promises_ok_refused [OF D(1) un, of lws_pre writer], where down = "nw_down n"] D(7) un
    by (simp add: perform_refused_eq accounted_append)
qed

lemma severed_lws:
  assumes S: "severed lws_pre un fs ws base s n b es qs vs ds us"
  shows "severed lws_pre un fs ws base s (n\<lparr>nw_server := lws c (nw_server n)\<rparr>) b es qs vs ds us"
proof -
  note D = severedD [OF S]
  have "promises_ok (lws c (nw_server n), nw_calls n)" using D(1) by (simp add: promises_ok_def)
  from severed_server [OF S this, where down = "nw_down n"] D(7,11,14) show ?thesis
    by (simp add: session_def)
qed

lemma severed_poll:
  assumes S: "severed lws_pre un fs ws base s n b es qs vs ds us"
  shows "severed lws_pre un fs ws base s (n\<lparr>nw_server := poll (nw_server n)\<rparr>) b es qs vs ds us"
proof (cases "sh_connection (nw_server n) = None \<and> sh_requests (nw_server n) \<noteq> []")
  case True
  note D = severedD [OF S]
  let ?sv = "(nw_server n)\<lparr>sh_requests := []\<rparr>"
  have poll: "poll (nw_server n) = pending_clear ?sv" using True by (simp add: poll_def)
  have "accounted (es @ qs) ds (sv_futures (pending_clear ?sv)) (sh_pending_responses (pending_clear ?sv))"
    using D(7) by (intro accounted_clear) simp
  then show ?thesis
    using severed_server [OF S promises_ok_poll [OF D(1)], where down = "nw_down n"] True
    by (simp add: poll) (simp add: pending_clear_def)
next
  case False
  then have "poll (nw_server n) = nw_server n \<or> (\<exists>c. poll (nw_server n) = lws c (nw_server n))"
    by (auto simp: poll_def split: option.splits)
  then show ?thesis using S severed_lws [OF S] by auto
qed

lemma severed_server_writable:
  assumes S: "severed lws_pre un fs ws base s n b es qs vs ds us" and conn: "sh_connection (nw_server n) = Some ws"
  shows "severed lws_pre un fs ws base s
    (n\<lparr>nw_server := snd (on_writable lws_pre (nw_server n)), nw_down := down\<rparr>) b es qs vs ds us"
proof -
  note D = severedD [OF S]
  let ?sv = "snd (on_writable lws_pre (nw_server n))"
  have same: "sv_futures ?sv = sv_futures (nw_server n)" "sh_pending_responses ?sv = sh_pending_responses (nw_server n)"
      "sh_id ?sv = sh_id (nw_server n)" "sh_connection ?sv = sh_connection (nw_server n)"
      "session ws ?sv = session ws (nw_server n)"
    by (simp_all add: on_writable_def session_def Let_def split: list.splits)
  have "promises_ok (?sv, nw_calls n)" using D(1) by (simp add: promises_ok_def same)
  moreover have "\<not> b" using D(8) conn by auto
  ultimately show ?thesis
    using severed_server [OF S, where down = down and sv = ?sv and calls = "nw_calls n"] D(7,11,14) conn
    by (simp add: same)
qed

lemma severed_lock:
  assumes S: "severed lws_pre un fs ws base s n b es qs vs ds us" and "t \<noteq> request_getcreds"
    and call: "(p, request_message lws_pre t body) \<in> set (nw_calls n)"
    and bound: "Suc (base + length (es @ qs)) < 2 ^ 32"
  shows "severed lws_pre un fs ws base s
    (n\<lparr>nw_server := perform_enqueue lws_pre (request_message lws_pre t body) p (nw_server n),
       nw_calls := remove1 (p, request_message lws_pre t body) (nw_calls n),
       nw_log := nw_log n @ [(fst (next_id (nw_server n)), p, t, body)]\<rparr>) b
    es (qs @ [(fst (next_id (nw_server n)), p, t, body)]) vs ds us"
proof -
  let ?sv = "nw_server n" and ?req = "request_message lws_pre t body"
  let ?i = "fst (next_id ?sv)"
  note D = severedD [OF S]
  have i: "?i \<notin> fst ` set (es @ qs)" by (rule numbered_next(2) [OF D(3) bound])
  have ds: "?i \<notin> fst ` set ds" using i replies_ids [of es vs] D(6) by fastforce
  have waits: "p < length (sv_futures ?sv)" "sv_futures ?sv ! p = Future_waiting"
    using D(1) call by (force simp: promises_ok_def owned_ok_def)+
  have pending: "j \<in> fst ` set (es @ qs)" if "sh_pending_responses ?sv j = Some q" for j q
    using D(7) that unfolding accounted_def by blast
  note sv' = enqueue_fresh [OF D(3) bound pending]
  have "promises_ok (perform_enqueue lws_pre ?req p ?sv, remove1 (p, ?req) (nw_calls n))"
    by (rule promises_ok_enqueue [OF D(1) call])
  moreover have "delivered (es @ qs @ [(?i, p, t, body)]) ds (sv_futures ?sv) ((sh_pending_responses ?sv)(?i \<mapsto> p))"
    if "sh_connection ?sv \<noteq> None"
    using delivered_lock [OF D(14) [OF that] i ds] by simp
  ultimately show ?thesis
    using D assms(2) accounted_lock [OF D(7) i waits] numbered_enqueue [OF D(3) bound]
    by (intro severedI) (simp_all add: sv' session_def prefix_append)
qed

lemma severed_client_receives:
  assumes S: "severed lws_pre un fs ws base s n True es qs vs ds us" and down: "nw_down n = d # down"
    and cl: "client_receive (on_message lws_pre un fs) wc d True (nw_client n) = (Inr (), cl)"
  shows "\<exists>es qs vs us. severed lws_pre un fs ws base s (n\<lparr>nw_down := down, nw_client := cl\<rparr>) True es qs vs ds us"
proof -
  note D = severedD [OF S]
  obtain i p t body qs' where q: "qs = (i, p, t, body) # qs'" "d = message (i, p, t, body)"
      "prefix down (map message qs')"
    using D(10) down by (cases qs) auto
  have t: "t \<noteq> request_getcreds" using D(4) q(1) by simp
  let ?e = "(i, p, t, body)"
  from provider_executes [OF D(5) t D(9) cl [unfolded q(2)]] obtain v where
    v: "serial lws_pre un fs (es @ [?e]) s = (vs @ [v], cl_fs cl)" "cl_current_message cl = []"
    by blast
  have "severed lws_pre un fs ws base s (n\<lparr>nw_down := down, nw_client := cl\<rparr>) True (es @ [?e]) qs' (vs @ [v]) ds
      (us @ reply ?e v)"
    by (rule severedI)
      (use D q(1,3) v replies_snoc [OF serial_length [OF D(5)], of ?e v] in simp_all)
  then show ?thesis by blast
qed

lemma severed_client_writable:
  assumes S: "severed lws_pre un fs ws base s n True es qs vs ds us"
  shows "severed lws_pre un fs ws base s (n\<lparr>nw_client := client_writeable lws_pre wc (nw_client n), nw_up := up\<rparr>) True
    es qs vs ds us"
  using severedD [OF S]
  by (intro severedI) (simp_all add: client_writeable_def client_lws_def Let_def split: list.splits)

lemma severed_server_receives:
  assumes S: "severed lws_pre un fs ws base s n b es qs vs ds us" and conn: "sh_connection (nw_server n) = Some ws"
    and up: "nw_up n = d # up" and bound: "base + length (es @ qs) < 2 ^ 32"
  shows "\<exists>ds us. severed lws_pre un fs ws base s
    (n\<lparr>nw_up := up, nw_server := on_receive env ws d True (nw_server n)\<rparr>) b es qs vs ds us"
proof -
  note D = severedD [OF S]
  let ?sv' = "on_receive env ws d True (nw_server n)"
  have b: "\<not> b" using D(8) conn by auto
  obtain i p x us' where u: "us = (i, p, x) # us'" "d = mr_data x" "prefix up (map (\<lambda>(i, p, x). mr_data x) us')"
    using D(13) conn up by (cases us) auto
  have x: "answered_as i x" using D(12) conn u(1) by simp
  have dist: "distinct (map fst (es @ qs))" by (rule numbered_distinct [OF D(3) bound])
  obtain t body where e: "(i, p, t, body) \<in> set (es @ qs)" and fresh: "i \<notin> fst ` set ds"
    using head_reply [OF D(6) [unfolded u(1)] serial_length [OF D(5)] dist] by blast
  have R: "session ws ?sv'" "promises_ok (?sv', nw_calls n)" "sh_id ?sv' = sh_id (nw_server n)"
      "delivered (es @ qs) (ds @ [(i, p, x)]) (sv_futures ?sv') (sh_pending_responses ?sv')"
    using receive_answer [OF D(11) D(1) D(14) e fresh x, of env] conn by (simp_all add: u(2))
  then have "severed lws_pre un fs ws base s (n\<lparr>nw_up := up, nw_server := ?sv'\<rparr>) b es qs vs (ds @ [(i, p, x)]) us'"
    using D(2-6,12) u(1,3) b conn delivered_accounted [OF R(4,2)]
    by (intro severedI) (simp_all add: numbered_def)
  then show ?thesis by blast
qed

text \<open>Together: as long as both ends are open the invariant of \<open>Concurrent_System\<close>, afterwards this one.\<close>

definition loss_history ::
    "nat \<Rightarrow> uninit \<Rightarrow> 's filesystem_i \<Rightarrow> wsi \<Rightarrow> nat \<Rightarrow> 's \<Rightarrow> 's network \<times> bool \<Rightarrow> bool" where
  "loss_history lws_pre un fs ws base s = (\<lambda>(n, b).
    if intact ws (n, b) then \<exists>es qs vs ds us. history lws_pre un fs ws base s n es qs vs ds us
    else \<exists>es qs vs ds us. severed lws_pre un fs ws base s n b es qs vs ds us)"

lemma loss_history_intact:
  "intact ws (n, b) \<Longrightarrow> history lws_pre un fs ws base s n es qs vs ds us \<Longrightarrow> loss_history lws_pre un fs ws base s (n, b)"
  unfolding loss_history_def by (auto intro!: exI)

lemma loss_history_severed:
  "\<not> intact ws (n, b) \<Longrightarrow> severed lws_pre un fs ws base s n b es qs vs ds us \<Longrightarrow>
    loss_history lws_pre un fs ws base s (n, b)"
  unfolding loss_history_def by (auto intro!: exI)

lemma on_receive_connection: "sh_connection (on_receive env w d final sv) = sh_connection sv"
  by (auto simp: on_receive_def process_message_def finish_authentication_def deliver_response_def promise_set_def
      Let_def split: prod.splits sum.splits option.splits)

lemma not_repaired: "loss_step lws_pre un fs ws wc st st' \<Longrightarrow> \<not> intact ws st \<Longrightarrow> \<not> intact ws st'"
  by (induction rule: loss_step.induct)
    (auto simp: intact_def promise_new_def perform_refused_eq perform_enqueue_def pending_emplace_def promise_destroy_def
      poll_def pending_clear_def case_prod_unfold Let_def split: option.splits)

lemma loss_log_grows: "loss_step lws_pre un fs ws wc st st' \<Longrightarrow> length (nw_log (fst st)) \<le> length (nw_log (fst st'))"
  by (induction rule: loss_step.induct) simp_all

lemma intact_step:
  assumes step: "loss_step lws_pre un fs ws wc (n, b) (n', b')" and "intact ws (n, b)"
    and H: "history lws_pre un fs ws base s n es qs vs ds us" and bound: "base + length (nw_log n') < 2 ^ 32"
  shows "loss_history lws_pre un fs ws base s (n', b')"
proof (cases "intact ws (n', b')")
  case True
  have "network_step lws_pre un fs ws wc n n'"
    by (rule loss_step_intact [OF step assms(2) True historyD(1) [OF H]])
  from history_step [OF this _ bound] H obtain es qs vs ds us where "history lws_pre un fs ws base s n' es qs vs ds us"
    by blast
  with True show ?thesis by (rule loss_history_intact)
next
  case broken: False
  have b: b using assms(2) by (simp add: intact_def)
  consider (service) "b' = b" "n' = n\<lparr>nw_up := [], nw_server := on_closed ws (nw_server n)\<rparr>"
    | (provider) "\<not> b'" "n' = n\<lparr>nw_down := [], nw_client := client_disconnected (nw_client n)\<rparr>"
    | (intact) "intact ws (n', b')"
  proof -
    have session: "session ws (nw_server n)" by (rule historyD(1) [OF H])
    show thesis
      using step
    proof cases
      case (server_receives d ds env)
      then show thesis using assms(2) that(3) by (simp add: intact_def on_receive_connection)
    qed (use assms(2) session that in \<open>auto simp: intact_def session_def promise_new_def perform_enqueue_def
        pending_emplace_def promise_destroy_def poll_def on_writable_def case_prod_unfold Let_def
        split: option.splits list.splits\<close>)
  qed
  then show ?thesis
  proof cases
    case service
    with b have "b'" by simp
    with service severed_by_service [OF H] broken show ?thesis by (intro loss_history_severed) simp_all
  next
    case provider
    with severed_by_provider [OF H] broken show ?thesis by (intro loss_history_severed) simp_all
  next
    case intact
    with broken show ?thesis by blast
  qed
qed

lemma severed_step:
  assumes step: "loss_step lws_pre un fs ws wc (n, b) (n', b')"
    and S: "severed lws_pre un fs ws base s n b es qs vs ds us" and bound: "base + length (nw_log n') < 2 ^ 32"
  shows "\<exists>es qs vs ds us. severed lws_pre un fs ws base s n' b' es qs vs ds us"
proof -
  have log: "nw_log n = es @ qs" by (rule severedD(2) [OF S])
  have bound': "base + length (es @ qs) < 2 ^ 32" using loss_log_grows [OF step] bound log by simp
  from step show ?thesis
  proof cases
    case (lock t p body)
    then have "Suc (base + length (es @ qs)) < 2 ^ 32" using bound log by simp
    from severed_lock [OF S lock(3,4) this] show ?thesis unfolding lock(1,2) by blast
  next
    case (client_receives d down cl)
    have "severed lws_pre un fs ws base s n True es qs vs ds us" using S client_receives(1) by simp
    from severed_client_receives [OF this client_receives(4,5)] show ?thesis unfolding client_receives(2,3) by blast
  next
    case (server_receives d ds env)
    then show ?thesis using severed_server_receives [OF S _ _ bound'] by blast
  next
    case (client_writable cl)
    then show ?thesis using severed_client_writable [where wc = wc and n = n] S by blast
  next
    case client_closed
    then show ?thesis using severed_client_closed [where n = n] S by blast
  qed (use severed_call [OF S] severed_refuse [OF S] severed_lws [OF S] severed_poll [OF S]
      severed_server_writable [OF S] severed_server_closed [OF S] in blast)+
qed

lemma loss_history_step:
  assumes "loss_step lws_pre un fs ws wc st st'" and "loss_history lws_pre un fs ws base s st"
    and "base + length (nw_log (fst st')) < 2 ^ 32"
  shows "loss_history lws_pre un fs ws base s st'"
proof (cases "intact ws st")
  case True
  then show ?thesis
    using assms intact_step by (cases st; cases st') (fastforce simp: loss_history_def)
next
  case False
  with not_repaired [OF assms(1)] assms severed_step show ?thesis
    by (cases st; cases st') (fastforce simp: loss_history_def)
qed

lemma loss_history_run:
  assumes "loss_run lws_pre un fs ws wc (n0, True) st" and "connected ws n0"
    and "unat (sh_id (nw_server n0)) + length (nw_log (fst st)) < 2 ^ 32"
  shows "loss_history lws_pre un fs ws (unat (sh_id (nw_server n0))) (cl_fs (nw_client n0)) st"
  using assms(1,3)
proof (induction rule: loss_run.induct)
  case start
  have "intact ws (n0, True)" using assms(2) by (simp add: intact_def connected_def session_def)
  with history_run [OF network_run.start assms(2)] start show ?case by (simp add: loss_history_def)
next
  case (step st st')
  then have "unat (sh_id (nw_server n0)) + length (nw_log (fst st)) < 2 ^ 32" using loss_log_grows [OF step(2)] by simp
  then show ?case by (intro loss_history_step [OF step(2) step.IH step.prems])
qed

subsection \<open>What a caller gets\<close>

lemma severed_outcome:
  assumes S: "severed lws_pre un fs ws base s n b es qs vs ds us" and bound: "base + length (nw_log n) < 2 ^ 32"
    and e: "(i, p, t, body) \<in> set (es @ qs)"
  shows "sv_futures (nw_server n) ! p = Future_waiting \<and> sh_pending_responses (nw_server n) i = Some p \<or>
    sv_futures (nw_server n) ! p = broken \<or>
    (\<exists>k x. k < length es \<and> es ! k = (i, p, t, body) \<and> vs ! k = Inr x \<and> sv_futures (nw_server n) ! p = Future_value x)"
proof (cases "i \<in> fst ` set ds")
  case True
  note D = severedD [OF S]
  from True obtain q x where d: "(i, q, x) \<in> set ds" by auto
  then have "(i, q, x) \<in> set (replies es vs)" using D(6) by simp
  then obtain j t' body' where j: "j < length es" "es ! j = (i, q, t', body')" "vs ! j = Inr x"
    using replies_iff [OF serial_length [OF D(5)]] by blast
  have "distinct (map fst (es @ qs))"
    using numbered_distinct [OF D(3)] bound D(2) by simp
  moreover have "(i, q, t', body') \<in> set (es @ qs)" using nth_mem [OF j(1)] j(2) by simp
  ultimately have "(i, q, t', body') = (i, p, t, body)"
    using e by (metis eq_key_imp_eq_value)
  moreover have "sv_futures (nw_server n) ! q = Future_value x" using D(7) d unfolding accounted_def by auto
  ultimately show ?thesis using j by auto
next
  case False
  then show ?thesis using severedD(7) [OF S] e unfolding accounted_def by blast
qed

lemma log_distinct:
  assumes S: "severed lws_pre un fs ws base s n b es qs vs ds us" and bound: "base + length (nw_log n) < 2 ^ 32"
  shows "distinct (es @ qs)"
  using numbered_distinct [OF severedD(3) [OF S]] bound severedD(2) [OF S] by (auto simp: distinct_map)

text \<open>After \<^verbatim>\<open>poll\<close> on a closed connection with a queue, no call of the log waits.\<close>

lemma severed_released:
  assumes S: "severed lws_pre un fs ws base s n b es qs vs ds us"
    and bound: "base + length (nw_log n) < 2 ^ 32"
    and conn: "sh_connection (nw_server n) = None" and queue: "sh_requests (nw_server n) \<noteq> []"
    and e: "(i, p, t, body) \<in> set (nw_log n)"
  shows "sv_futures (poll (nw_server n)) ! p \<noteq> Future_waiting"
proof -
  let ?n = "n\<lparr>nw_server := poll (nw_server n)\<rparr>"
  have "poll (nw_server n) = pending_clear ((nw_server n)\<lparr>sh_requests := []\<rparr>)"
    using conn queue by (simp add: poll_def)
  then have none: "sh_pending_responses (poll (nw_server n)) = Map.empty" by (simp add: pending_clear_sel)
  have "(i, p, t, body) \<in> set (es @ qs)" using e severedD(2) [OF S] by simp
  from severed_outcome [OF severed_poll [OF S] _ this] bound none show ?thesis
    by (auto simp: broken_def)
qed

subsection \<open>After the service noticed the loss\<close>

text \<open>No part of a message is left, and without a connection the service is neither authenticated nor about to shut down.\<close>

lemma on_receive_buffer: "sh_current_message (on_receive env w d True sv) = []"
  by (auto simp: on_receive_def process_message_def finish_authentication_def deliver_response_def promise_set_def
      Let_def split: prod.splits sum.splits option.splits)

definition clean :: "server \<Rightarrow> bool" where
  "clean sv \<longleftrightarrow> sh_current_message sv = [] \<and>
    (sh_connection sv = None \<longrightarrow> \<not> sh_is_authenticated sv \<and> \<not> sh_shutdown_requested sv)"

lemma clean_step:
  assumes "loss_step lws_pre un fs ws wc st st'" and "clean (nw_server (fst st))"
  shows "clean (nw_server (fst st'))"
  using assms
proof (induction rule: loss_step.induct)
  case (server_receives n d ds b env)
  then show ?case by (simp add: clean_def on_receive_connection on_receive_buffer)
qed (auto simp: clean_def promise_new_def perform_refused_eq perform_enqueue_def pending_emplace_def promise_destroy_def
    poll_def pending_clear_def on_writable_def on_closed_def case_prod_unfold Let_def
    split: option.splits list.splits if_splits)

lemma clean_run:
  assumes "loss_run lws_pre un fs ws wc (n0, b0) (n, b)" and "connected ws n0"
  shows "clean (nw_server n)"
proof -
  have "clean (nw_server (fst st))" if "loss_run lws_pre un fs ws wc (n0, b0) st" for st
    using that
  proof (induction rule: loss_run.induct)
    case start
    show ?case using assms(2) by (simp add: clean_def connected_def session_def)
  qed (rule clean_step)
  from this [OF assms(1)] show ?thesis by simp
qed

text \<open>Nothing is queued, and no thread is on its way to the queue.\<close>

definition dormant :: "'s network \<Rightarrow> bool" where
  "dormant n \<longleftrightarrow> sh_connection (nw_server n) = None \<and> \<not> sh_is_authenticated (nw_server n) \<and>
    sh_requests (nw_server n) = [] \<and> nw_calls n = []"

lemma dormant_step:
  assumes "loss_step lws_pre un fs ws wc st st'" and "dormant (fst st)"
  shows "dormant (fst st') \<and> (\<exists>gs. sv_futures (nw_server (fst st')) = sv_futures (nw_server (fst st)) @ gs)"
  using assms
  by (induction rule: loss_step.induct) (simp_all add: dormant_def perform_refused_eq poll_def)

lemma dormant_run:
  assumes "loss_run lws_pre un fs ws wc st st'" and "dormant (fst st)"
  shows "dormant (fst st') \<and> (\<exists>gs. sv_futures (nw_server (fst st')) = sv_futures (nw_server (fst st)) @ gs)"
  using assms(1)
proof (induction rule: loss_run.induct)
  case start
  show ?case using assms(2) by simp
next
  case (step st1 st2)
  from dormant_step [OF step(2) conjunct1 [OF step.IH]] conjunct2 [OF step.IH] show ?case by auto
qed

subsection \<open>Sample runs\<close>

text \<open>The service without authenticator and the provider with the empty file system; one call is queued.\<close>

lemma sample_call:
  "\<exists>n. loss_run 16 uninit_zero empty_filesystem 5 3 (sample_network, True) (n, True) \<and> session 5 (nw_server n) \<and>
    nw_calls n = [] \<and> nw_log n = [(1, 0, request_rmdir, [])] \<and> sv_futures (nw_server n) = [Future_waiting] \<and>
    sh_requests (nw_server n) = [set_id 16 1 (request_message 16 request_rmdir [])]"
proof -
  let ?req = "request_message 16 request_rmdir []" and ?sv = "sample_connected ''''"
  have sv: "?sv = (server_new '''' '''')\<lparr>sh_is_authenticated := True, sh_connection := Some 5\<rparr>"
    by (simp add: sample_connected_def filter_connection_def authenticate_via_header_def on_established_eq server_new_def)
  have 0: "promise_new (nw_server sample_network) = (0, ?sv\<lparr>sv_futures := [Future_waiting]\<rparr>)"
    by (simp add: sample_network_def promise_new_def sv server_new_def)
  let ?n1 = "sample_network\<lparr>nw_server := ?sv\<lparr>sv_futures := [Future_waiting]\<rparr>, nw_calls := (0, ?req) # nw_calls sample_network\<rparr>"
  have 1: "loss_run 16 uninit_zero empty_filesystem 5 3 (sample_network, True) (?n1, True)"
    by (rule loss_run.step [OF loss_run.start loss_step.call [OF _ _ 0]]) (simp_all add: sample_network_def sv)
  have 2: "(0, ?req) \<in> set (nw_calls ?n1)" by simp
  show ?thesis
    by (rule exI, rule conjI, rule loss_run.step [OF 1 loss_step.lock [OF _ 2]])
      (simp_all add: sample_network_def sv server_new_def session_def perform_enqueue_def pending_emplace_def next_id_def)
qed

lemma sample_loss:
  assumes "loss_run 16 uninit_zero empty_filesystem 5 3 (sample_network, True) (n, True)" and "session 5 (nw_server n)"
  shows "loss_run 16 uninit_zero empty_filesystem 5 3 (sample_network, True)
    (n\<lparr>nw_up := [], nw_server := on_closed 5 (nw_server n)\<rparr>, True)"
  using assms(2) by (intro loss_run.step [OF assms(1) loss_step.server_closed]) (simp add: session_def)

subsection \<open>Properties\<close>

text \<open>
  C6. A lost connection loses no consistency. However the programs interleave and whenever either end notices the loss: the
  provider has executed a prefix of the requests in the order in which they took the lock, each exactly once, and its file
  system is in the state of that sequential execution; a caller gets the answer its own request had there, or the
  exception of a broken promise, or it still waits. A request that was not executed is never answered.
\<close>

theorem loss_keeps_order:
  assumes "loss_run lws_pre un fs ws wc (n0, True) (n, b)" and "connected ws n0"
    and "unat (sh_id (nw_server n0)) + length (nw_log n) < 2 ^ 32"
  shows "\<exists>es qs vs. nw_log n = es @ qs \<and>
    serial lws_pre un fs es (cl_fs (nw_client n0)) = (vs, cl_fs (nw_client n)) \<and>
    (\<forall>k i p t body. k < length es \<longrightarrow> es ! k = (i, p, t, body) \<longrightarrow>
      sv_futures (nw_server n) ! p \<in> {Future_waiting, broken} \<or>
      (\<exists>x. vs ! k = Inr x \<and> sv_futures (nw_server n) ! p = Future_value x)) \<and>
    (\<forall>i p t body. (i, p, t, body) \<in> set qs \<longrightarrow> sv_futures (nw_server n) ! p \<in> {Future_waiting, broken})"
proof (cases "intact ws (n, b)")
  case True
  with loss_history_run [OF assms(1,2)] assms(3) obtain es qs vs ds us where
    H: "history lws_pre un fs ws (unat (sh_id (nw_server n0))) (cl_fs (nw_client n0)) n es qs vs ds us"
    by (auto simp: loss_history_def)
  show ?thesis
    using historyD(3,6) [OF H] history_outcome [OF H assms(3)] history_unsent [OF H assms(3)]
    by (intro exI [of _ es] exI [of _ qs] exI [of _ vs]) blast
next
  case False
  with loss_history_run [OF assms(1,2)] assms(3) obtain es qs vs ds us where
    S: "severed lws_pre un fs ws (unat (sh_id (nw_server n0))) (cl_fs (nw_client n0)) n b es qs vs ds us"
    by (auto simp: loss_history_def)
  have dist: "distinct (es @ qs)" by (rule log_distinct [OF S assms(3)])
  have executed: "sv_futures (nw_server n) ! p \<in> {Future_waiting, broken} \<or>
      (\<exists>x. vs ! k = Inr x \<and> sv_futures (nw_server n) ! p = Future_value x)"
    if "k < length es" "es ! k = (i, p, t, body)" for k i p t body
  proof -
    have "(i, p, t, body) \<in> set (es @ qs)" using nth_mem [OF that(1)] that(2) by simp
    moreover have "j = k" if "j < length es" "es ! j = (i, p, t, body)" for j
      using dist that \<open>k < length es\<close> \<open>es ! k = (i, p, t, body)\<close> nth_eq_iff_index_eq [of es j k] by simp
    ultimately show ?thesis using severed_outcome [OF S assms(3)] by blast
  qed
  have unsent: "sv_futures (nw_server n) ! p \<in> {Future_waiting, broken}" if e: "(i, p, t, body) \<in> set qs" for i p t body
  proof -
    have "(i, p, t, body) \<notin> set es" using dist e by auto
    then have "es ! k \<noteq> (i, p, t, body)" if "k < length es" for k using nth_mem [OF that] by auto
    with severed_outcome [OF S assms(3), of i p t body] e show ?thesis by auto
  qed
  show ?thesis using severedD(2,5) [OF S] executed unsent by blast
qed

theorem loss_keeps_order_witness:
  "\<exists>n es qs vs. loss_run 16 uninit_zero (empty_filesystem :: unit filesystem_i) 5 3 (sample_network, True) (n, True) \<and>
    sh_connection (nw_server n) = None \<and> nw_log n = [(1, 0, request_rmdir, [])] \<and> nw_log n = es @ qs \<and>
    serial 16 uninit_zero (empty_filesystem :: unit filesystem_i) es () = (vs, cl_fs (nw_client n))"
proof -
  obtain n where n: "loss_run 16 uninit_zero (empty_filesystem :: unit filesystem_i) 5 3 (sample_network, True) (n, True)"
      "session 5 (nw_server n)" "nw_log n = [(1, 0, request_rmdir, [])]"
    using sample_call by blast
  note run = sample_loss [OF n(1,2)]
  have "sh_connection (on_closed 5 (nw_server n)) = None" using n(2) by (simp add: session_def on_closed_def)
  moreover obtain es qs vs where "nw_log n = es @ qs"
      "serial 16 uninit_zero (empty_filesystem :: unit filesystem_i) es () = (vs, cl_fs (nw_client n))"
    using loss_keeps_order [OF run sample_network_connected(1)] n(3) by (auto simp: sample_network_connected(2))
  ultimately show ?thesis
    using run n(3) by (intro exI [of _ "n\<lparr>nw_up := [], nw_server := on_closed 5 (nw_server n)\<rparr>"]) auto
qed

text \<open>
  C24. What becomes of the callers once the service has noticed the loss. If requests are still queued, the next \<^verbatim>\<open>poll\<close>
  releases every caller: no call of the whole run, whether its request was queued, in transit, executed or answered, waits
  any longer, and nothing is left behind that could disturb the next handshake. If the queue is empty and no thread is in
  front of the lock to fill it, the calls whose requests were sent are forgotten: as long as there is no new connection, no
  future changes any more, so that their callers wait for the timeout. The queue that \<^verbatim>\<open>poll\<close> tests before it breaks the
  promises stays empty, because new calls are refused.
\<close>

theorem callers_after_loss:
  assumes "loss_run lws_pre un fs ws wc (n0, True) (n, b)" and "connected ws n0"
    and "unat (sh_id (nw_server n0)) + length (nw_log n) < 2 ^ 32"
    and "sh_connection (nw_server n) = None"
  shows "(sh_requests (nw_server n) \<noteq> [] \<longrightarrow> fresh (poll (nw_server n)) \<and>
      (\<forall>i p t body. (i, p, t, body) \<in> set (nw_log n) \<longrightarrow> sv_futures (poll (nw_server n)) ! p \<noteq> Future_waiting)) \<and>
    (sh_requests (nw_server n) = [] \<longrightarrow> nw_calls n = [] \<longrightarrow>
      (\<forall>n' b' p. loss_run lws_pre un fs ws wc (n, b) (n', b') \<longrightarrow> p < length (sv_futures (nw_server n)) \<longrightarrow>
        sv_futures (nw_server n') ! p = sv_futures (nw_server n) ! p))"
proof (intro conjI impI allI)
  assume "sh_requests (nw_server n) \<noteq> []"
  then show "fresh (poll (nw_server n))"
    using clean_run [OF assms(1,2)] assms(4) by (simp add: poll_def pending_clear_def fresh_def clean_def)
next
  fix i p t body
  assume queue: "sh_requests (nw_server n) \<noteq> []" and e: "(i, p, t, body) \<in> set (nw_log n)"
  have "\<not> intact ws (n, b)" using assms(4) by (simp add: intact_def)
  with loss_history_run [OF assms(1,2)] assms(3) obtain es qs vs ds us where
    S: "severed lws_pre un fs ws (unat (sh_id (nw_server n0))) (cl_fs (nw_client n0)) n b es qs vs ds us"
    by (auto simp: loss_history_def)
  show "sv_futures (poll (nw_server n)) ! p \<noteq> Future_waiting"
    by (rule severed_released [OF S assms(3,4) queue e])
next
  fix n' b' p
  assume "sh_requests (nw_server n) = []" and "nw_calls n = []" and run: "loss_run lws_pre un fs ws wc (n, b) (n', b')"
    and p: "p < length (sv_futures (nw_server n))"
  then have "dormant (fst (n, b))"
    using clean_run [OF assms(1,2)] assms(4) by (simp add: dormant_def clean_def)
  from dormant_run [OF run this] p show "sv_futures (nw_server n') ! p = sv_futures (nw_server n) ! p"
    by (auto simp: nth_append)
qed

text \<open>The loss is noticed with the request still in the queue, or after it was written.\<close>

theorem callers_after_loss_witness:
  "\<exists>n m. loss_run 16 uninit_zero (empty_filesystem :: unit filesystem_i) 5 3 (sample_network, True) (n, True) \<and>
    sv_futures (nw_server n) = [Future_waiting] \<and> sv_futures (poll (nw_server n)) ! 0 \<noteq> Future_waiting \<and>
    loss_run 16 uninit_zero (empty_filesystem :: unit filesystem_i) 5 3 (sample_network, True) (m, True) \<and>
    sv_futures (nw_server m) = [Future_waiting] \<and>
    (\<forall>m' b'. loss_run 16 uninit_zero (empty_filesystem :: unit filesystem_i) 5 3 (m, True) (m', b') \<longrightarrow>
      sv_futures (nw_server m') ! 0 = Future_waiting)"
proof -
  obtain n where n: "loss_run 16 uninit_zero (empty_filesystem :: unit filesystem_i) 5 3 (sample_network, True) (n, True)"
      "session 5 (nw_server n)" "nw_calls n = []" "nw_log n = [(1, 0, request_rmdir, [])]"
      "sv_futures (nw_server n) = [Future_waiting]"
      "sh_requests (nw_server n) = [set_id 16 1 (request_message 16 request_rmdir [])]"
    using sample_call by blast
  let ?n = "n\<lparr>nw_up := [], nw_server := on_closed 5 (nw_server n)\<rparr>"
  note run = sample_loss [OF n(1,2)]
  have conn: "sh_connection (nw_server ?n) = None" using n(2) by (simp add: session_def on_closed_def)
  have queued: "sv_futures (poll (nw_server ?n)) ! 0 \<noteq> Future_waiting"
    using callers_after_loss [OF run sample_network_connected(1) _ conn] n by (simp add: sample_network_connected(2))
  let ?sv = "snd (on_writable 16 (nw_server n))"
  let ?m = "n\<lparr>nw_server := ?sv, nw_down := nw_down n @ new_messages (sv_calls (nw_server n)) (sv_calls ?sv)\<rparr>"
  have "loss_run 16 uninit_zero (empty_filesystem :: unit filesystem_i) 5 3 (sample_network, True) (?m, True)"
    using n(2) by (intro loss_run.step [OF n(1)] loss_step.server_writable) (simp_all add: session_def)
  moreover have m: "session 5 (nw_server ?m)" using n(2,6) by (simp add: on_writable_def session_def)
  ultimately have sent: "loss_run 16 uninit_zero (empty_filesystem :: unit filesystem_i) 5 3 (sample_network, True)
      (?m\<lparr>nw_up := [], nw_server := on_closed 5 ?sv\<rparr>, True)"
    using sample_loss [of ?m] by simp
  have conn': "sh_connection (nw_server (?m\<lparr>nw_up := [], nw_server := on_closed 5 ?sv\<rparr>)) = None"
    using m by (simp add: session_def on_closed_def)
  have waits: "\<forall>m' b'. loss_run 16 uninit_zero (empty_filesystem :: unit filesystem_i) 5 3
      (?m\<lparr>nw_up := [], nw_server := on_closed 5 ?sv\<rparr>, True) (m', b') \<longrightarrow> sv_futures (nw_server m') ! 0 = Future_waiting"
    using callers_after_loss [OF sent sample_network_connected(1) _ conn'] n
    by (simp add: sample_network_connected(2) on_writable_def session_def)
  show ?thesis
    using run queued sent waits n
    by (intro exI [of _ ?n] exI [of _ "?m\<lparr>nw_up := [], nw_server := on_closed 5 ?sv\<rparr>"])
      (simp add: on_writable_def session_def)
qed

text \<open>
  Sessions follow each other: after a loss whose callers \<^verbatim>\<open>poll\<close> released, the next provider gets a session again if its
  token is accepted, and everything shown for a session holds for it.
\<close>

theorem service_recovers:
  assumes "loss_run lws_pre un fs ws wc (n0, True) (n, b)" and "connected ws n0"
    and "unat (sh_id (nw_server n0)) + length (nw_log n) < 2 ^ 32"
    and "sh_connection (nw_server n) = None" and "sh_requests (nw_server n) \<noteq> []"
    and "filter_connection env ws' (poll (nw_server n)) = (0, sv)" and "fsi_get_credentials fs' s = (Inr token, s')"
    and "exchange lws_pre (on_message lws_pre un fs') env ws' wc'
      \<lparr>sys_server = snd (on_established lws_pre ws' sv), sys_client = client_new s\<rparr> = (r, sys')"
    and "sh_is_authenticated sv \<or> auth_authenticate env (sh_authenticator (poll (nw_server n))) (recv_str token)"
  shows "connected ws' (network_of sys')"
proof -
  have "fresh (poll (nw_server n))"
    using clean_run [OF assms(1,2)] assms(4,5) by (simp add: poll_def pending_clear_def fresh_def clean_def)
  from handshake_exchange [OF this assms(6-8)] assms(9) show ?thesis by simp
qed

text \<open>
  C37. Requests of one provider are sent to the next client, even when it is not authenticated: if the service thread handles the
  loss of a connection and the arrival of a client without a token in one call of the library, the queue survives, because
  only \<^verbatim>\<open>poll\<close> empties it and then finds a connection again; the first request of the old queue is written to the
  new client before the request for its credentials.
\<close>

theorem queue_leaks_to_next_client:
  assumes "sh_connection s = Some w" and "sh_requests s = m # ms" and "sh_authenticator s \<noteq> ''''"
    and "sh_auth_header s = '''' \<or> get_auth_token env w' s = ''''"
  shows "let loss = [Act_callback env (Ev_closed w), Act_callback env (Ev_filter_protocol_connection w'),
        Act_callback env (Ev_established w')];
      s' = server_thread_round lws_pre [Act_callback env (Ev_server_writeable w')] (server_thread_round lws_pre loss s)
    in sh_connection s' = Some w' \<and> \<not> sh_is_authenticated s' \<and>
      written (sv_calls s') = written (sv_calls s) @ [get_data lws_pre m] \<and>
      map (get_data lws_pre) (sh_requests s') = map (get_data lws_pre) ms @ [header 1 (request_code request_getcreds)]"
proof -
  let ?s1 = "on_closed w (poll s)"
  have s1: "?s1 = (lws (Lws_callback_on_writable (Some w)) s)
      \<lparr>sh_connection := None, sh_is_authenticated := False, sh_shutdown_requested := False\<rparr>"
    using assms(1,2) by (simp add: poll_def on_closed_def)
  have "get_auth_token env w' ?s1 = get_auth_token env w' s" by (simp add: s1 get_auth_token_def)
  then have filter: "filter_connection env w' ?s1 = (0, ?s1)"
    using assms(3,4) by (simp add: filter_connection_def authenticate_via_header_def Let_def) (auto simp: s1)
  have established: "on_established lws_pre w' ?s1 = (0, lws (Lws_callback_on_writable (Some w')) (?s1
      \<lparr>sh_connection := Some w', sh_id := 1,
       sh_requests := m # ms @ [set_id lws_pre 1 (messagewriter_request lws_pre request_getcreds)]\<rparr>))"
    using assms(2,3) by (simp add: s1 on_established_eq next_id_def Let_def)
  have creds: "get_data lws_pre (set_id lws_pre 1 (messagewriter_request lws_pre request_getcreds)) =
      header 1 (request_code request_getcreds)"
    using set_id_request [of lws_pre 1 request_getcreds "[]"] by (simp add: request_message_def)
  have 1: "server_thread_round lws_pre [Act_callback env (Ev_closed w), Act_callback env (Ev_filter_protocol_connection w'),
      Act_callback env (Ev_established w')] s = snd (on_established lws_pre w' ?s1)"
    by (simp add: server_thread_round_def server_act_def ws_server_callback_def filter)
  have 2: "server_thread_round lws_pre [Act_callback env (Ev_server_writeable w')] s' =
      snd (on_writable lws_pre (poll s'))" for s'
    by (simp add: server_thread_round_def server_act_def ws_server_callback_def)
  show ?thesis
    unfolding Let_def 1 2 established using creds
    unfolding s1 by (simp add: poll_def on_writable_def lws_def Let_def)
qed

text \<open>A request to remove a directory, and a client that presents no header.\<close>

theorem queue_leaks_to_next_client_witness:
  "let s = (server_new ''auth'' '''')\<lparr>sh_connection := Some 5, sh_is_authenticated := True,
         sh_requests := [set_id 16 7 (request_message 16 request_rmdir [])]\<rparr>;
       s' = server_thread_round 16 [Act_callback null_env (Ev_server_writeable 6)]
         (server_thread_round 16 [Act_callback null_env (Ev_closed 5), Act_callback null_env (Ev_filter_protocol_connection 6),
           Act_callback null_env (Ev_established 6)] s)
   in sh_connection s' = Some 6 \<and> \<not> sh_is_authenticated s' \<and> written (sv_calls s') = [header 7 (request_code request_rmdir)]"
  using queue_leaks_to_next_client [of "(server_new ''auth'' '''')\<lparr>sh_connection := Some 5, sh_is_authenticated := True,
      sh_requests := [set_id 16 7 (request_message 16 request_rmdir [])]\<rparr>" 5 _ _ null_env 6 16]
    set_id_request [of 16 7 request_rmdir "[]"]
  by (simp add: server_new_def Let_def case_prod_unfold)

end
