(* ===== verification/Std_String.thy ===== *)
theory Std_String
  imports Prelude
begin

text \<open>
  The parts of \<^verbatim>\<open>std::string\<close> and of the C library's string functions that the sources use: searching,
  \<^verbatim>\<open>std::stoi\<close> and \<^verbatim>\<open>std::tolower\<close> in the C locale.
\<close>

subsection \<open>Searching\<close>

text \<open>\<^verbatim>\<open>find\<close> returns the first position, or \<^verbatim>\<open>npos\<close> (here \<open>None\<close>).\<close>

fun find_char :: "char \<Rightarrow> string \<Rightarrow> nat option" where
  "find_char c [] = None"
| "find_char c (x # xs) = (if x = c then Some 0 else map_option Suc (find_char c xs))"

fun find_str :: "string \<Rightarrow> string \<Rightarrow> nat option" where
  "find_str pat [] = (if pat = [] then Some 0 else None)"
| "find_str pat (x # xs) =
    (if take (length pat) (x # xs) = pat then Some 0 else map_option Suc (find_str pat xs))"

lemma find_char_None: "find_char c s = None \<longleftrightarrow> c \<notin> set s"
  by (induction s) auto

lemma find_char_append: "c \<notin> set xs \<Longrightarrow> find_char c (xs @ c # ys) = Some (length xs)"
  by (induction xs) auto

lemma find_char_prefix: "c \<notin> set xs \<Longrightarrow> find_char c xs = None"
  by (simp add: find_char_None)

lemma find_str_0: "find_str pat s = Some 0 \<longleftrightarrow> take (length pat) s = pat"
  by (cases s) auto

subsection \<open>Numbers\<close>

definition is_space :: "char \<Rightarrow> bool" where
  "is_space c \<longleftrightarrow> c \<in> {CHR 0x20, CHR 0x09, CHR 0x0A, CHR 0x0B, CHR 0x0C, CHR 0x0D}"

definition is_digit :: "char \<Rightarrow> bool" where
  "is_digit c \<longleftrightarrow> 0x30 \<le> (of_char c :: nat) \<and> (of_char c :: nat) \<le> 0x39"

definition digit_value :: "char \<Rightarrow> int" where
  "digit_value c = of_char c - 0x30"

definition digits_value :: "string \<Rightarrow> int" where
  "digits_value ds = foldl (\<lambda>v c. 10 * v + digit_value c) 0 ds"

text \<open>
  \<^verbatim>\<open>std::stoi\<close> in base 10: white space, an optional sign and digits; what follows is ignored. No digits
  is \<^verbatim>\<open>std::invalid_argument\<close>, a value that does not fit an \<^verbatim>\<open>int\<close> is \<^verbatim>\<open>std::out_of_range\<close>.
\<close>

definition stoi :: "string \<Rightarrow> exn + i32" where
  "stoi s =
    (let s = dropWhile is_space s;
         negative = (s \<noteq> [] \<and> hd s = CHR ''-'');
         s = (if s \<noteq> [] \<and> hd s \<in> {CHR ''-'', CHR ''+''} then tl s else s);
         ds = takeWhile is_digit s;
         v = (if negative then - digits_value ds else digits_value ds)
     in if ds = [] then Inl (Invalid_argument ''stoi'')
        else if - (2 ^ 31) \<le> v \<and> v < 2 ^ 31 then Inr (word_of_int v)
        else Inl (Out_of_range ''stoi''))"

definition tolower :: "char \<Rightarrow> char" where
  "tolower c = (if 0x41 \<le> (of_char c :: nat) \<and> (of_char c :: nat) \<le> 0x5a then char_of (of_char c + 0x20 :: nat) else c)"

text \<open>Decimal notation, for the round trips.\<close>

fun decimal :: "nat \<Rightarrow> string" where
  "decimal n = (if n < 10 then [char_of (0x30 + n)] else decimal (n div 10) @ [char_of (0x30 + n mod 10)])"

declare decimal.simps [simp del]

lemma of_char_digit: "n < 10 \<Longrightarrow> (of_char (char_of (48 + n) :: char) :: nat) = 48 + n"
  by (simp add: of_char_of)

lemma is_digit_char [simp]: "n < 10 \<Longrightarrow> is_digit (char_of (48 + n))" for n :: nat
  by (simp add: is_digit_def of_char_digit)

lemma of_char_int: "(of_char c :: int) = int (of_char c)"
  by (cases c) (simp add: of_char_def horner_sum_simps)

lemma digit_value_char [simp]: "n < 10 \<Longrightarrow> digit_value (char_of (48 + n)) = int n" for n :: nat
  by (simp add: digit_value_def of_char_int of_char_digit)

lemma decimal_digits: "list_all is_digit (decimal n) \<and> decimal n \<noteq> []"
proof (induction n rule: decimal.induct)
  case (1 n)
  then show ?case by (subst (1 2) decimal.simps) auto
qed

lemma digits_value_snoc: "digits_value (ds @ [c]) = 10 * digits_value ds + digit_value c"
  by (simp add: digits_value_def)

lemma digits_value_decimal: "digits_value (decimal n) = int n"
proof (induction n rule: decimal.induct)
  case (1 n)
  show ?case
  proof (cases "n < 10")
    case True
    then show ?thesis by (subst decimal.simps) (simp add: digits_value_def)
  next
    case False
    then show ?thesis
      using 1 by (subst decimal.simps) (simp add: digits_value_snoc zdiv_int zmod_int)
  qed
qed

lemma digit_not_other: "is_digit c \<Longrightarrow> \<not> is_space c \<and> c \<noteq> CHR ''-'' \<and> c \<noteq> CHR ''+''"
  by (auto simp: is_digit_def is_space_def)

text \<open>\<^verbatim>\<open>stoi\<close> inverts decimal notation, whatever non-digit follows.\<close>

lemma stoi_decimal:
  assumes "n < 2 ^ 31" and "rest = [] \<or> \<not> is_digit (hd rest)"
  shows "stoi (decimal n @ rest) = Inr (word_of_nat n)"
proof -
  let ?d = "decimal n"
  have d: "list_all is_digit ?d" "?d \<noteq> []" using decimal_digits by auto
  then have hd: "is_digit (hd (?d @ rest))" "?d @ rest \<noteq> []" by (cases ?d; simp)+
  have "takeWhile is_digit (?d @ rest) = ?d"
    using d(1) assms(2) by (cases rest) (auto simp: list_all_iff takeWhile_append2 takeWhile_append1)
  moreover have "dropWhile is_space (?d @ rest) = ?d @ rest"
    using hd digit_not_other by (cases "?d @ rest") auto
  ultimately show ?thesis
    using hd digit_not_other [OF hd(1)] d(2) assms(1)
    by (simp add: stoi_def Let_def digits_value_decimal)
qed

end
