(* ===== verification/Authenticator.thy ===== *)
theory Authenticator
  imports Fs_Values
begin

text \<open>
  Class \<^verbatim>\<open>authenticator\<close> (\<^verbatim>\<open>util/authenticator.cpp\<close>): the token is handed to an external program over its
  standard input, and its exit status decides. The operating system's answers (\<^verbatim>\<open>pipe\<close>, \<^verbatim>\<open>fork\<close>,
  \<^verbatim>\<open>waitpid\<close>) are arguments; the calls of both processes are recorded, and the child's calls also act on
  a table of file descriptors.
\<close>

subsection \<open>Calls\<close>

datatype os_call =
    Os_close i32
  | Os_dup2 i32 i32
  | Os_closefrom i32
  | Os_open string i32
  | Os_execl string
  | Os_exit i32
  | Os_write i32 string
  | Os_waitpid i32

record auth_os =
  os_pipe :: "i32 \<times> i32 \<times> i32"
  os_fork :: i32
  os_waitpid :: "i32 \<Rightarrow> i32 \<times> i32"

definition STDIN_FILENO :: i32 where "STDIN_FILENO = 0"
definition STDOUT_FILENO :: i32 where "STDOUT_FILENO = 1"
definition STDERR_FILENO :: i32 where "STDERR_FILENO = 2"

lemmas fileno_defs = STDIN_FILENO_def STDOUT_FILENO_def STDERR_FILENO_def

text \<open>\<^verbatim>\<open>WEXITSTATUS\<close>: bits 8 to 15 of the status.\<close>

definition WEXITSTATUS :: "i32 \<Rightarrow> i32" where
  "WEXITSTATUS status = drop_bit 8 (status AND 0xff00)"

subsection \<open>authenticate\<close>

text \<open>
  The replacement of \<^verbatim>\<open>closefrom\<close> for C libraries before 2.34; \<open>max_fd\<close> is the answer of \<^verbatim>\<open>sysconf(_SC_OPEN_MAX)\<close>.
\<close>

definition closefrom_loop :: "i32 \<Rightarrow> i32 \<Rightarrow> os_call list" where
  "closefrom_loop max_fd fd = map (\<lambda>i. Os_close (word_of_int i)) [sint fd..sint max_fd - 1]"

text \<open>\<open>None\<close>: the C library has \<^verbatim>\<open>closefrom\<close>.\<close>

definition closefrom :: "i32 option \<Rightarrow> i32 \<Rightarrow> os_call list" where
  "closefrom open_max fd = (case open_max of None \<Rightarrow> [Os_closefrom fd] | Some max_fd \<Rightarrow> closefrom_loop max_fd fd)"

text \<open>What the child does, up to the program it becomes.\<close>

definition authenticate_child :: "i32 option \<Rightarrow> string \<Rightarrow> i32 \<Rightarrow> os_call list" where
  "authenticate_child open_max app fd0 =
    [Os_close STDIN_FILENO,
     Os_dup2 fd0 STDIN_FILENO] @
    closefrom open_max 1 @
    [Os_open ''/dev/null'' O_WRONLY,
     Os_dup2 STDOUT_FILENO STDERR_FILENO,
     Os_execl app,
     Os_exit 1]"

text \<open>
  The result in the calling process, with its calls. In the child (\<^verbatim>\<open>fork\<close> returned 0) the function does
  not return: it becomes the program or exits.
\<close>

definition authenticate :: "auth_os \<Rightarrow> string \<Rightarrow> bool option \<times> os_call list" where
  "authenticate os token =
    (case os_pipe os of (rc, fd0, fd1) \<Rightarrow>
     if 0 \<noteq> rc then (Some False, [])
     else if os_fork os = 0 then (None, [])
     else if 0 < sint (os_fork os)
     then
       (let pid = os_fork os;
            exit_status = 1;
            (rc, status) = os_waitpid os pid;
            exit_status = (if rc = pid then WEXITSTATUS status else exit_status)
        in (Some (exit_status = 0),
            [Os_write fd1 token, Os_close fd1, Os_waitpid pid, Os_close fd0]))
     else (Some False, []))"

subsection \<open>The child's file descriptors\<close>

datatype os_file = Pipe_read | Pipe_write | Dev_null | Other_file nat

type_synonym fd_table = "nat \<rightharpoonup> os_file"

text \<open>The lowest descriptor that is free, among the first \<open>n\<close>.\<close>

definition lowest_free :: "nat \<Rightarrow> fd_table \<Rightarrow> nat option" where
  "lowest_free n t = (case filter (\<lambda>i. t i = None) [0..<n] of [] \<Rightarrow> None | i # _ \<Rightarrow> Some i)"

definition fd_limit :: nat where "fd_limit = 1024"

fun fd_effect :: "os_call \<Rightarrow> fd_table \<Rightarrow> fd_table" where
  "fd_effect (Os_close fd) t = t(unat fd := None)"
| "fd_effect (Os_dup2 a b) t = (if t (unat a) = None then t else t(unat b := t (unat a)))"
| "fd_effect (Os_closefrom fd) t = (\<lambda>i. if unat fd \<le> i then None else t i)"
| "fd_effect (Os_open path flags) t =
    (case lowest_free fd_limit t of
      None \<Rightarrow> t
    | Some i \<Rightarrow> t(i \<mapsto> (if path = ''/dev/null'' then Dev_null else Other_file 0)))"
| "fd_effect (Os_execl app) t = t"
| "fd_effect (Os_exit code) t = t"
| "fd_effect (Os_write fd s) t = t"
| "fd_effect (Os_waitpid pid) t = t"

lemma lowest_free_1:
  assumes "t 0 \<noteq> None" and "t 1 = None"
  shows "lowest_free fd_limit t = Some 1"
proof -
  have "2 \<le> n \<Longrightarrow> [0..<n] = 0 # 1 # [2..<n]" for n
    using upt_conv_Cons [of 0 n] upt_conv_Cons [of 1 n] by (simp add: numeral_2_eq_2)
  then have "[0..<fd_limit] = 0 # 1 # [2..<fd_limit]" by (simp add: fd_limit_def del: upt_Suc)
  then show ?thesis using assms by (simp add: lowest_free_def)
qed

text \<open>The loop closes what \<^verbatim>\<open>closefrom\<close> closes, as long as no descriptor is beyond the limit.\<close>

lemma fold_close:
  "fold fd_effect (map (\<lambda>i. Os_close (word_of_int i)) is) t =
    (\<lambda>j. if j \<in> (\<lambda>i. unat (word_of_int i :: i32)) ` set is then None else t j)"
  by (induction "is" arbitrary: t) (auto simp: fun_eq_iff)

lemma unat_small: "0 \<le> i \<Longrightarrow> i < 2 ^ 32 \<Longrightarrow> unat (word_of_int i :: i32) = nat i"
  by (simp add: unsigned_of_int take_bit_int_eq_self)

lemma closefrom_loop_effect:
  assumes "0 \<le> sint max_fd" and "\<forall>i \<in> dom t. i < nat (sint max_fd)"
  shows "fold fd_effect (closefrom_loop max_fd 1) t = fd_effect (Os_closefrom 1) t"
proof -
  have "sint max_fd < 2 ^ 32" using sint_lt [of max_fd] by simp
  then have "unat (word_of_int i :: i32) = nat i" if "i \<in> set [1..sint max_fd - 1]" for i
    using that by (intro unat_small) auto
  then have "(\<lambda>i. unat (word_of_int i :: i32)) ` set [1..sint max_fd - 1] = nat ` set [1..sint max_fd - 1]"
    by (intro image_cong) auto
  also have "\<dots> = {1..<nat (sint max_fd)}"
  proof (intro equalityI subsetI)
    fix j
    assume "j \<in> {1..<nat (sint max_fd)}"
    then show "j \<in> nat ` set [1..sint max_fd - 1]" by (intro image_eqI [of _ _ "int j"]) auto
  qed auto
  finally show ?thesis
    using assms(2) unfolding closefrom_loop_def by (auto simp: fold_close fun_eq_iff dom_def)
qed

text \<open>A table of descriptors within the limit of the replacement.\<close>

definition within_limit :: "i32 option \<Rightarrow> fd_table \<Rightarrow> bool" where
  "within_limit open_max t \<longleftrightarrow> (case open_max of None \<Rightarrow> True
    | Some max_fd \<Rightarrow> 0 < sint max_fd \<and> (\<forall>i \<in> dom t. i < nat (sint max_fd)))"

lemma closefrom_effect:
  "within_limit open_max t \<Longrightarrow> fold fd_effect (closefrom open_max 1) t = fd_effect (Os_closefrom 1) t"
  using closefrom_loop_effect by (auto simp: within_limit_def closefrom_def split: option.splits)

lemma takeWhile_closefrom:
  "takeWhile (\<lambda>c. c \<noteq> Os_execl app) (closefrom open_max fd @ cs) =
    closefrom open_max fd @ takeWhile (\<lambda>c. c \<noteq> Os_execl app) cs"
  by (rule takeWhile_append2) (auto simp: closefrom_def closefrom_loop_def split: option.splits)

lemma WEXITSTATUS_exit: "WEXITSTATUS (push_bit 8 n) = take_bit 8 n"
proof -
  have m: "(0xff00 :: i32) = push_bit 8 (mask 8)" by (simp add: push_bit_eq_mult mask_eq_exp_minus_1)
  show ?thesis unfolding WEXITSTATUS_def m
    by (rule bit_word_eqI)
      (auto simp: bit_drop_bit_eq bit_push_bit_iff bit_and_iff bit_mask_iff bit_take_bit_iff)
qed

lemma WEXITSTATUS_signal: "status < 256 \<Longrightarrow> WEXITSTATUS status = 0"
proof -
  assume "status < 256"
  then have t: "status = status AND mask 8"
    by (simp add: word_less_nat_alt word_unat_eq_iff unsigned_take_bit_eq take_bit_nat_eq_self
        flip: take_bit_eq_mask)
  have m: "(mask 8 :: i32) AND 0xff00 = 0" by (simp add: mask_eq_exp_minus_1)
  have "status AND 0xff00 = status AND (mask 8 AND 0xff00)" by (subst t) (simp add: and.assoc)
  then show ?thesis by (simp add: WEXITSTATUS_def m)
qed

subsection \<open>Properties\<close>

text \<open>
  C35. The authenticator program starts with exactly three descriptors, whatever else was open in the service beside its
  standard input (whose descriptor 0 the pipe must not get) - with
  the replacement of \<^verbatim>\<open>closefrom\<close>, as long as no descriptor is beyond the limit the system reports:
  the pipe that carries the token as standard input, and \<^verbatim>\<open>/dev/null\<close> as standard output and error.
\<close>

theorem child_descriptors:
  assumes "t (unat fd0) = Some Pipe_read" and "fd0 \<noteq> 0" and "within_limit open_max t"
  shows "fold fd_effect (takeWhile (\<lambda>c. c \<noteq> Os_execl app) (authenticate_child open_max app fd0)) t =
    [0 \<mapsto> Pipe_read, 1 \<mapsto> Dev_null, 2 \<mapsto> Dev_null]"
proof -
  let ?t = "fd_effect (Os_dup2 fd0 STDIN_FILENO) (fd_effect (Os_close STDIN_FILENO) t)"
  have "unat fd0 \<noteq> 0" using assms(2) by (simp add: unat_eq_0)
  moreover have "within_limit open_max ?t"
    using assms(3) by (auto simp: within_limit_def fileno_defs split: option.splits if_splits)
  ultimately show ?thesis
    using assms(1) closefrom_effect [of open_max ?t]
    by (auto simp: authenticate_child_def takeWhile_closefrom fileno_defs lowest_free_1 fun_eq_iff)
qed

theorem child_descriptors_witness:
  "fold fd_effect (takeWhile (\<lambda>c. c \<noteq> Os_execl ''/bin/auth'') (authenticate_child (Some 64) ''/bin/auth'' 5))
      [0 \<mapsto> Other_file 1, 5 \<mapsto> Pipe_read, 6 \<mapsto> Pipe_write, 7 \<mapsto> Other_file 2] =
    [0 \<mapsto> Pipe_read, 1 \<mapsto> Dev_null, 2 \<mapsto> Dev_null]"
  by (rule child_descriptors) (auto simp: within_limit_def)

text \<open>
  A program that exits normally with status \<open>n\<close> (the status word is \<open>n\<close> shifted by eight bits)
  authenticates exactly when \<open>n\<close> is 0; a failing \<^verbatim>\<open>pipe\<close>, \<^verbatim>\<open>fork\<close> or \<^verbatim>\<open>waitpid\<close> never authenticates.
\<close>

theorem authenticate_by_exit_status:
  assumes "os_pipe os = (0, fd0, fd1)" and "0 < sint (os_fork os)"
    and "os_waitpid os (os_fork os) = (rc, push_bit 8 n)" and "n < 256"
  shows "fst (authenticate os token) = Some (rc = os_fork os \<and> n = 0)"
proof -
  have "take_bit 8 n = n"
    using assms(4) by (simp add: word_less_nat_alt word_unat_eq_iff unsigned_take_bit_eq take_bit_nat_eq_self)
  then show ?thesis
    using assms(1-3) by (auto simp: authenticate_def Let_def WEXITSTATUS_exit)
qed

theorem authenticate_by_exit_status_witness:
  "fst (authenticate \<lparr>os_pipe = (0, 3, 4), os_fork = 77, os_waitpid = \<lambda>pid. (pid, push_bit 8 1)\<rparr> ''secret'') =
    Some False"
  using authenticate_by_exit_status [of "\<lparr>os_pipe = (0, 3, 4), os_fork = 77, os_waitpid = \<lambda>pid. (pid, push_bit 8 1)\<rparr>"
      3 4 77 1 "''secret''"] by simp

text \<open>
  C39. An authenticator program that is killed by a signal authenticates: its status word has the signal's
  number (with or without the core dump flag) in the low byte and no exit status, and the code does not
  test whether the program exited.
\<close>

theorem authenticate_accepts_crash:
  assumes "os_pipe os = (0, fd0, fd1)" and "0 < sint (os_fork os)"
    and "os_waitpid os (os_fork os) = (os_fork os, status)" and "status < 256"
  shows "fst (authenticate os token) = Some True"
  using assms by (auto simp: authenticate_def Let_def WEXITSTATUS_signal)

theorem authenticate_accepts_crash_witness:
  "fst (authenticate \<lparr>os_pipe = (0, 3, 4), os_fork = 77, os_waitpid = \<lambda>pid. (pid, 11)\<rparr> ''wrong'') = Some True"
  using authenticate_accepts_crash [of "\<lparr>os_pipe = (0, 3, 4), os_fork = 77, os_waitpid = \<lambda>pid. (pid, 11)\<rparr>"
      3 4 11 "''wrong''"] by simp

end
