(* ===== verification/Pam_Authenticator.thy ===== *)
theory Pam_Authenticator
  imports Std_String Authenticator
begin

text \<open>
  The PAM authenticator (\<^verbatim>\<open>example/authenticator/pam/src/\<close>): a program for \<^verbatim>\<open>--wf-authenticator\<close> that reads a
  token \<^verbatim>\<open>base64(username ":" password)\<close> from its standard input and asks PAM, and the two tools that make
  and show such a token. The base64 codec and PAM are arguments; PAM calls back into \<open>conversation\<close>.
\<close>

subsection \<open>Tokens\<close>

text \<open>The out parameters \<open>username\<close> and \<open>password\<close> keep their values when the token is not valid.\<close>

definition pam_decode :: "(string \<Rightarrow> string) \<Rightarrow> string \<Rightarrow> string \<Rightarrow> string \<Rightarrow> bool \<times> string \<times> string" where
  "pam_decode b64_decode token username password =
    (let plain = b64_decode token in
     case find_char (CHR '':'') plain of
       Some pos \<Rightarrow> (True, take pos plain, drop (pos + 1) plain)
     | None \<Rightarrow> (False, username, password))"

text \<open>\<^verbatim>\<open>main\<close> of \<^verbatim>\<open>token_encode.cpp\<close>: what it prints and its exit code. The usage text is \<open>None\<close>.\<close>

definition token_encode_main :: "(string \<Rightarrow> string) \<Rightarrow> string list \<Rightarrow> string option \<times> i32" where
  "token_encode_main b64_encode argv =
    (if length argv = 3
     then (let username = argv ! 1; password = argv ! 2
           in (Some (b64_encode (username @ CHR '':'' # password)), 0))
     else (None, 0))"

text \<open>\<^verbatim>\<open>main\<close> of \<^verbatim>\<open>token_decode.cpp\<close>: the username and password it prints, if any, and its exit code.\<close>

definition token_decode_main :: "(string \<Rightarrow> string) \<Rightarrow> string list \<Rightarrow> (string \<times> string) option \<times> i32" where
  "token_decode_main b64_decode argv =
    (if length argv = 2
     then (let plain_str = b64_decode (argv ! 1) in
           case find_char (CHR '':'') plain_str of
             Some pos \<Rightarrow> (Some (take pos plain_str, drop (pos + 1) plain_str), 0)
           | None \<Rightarrow> (None, 1))
     else (None, 1))"

subsection \<open>The conversation\<close>

datatype pam_style =
    PAM_PROMPT_ECHO_ON
  | PAM_PROMPT_ECHO_OFF
  | PAM_TEXT_INFO
  | PAM_ERROR_MSG
  | Other_style int

datatype pam_rc = PAM_SUCCESS | PAM_CONV_ERR | Other_rc int

record credentials =
  cr_username :: string
  cr_password :: string

record pam_response =
  resp_retcode :: i32
  resp :: "string option"

text \<open>
  The loop, with what it allocates: \<open>cv_responses\<close> are the entries of the array filled so far, \<open>cv_freed\<close>
  counts how often the array was freed.
\<close>

record conversation_state =
  cv_result :: pam_rc
  cv_responses :: "pam_response list"
  cv_freed :: nat

fun conversation_loop :: "credentials \<Rightarrow> pam_style list \<Rightarrow> conversation_state \<Rightarrow> conversation_state" where
  "conversation_loop creds [] st = st"
| "conversation_loop creds (style # messages) st =
    (if cv_result st = PAM_SUCCESS
     then
       (let response = \<lparr>resp_retcode = 0, resp = None\<rparr> in
        conversation_loop creds messages
         (case style of
            PAM_PROMPT_ECHO_ON \<Rightarrow>
              st\<lparr>cv_responses := cv_responses st @ [response\<lparr>resp := Some (c_str (cr_username creds))\<rparr>]\<rparr>
          | PAM_PROMPT_ECHO_OFF \<Rightarrow>
              st\<lparr>cv_responses := cv_responses st @ [response\<lparr>resp := Some (c_str (cr_password creds))\<rparr>]\<rparr>
          | PAM_TEXT_INFO \<Rightarrow> st\<lparr>cv_responses := cv_responses st @ [response]\<rparr>
          | PAM_ERROR_MSG \<Rightarrow> st\<lparr>cv_responses := cv_responses st @ [response]\<rparr>
          | Other_style _ \<Rightarrow>
              st\<lparr>cv_responses := cv_responses st @ [response], cv_freed := cv_freed st + 1, cv_result := PAM_CONV_ERR\<rparr>))
     else st)"

text \<open>The result, \<^verbatim>\<open>*ret_responses\<close> if it was assigned, and the final state of the loop if it ran.\<close>

definition conversation ::
    "credentials \<Rightarrow> pam_style list \<Rightarrow> pam_rc \<times> pam_response list option \<times> conversation_state option" where
  "conversation creds messages =
    (if length messages \<le> 0 then (PAM_CONV_ERR, None, None)
     else (let st = conversation_loop creds messages \<lparr>cv_result = PAM_SUCCESS, cv_responses = [], cv_freed = 0\<rparr>
           in (cv_result st, if cv_result st = PAM_SUCCESS then Some (cv_responses st) else None, Some st)))"

subsection \<open>Asking PAM\<close>

datatype pam_call =
    Pam_start string
  | Pam_set_user string
  | Pam_authenticate
  | Pam_acct_mgmt
  | Pam_end

text \<open>PAM's answers. \<^verbatim>\<open>pam_authenticate\<close> knows the user that was set and may hold conversations.\<close>

record pam_lib =
  lib_start :: "string \<Rightarrow> pam_rc"
  lib_authenticate :: "string \<Rightarrow> (pam_style list \<Rightarrow> pam_rc \<times> pam_response list option) \<Rightarrow> pam_rc"
  lib_acct_mgmt :: "string \<Rightarrow> pam_rc"

text \<open>The conversation function with the credentials \<^verbatim>\<open>appdata_ptr\<close> points to.\<close>

definition conv_of :: "string \<Rightarrow> string \<Rightarrow> pam_style list \<Rightarrow> pam_rc \<times> pam_response list option" where
  "conv_of username password messages =
    (case conversation \<lparr>cr_username = username, cr_password = password\<rparr> messages of
       (rc, responses, _) \<Rightarrow> (rc, responses))"

definition pam_authenticate_user :: "pam_lib \<Rightarrow> string \<Rightarrow> string \<Rightarrow> bool \<times> pam_call list" where
  "pam_authenticate_user pam username password =
    (let conv = conv_of username password;
         result = (lib_start pam ''webfuse'' = PAM_SUCCESS);
         calls = [Pam_start ''webfuse''];
         cleanup_handle = result;
         (result, calls) =
           (if result
            then (lib_authenticate pam (c_str username) conv = PAM_SUCCESS,
                  calls @ [Pam_set_user (c_str username), Pam_authenticate])
            else (result, calls));
         (result, calls) =
           (if result then (lib_acct_mgmt pam (c_str username) = PAM_SUCCESS, calls @ [Pam_acct_mgmt])
            else (result, calls));
         calls = (if cleanup_handle then calls @ [Pam_end] else calls)
     in (result, calls))"

text \<open>\<^verbatim>\<open>std::getline\<close> takes the characters before the first line feed.\<close>

definition getline :: "string \<Rightarrow> string" where
  "getline input = takeWhile (\<lambda>c. c \<noteq> CHR 0x0A) input"

definition pam_main :: "(string \<Rightarrow> string) \<Rightarrow> pam_lib \<Rightarrow> string list \<Rightarrow> string \<Rightarrow> i32 \<times> pam_call list" where
  "pam_main b64_decode pam argv input =
    (let exit_code = 1 in
     if length argv = 1
     then
       (let token = getline input;
            (decode_valid, username, password) = pam_decode b64_decode token '''' ''''
        in if decode_valid
           then (case pam_authenticate_user pam username password of (is_authenticated, calls) \<Rightarrow>
                 (if is_authenticated then 0 else exit_code, calls))
           else (exit_code, []))
     else (exit_code, []))"

subsection \<open>Conversations\<close>

text \<open>What a prompt is answered with.\<close>

definition answer :: "credentials \<Rightarrow> pam_style \<Rightarrow> pam_response" where
  "answer creds style = \<lparr>resp_retcode = 0, resp =
    (case style of
       PAM_PROMPT_ECHO_ON \<Rightarrow> Some (c_str (cr_username creds))
     | PAM_PROMPT_ECHO_OFF \<Rightarrow> Some (c_str (cr_password creds))
     | _ \<Rightarrow> None)\<rparr>"

definition known_style :: "pam_style \<Rightarrow> bool" where
  "known_style style \<longleftrightarrow> (case style of Other_style _ \<Rightarrow> False | _ \<Rightarrow> True)"

lemma conversation_loop_stopped: "cv_result st \<noteq> PAM_SUCCESS \<Longrightarrow> conversation_loop creds messages st = st"
  by (cases messages) simp_all

lemma conversation_loop_append:
  "conversation_loop creds (xs @ ys) st = conversation_loop creds ys (conversation_loop creds xs st)"
proof (induction xs arbitrary: st)
  case (Cons style xs)
  then show ?case
    by (cases "cv_result st = PAM_SUCCESS") (simp_all add: conversation_loop_stopped Let_def)
qed simp

lemma conversation_step_known:
  "cv_result st = PAM_SUCCESS \<Longrightarrow> known_style style \<Longrightarrow>
    conversation_loop creds (style # messages) st =
      conversation_loop creds messages (st\<lparr>cv_responses := cv_responses st @ [answer creds style]\<rparr>)"
  by (cases style) (simp_all add: answer_def known_style_def)

lemma conversation_loop_known:
  "cv_result st = PAM_SUCCESS \<Longrightarrow> list_all known_style messages \<Longrightarrow>
    conversation_loop creds messages st =
      st\<lparr>cv_responses := cv_responses st @ map (answer creds) messages\<rparr>"
proof (induction messages arbitrary: st)
  case (Cons style messages)
  then show ?case
    by (simp add: conversation_step_known del: conversation_loop.simps(2))
qed simp

lemma conversation_loop_unknown:
  "cv_result st = PAM_SUCCESS \<Longrightarrow> list_all known_style messages \<Longrightarrow>
    conversation_loop creds (messages @ Other_style n # rest) st =
      st\<lparr>cv_responses := cv_responses st @ map (answer creds) (messages @ [Other_style n]),
         cv_freed := cv_freed st + 1, cv_result := PAM_CONV_ERR\<rparr>"
  by (simp add: conversation_loop_append conversation_loop_known conversation_loop_stopped answer_def)

lemma find_char_Some:
  assumes "find_char c s = Some pos"
  shows "c \<notin> set (take pos s)" and "s = take pos s @ c # drop (pos + 1) s"
proof -
  have "c \<notin> set (take pos s) \<and> s = take pos s @ c # drop (pos + 1) s"
    using assms by (induction s arbitrary: pos) (auto split: if_splits)
  then show "c \<notin> set (take pos s)" "s = take pos s @ c # drop (pos + 1) s" by simp_all
qed

lemma find_char_unique:
  assumes "find_char c s = Some pos"
  shows "s = xs @ c # ys \<and> c \<notin> set xs \<longleftrightarrow> xs = take pos s \<and> ys = drop (pos + 1) s"
proof
  assume "s = xs @ c # ys \<and> c \<notin> set xs"
  with assms find_char_append [of c xs ys] show "xs = take pos s \<and> ys = drop (pos + 1) s" by auto
next
  assume "xs = take pos s \<and> ys = drop (pos + 1) s"
  with find_char_Some [OF assms] show "s = xs @ c # ys \<and> c \<notin> set xs" by simp
qed

lemma pam_authenticate_iff:
  "fst (pam_authenticate_user pam username password) \<longleftrightarrow>
    lib_start pam ''webfuse'' = PAM_SUCCESS \<and>
    lib_authenticate pam (c_str username) (conv_of username password) = PAM_SUCCESS \<and>
    lib_acct_mgmt pam (c_str username) = PAM_SUCCESS"
  by (simp add: pam_authenticate_user_def Let_def)

lemma pam_decode_append:
  "CHR '':'' \<notin> set username \<Longrightarrow> b64_decode token = username @ CHR '':'' # password \<Longrightarrow>
    pam_decode b64_decode token u p = (True, username, password)"
  by (simp add: pam_decode_def find_char_append)

subsection \<open>Properties\<close>

text \<open>
  PAM's prompts are answered one by one, in order: a prompt with echo by the username, one without by the
  password, as C strings. At the first message of an unknown style the conversation fails, assigns nothing,
  and has freed its array exactly once - but not the copies of username and password it had put into it.
\<close>

theorem conversation_answers:
  assumes "list_all known_style messages"
  shows "(messages \<noteq> [] \<longrightarrow> (\<exists>st. conversation creds messages =
      (PAM_SUCCESS, Some (map (answer creds) messages), Some st) \<and> cv_freed st = 0)) \<and>
    (\<exists>st. conversation creds (messages @ Other_style n # rest) = (PAM_CONV_ERR, None, Some st) \<and>
      cv_freed st = 1 \<and> take (length messages) (cv_responses st) = map (answer creds) messages)"
  using assms
  by (simp_all add: conversation_def conversation_loop_known conversation_loop_unknown)

theorem conversation_answers_witness:
  "(\<exists>st. conversation \<lparr>cr_username = ''bob'', cr_password = ''pw''\<rparr> [PAM_PROMPT_ECHO_OFF, PAM_TEXT_INFO] =
     (PAM_SUCCESS, Some [\<lparr>resp_retcode = 0, resp = Some ''pw''\<rparr>, \<lparr>resp_retcode = 0, resp = None\<rparr>], Some st)) \<and>
   (\<exists>st. conversation \<lparr>cr_username = ''bob'', cr_password = ''pw''\<rparr> [PAM_PROMPT_ECHO_OFF, Other_style 7] =
     (PAM_CONV_ERR, None, Some st) \<and> cv_freed st = 1)"
  using conversation_answers [of "[PAM_PROMPT_ECHO_OFF, PAM_TEXT_INFO]" "\<lparr>cr_username = ''bob'', cr_password = ''pw''\<rparr>"]
    conversation_answers [of "[PAM_PROMPT_ECHO_OFF]" "\<lparr>cr_username = ''bob'', cr_password = ''pw''\<rparr>" 7 "[]"]
  by (auto simp: known_style_def answer_def c_str_def)

text \<open>
  C27. The program accepts exactly when its token decodes to a username and a password, and PAM starts,
  authenticates that user with that password and finds the account valid.
\<close>

theorem pam_main_accepts:
  "fst (pam_main b64_decode pam argv input) = 0 \<longleftrightarrow>
    length argv = 1 \<and>
    (\<exists>username password. b64_decode (getline input) = username @ CHR '':'' # password \<and> CHR '':'' \<notin> set username \<and>
      lib_start pam ''webfuse'' = PAM_SUCCESS \<and>
      lib_authenticate pam (c_str username) (conv_of username password) = PAM_SUCCESS \<and>
      lib_acct_mgmt pam (c_str username) = PAM_SUCCESS)"
proof (cases "find_char (CHR '':'') (b64_decode (getline input))")
  case None
  moreover have "CHR '':'' \<notin> set (b64_decode (getline input))"
    using None by (simp add: find_char_None)
  ultimately show ?thesis
    by (auto simp: pam_main_def pam_decode_def Let_def)
next
  case (Some pos)
  let ?plain = "b64_decode (getline input)"
  have "fst (pam_main b64_decode pam argv input) = 0 \<longleftrightarrow> length argv = 1 \<and>
      fst (pam_authenticate_user pam (take pos ?plain) (drop (pos + 1) ?plain))"
    using Some by (simp add: pam_main_def pam_decode_def Let_def case_prod_unfold)
  moreover have "?plain = username @ CHR '':'' # password \<and> CHR '':'' \<notin> set username \<longleftrightarrow>
      username = take pos ?plain \<and> password = drop (pos + 1) ?plain" for username password
    using find_char_unique [OF Some] by blast
  ultimately show ?thesis
    unfolding pam_authenticate_iff by metis
qed

text \<open>
  The PAM handle is released exactly when it was obtained, as the last call.
\<close>

theorem pam_handle_released:
  "let calls = snd (pam_authenticate_user pam username password) in
    hd calls = Pam_start ''webfuse'' \<and>
    (if lib_start pam ''webfuse'' = PAM_SUCCESS then last calls = Pam_end \<and> count_list calls Pam_end = 1
     else calls = [Pam_start ''webfuse''])"
  by (simp add: pam_authenticate_user_def Let_def)

text \<open>
  C28. The whole way of a token: what \<^verbatim>\<open>token_encode\<close> prints for a username without a colon and a password, passed to
  the authenticator program by the service as one line (without the line feeds of the encoder, or as printed if it is a
  single line), is accepted exactly if PAM accepts that user with that password. Of base64 it uses that
  decoding inverts encoding and skips line feeds; the child's exit status is that of the program.
\<close>

theorem pam_token_accepted:
  assumes "\<forall>x. b64_decode (b64_encode x) = x" and "\<forall>t. b64_decode (filter (\<lambda>c. c \<noteq> CHR 0x0A) t) = b64_decode t"
    and "token_encode_main b64_encode [prog, username, password] = (Some printed, 0)"
    and "getline token = filter (\<lambda>c. c \<noteq> CHR 0x0A) printed"
    and "CHR '':'' \<notin> set username"
    and "os_pipe os = (0, fd0, fd1)" and "0 < sint (os_fork os)"
    and "os_waitpid os (os_fork os) = (os_fork os, push_bit 8 (fst (pam_main b64_decode pam [app] token)))"
  shows "fst (authenticate os token) = Some (fst (pam_authenticate_user pam username password))"
proof -
  have "b64_decode printed = username @ CHR '':'' # password"
    using assms(1,3) by (auto simp: token_encode_main_def)
  then have "pam_decode b64_decode (getline token) u p = (True, username, password)" for u p
    using assms(2,4,5) by (simp add: pam_decode_append)
  then have "fst (pam_main b64_decode pam [app] token) = (if fst (pam_authenticate_user pam username password) then 0 else 1)"
    by (simp add: pam_main_def case_prod_unfold)
  then show ?thesis
    using assms(6-8) WEXITSTATUS_exit [of 1] by (auto simp: authenticate_def WEXITSTATUS_def)
qed

text \<open>
  A codec that, like the one of base64, writes letters only and ends with a line feed, and that skips line feeds: two letters
  for each byte.
\<close>

definition letters :: "string \<Rightarrow> string" where
  "letters x = concat (map (\<lambda>c. [char_of (65 + of_char c div 16 :: nat), char_of (65 + of_char c mod 16 :: nat)]) x)"

definition letters_encode :: "string \<Rightarrow> string" where
  "letters_encode x = letters x @ [CHR 0x0A]"

fun letters_pairs :: "string \<Rightarrow> string" where
  "letters_pairs (a # b # t) = char_of (16 * (of_char a - 65) + (of_char b - 65) :: nat) # letters_pairs t"
| "letters_pairs _ = []"

definition letters_decode :: "string \<Rightarrow> string" where
  "letters_decode t = letters_pairs (filter (\<lambda>c. c \<noteq> CHR 0x0A) t)"

lemma letter_of: "n < 16 \<Longrightarrow> of_char (char_of (65 + n :: nat)) = 65 + n"
  by (simp add: take_bit_nat_eq_self)

lemma letter_no_feed: "n < 16 \<Longrightarrow> char_of (65 + n :: nat) \<noteq> CHR 0x0A"
proof
  assume "n < 16" and "char_of (65 + n :: nat) = CHR 0x0A"
  then have "(65 + n :: nat) = of_char (CHR 0x0A)" using letter_of [of n] by simp
  also have "\<dots> = 10" by simp
  finally show False by simp
qed

lemma letters_no_feed: "CHR 0x0A \<notin> set (letters x)"
proof (induction x)
  case (Cons c x)
  have "of_char c div 16 < (16 :: nat)" by (rule less_mult_imp_div_less) simp
  then show ?case
    using Cons letter_no_feed [of "of_char c div 16"] letter_no_feed [of "of_char c mod 16"] by (auto simp: letters_def)
qed (simp add: letters_def)

lemma letters_filter: "filter (\<lambda>c. c \<noteq> CHR 0x0A) (letters_encode x) = letters x"
  using letters_no_feed [of x] unfolding letters_encode_def by (auto simp: filter_id_conv)

lemma letters_roundtrip: "letters_decode (letters_encode x) = x"
proof -
  have "letters_pairs (letters x) = x"
  proof (induction x)
    case (Cons c x)
    have "of_char c div 16 < (16 :: nat)" by (rule less_mult_imp_div_less) simp
    then show ?case
      using Cons letter_of [of "of_char c div 16"] letter_of [of "of_char c mod 16"]
      by (simp add: letters_def del: of_char_of)
  qed (simp add: letters_def)
  then show ?thesis by (simp add: letters_decode_def letters_filter)
qed

lemma letters_line: "getline (letters_encode x) = filter (\<lambda>c. c \<noteq> CHR 0x0A) (letters_encode x)"
  unfolding letters_filter using letters_no_feed [of x] unfolding getline_def letters_encode_def
  by (subst takeWhile_append2) auto

lemma letters_skips: "letters_decode (filter (\<lambda>c. c \<noteq> CHR 0x0A) t) = letters_decode t"
  by (simp add: letters_decode_def)

theorem pam_token_accepted_witness:
  "fst (authenticate \<lparr>os_pipe = (0, 3, 4), os_fork = 77, os_waitpid = \<lambda>pid. (pid, push_bit 8
      (fst (pam_main letters_decode \<lparr>lib_start = \<lambda>_. PAM_SUCCESS,
        lib_authenticate = \<lambda>user conv. (case conv [PAM_PROMPT_ECHO_OFF] of
          (rc, Some [r]) \<Rightarrow> if resp r = Some ''p'' then PAM_SUCCESS else Other_rc 7 | _ \<Rightarrow> Other_rc 7),
        lib_acct_mgmt = \<lambda>_. PAM_SUCCESS\<rparr> [''pam''] (letters_encode ''b:p''))))\<rparr> (letters_encode ''b:p'')) = Some True"
proof -
  let ?pam = "\<lparr>lib_start = \<lambda>_. PAM_SUCCESS,
        lib_authenticate = \<lambda>user conv. (case conv [PAM_PROMPT_ECHO_OFF] of
          (rc, Some [r]) \<Rightarrow> if resp r = Some ''p'' then PAM_SUCCESS else Other_rc 7 | _ \<Rightarrow> Other_rc 7),
        lib_acct_mgmt = \<lambda>_. PAM_SUCCESS\<rparr>"
  have "fst (pam_authenticate_user ?pam ''b'' ''p'')"
    by (simp add: pam_authenticate_iff conv_of_def conversation_def c_str_def)
  moreover note letters_line [of "''b:p''"]
  ultimately show ?thesis
    using pam_token_accepted [of letters_decode letters_encode "''encode''" "''b''" "''p''" "letters_encode ''b:p''"
        "letters_encode ''b:p''" "\<lparr>os_pipe = (0, 3, 4), os_fork = 77, os_waitpid = \<lambda>pid. (pid, push_bit 8
          (fst (pam_main letters_decode ?pam [''pam''] (letters_encode ''b:p''))))\<rparr>" 3 4 ?pam "''pam''"]
    by (simp add: letters_roundtrip letters_skips token_encode_main_def)
qed

end
