(* ===== verification/Fuse.thy ===== *)
theory Fuse
  imports Filesystem_Proxy
begin

text \<open>
  The callbacks that \<^verbatim>\<open>fuse.cpp\<close> registers with libfuse: each finds the file system object of the mount
  and forwards to it. A path is the C string libfuse passes; \<open>info\<close> is the pointer to the
  \<^verbatim>\<open>fuse_file_info\<close> of an open file, \<open>None\<close> when libfuse passes a null pointer.
\<close>

record fuse_file_info =
  fi_flags :: i32
  fi_fh :: u64

definition fs_get_handle :: "fuse_file_info option \<Rightarrow> u64" where
  "fs_get_handle info = (case info of Some i \<Rightarrow> fi_fh i | None \<Rightarrow> - 1)"

subsection \<open>The callbacks\<close>

definition fuse_fs_access :: "'s filesystem_i \<Rightarrow> string \<Rightarrow> i32 \<Rightarrow> ('s, i32) sm" where
  "fuse_fs_access fs path mode = fsi_access fs path mode"

definition fuse_fs_getattr ::
    "'s filesystem_i \<Rightarrow> string \<Rightarrow> stat \<Rightarrow> fuse_file_info option \<Rightarrow> ('s, i32 \<times> stat) sm" where
  "fuse_fs_getattr fs path buffer info = fsi_getattr fs path buffer"

text \<open>
  \<^verbatim>\<open>snprintf(buffer, n, "%s", out.c_str())\<close>: at most \<open>n - 1\<close> characters of \<open>out\<close>, up to its first null
  character, and a null character behind them.
\<close>

definition snprintf_s :: "string \<Rightarrow> nat \<Rightarrow> string \<Rightarrow> string" where
  "snprintf_s buffer n out =
    (if n = 0 then buffer
     else (let s = take (n - 1) (c_str out)
           in copy_front (s @ [CHR 0x00]) buffer))"

definition fuse_fs_readlink :: "'s filesystem_i \<Rightarrow> string \<Rightarrow> string \<Rightarrow> nat \<Rightarrow> ('s, i32 \<times> string) sm" where
  "fuse_fs_readlink fs path buffer buffer_size =
    bind_m (fsi_readlink fs path []) (\<lambda>(result, out).
    return_m (result, if 0 = result then snprintf_s buffer buffer_size out else buffer))"

definition fuse_fs_symlink :: "'s filesystem_i \<Rightarrow> string \<Rightarrow> string \<Rightarrow> ('s, i32) sm" where
  "fuse_fs_symlink fs target linkpath = fsi_symlink fs target linkpath"

definition fuse_fs_link :: "'s filesystem_i \<Rightarrow> string \<Rightarrow> string \<Rightarrow> ('s, i32) sm" where
  "fuse_fs_link fs old_path new_path = fsi_link fs old_path new_path"

definition fuse_fs_rename :: "'s filesystem_i \<Rightarrow> string \<Rightarrow> string \<Rightarrow> u32 \<Rightarrow> ('s, i32) sm" where
  "fuse_fs_rename fs from to flags = fsi_rename fs from to flags"

definition fuse_fs_chmod :: "'s filesystem_i \<Rightarrow> string \<Rightarrow> u32 \<Rightarrow> fuse_file_info option \<Rightarrow> ('s, i32) sm" where
  "fuse_fs_chmod fs path mode info = fsi_chmod fs path mode"

definition fuse_fs_chown ::
    "'s filesystem_i \<Rightarrow> string \<Rightarrow> u32 \<Rightarrow> u32 \<Rightarrow> fuse_file_info option \<Rightarrow> ('s, i32) sm" where
  "fuse_fs_chown fs path uid gid info = fsi_chown fs path uid gid"

definition fuse_fs_truncate :: "'s filesystem_i \<Rightarrow> string \<Rightarrow> u64 \<Rightarrow> fuse_file_info option \<Rightarrow> ('s, i32) sm" where
  "fuse_fs_truncate fs path len info = fsi_truncate fs path len (fs_get_handle info)"

definition fuse_fs_fsync :: "'s filesystem_i \<Rightarrow> string \<Rightarrow> i32 \<Rightarrow> fuse_file_info option \<Rightarrow> ('s, i32) sm" where
  "fuse_fs_fsync fs path isdatasync info = fsi_fsync fs path (isdatasync \<noteq> 0) (fs_get_handle info)"

text \<open>\<^verbatim>\<open>info->fh\<close> is passed by reference.\<close>

definition fuse_fs_open :: "'s filesystem_i \<Rightarrow> string \<Rightarrow> fuse_file_info \<Rightarrow> ('s, i32 \<times> fuse_file_info) sm" where
  "fuse_fs_open fs path info =
    bind_m (fsi_open fs path (fi_flags info) (fi_fh info)) (\<lambda>(result, fh).
    return_m (result, info\<lparr>fi_fh := fh\<rparr>))"

definition fuse_fs_mknod :: "'s filesystem_i \<Rightarrow> string \<Rightarrow> u32 \<Rightarrow> u64 \<Rightarrow> ('s, i32) sm" where
  "fuse_fs_mknod fs path mode raw_rdev = fsi_mknod fs path mode raw_rdev"

definition fuse_fs_create ::
    "'s filesystem_i \<Rightarrow> string \<Rightarrow> u32 \<Rightarrow> fuse_file_info \<Rightarrow> ('s, i32 \<times> fuse_file_info) sm" where
  "fuse_fs_create fs path mode info =
    bind_m (fsi_create fs path mode (fi_fh info)) (\<lambda>(result, fh).
    return_m (result, info\<lparr>fi_fh := fh\<rparr>))"

definition fuse_fs_release :: "'s filesystem_i \<Rightarrow> string \<Rightarrow> fuse_file_info option \<Rightarrow> ('s, i32) sm" where
  "fuse_fs_release fs path info = fsi_release fs path (fs_get_handle info)"

definition fuse_fs_unlink :: "'s filesystem_i \<Rightarrow> string \<Rightarrow> ('s, i32) sm" where
  "fuse_fs_unlink fs path = fsi_unlink fs path"

definition fuse_fs_read ::
    "'s filesystem_i \<Rightarrow> string \<Rightarrow> string \<Rightarrow> nat \<Rightarrow> u64 \<Rightarrow> fuse_file_info option \<Rightarrow> ('s, i32 \<times> string) sm" where
  "fuse_fs_read fs path buffer buffer_size raw_offset info =
    fsi_read fs path buffer buffer_size raw_offset (fs_get_handle info)"

definition fuse_fs_write ::
    "'s filesystem_i \<Rightarrow> string \<Rightarrow> string \<Rightarrow> nat \<Rightarrow> u64 \<Rightarrow> fuse_file_info option \<Rightarrow> ('s, i32) sm" where
  "fuse_fs_write fs path buffer buffer_size raw_offset info =
    fsi_write fs path buffer buffer_size raw_offset (fs_get_handle info)"

definition fuse_fs_mkdir :: "'s filesystem_i \<Rightarrow> string \<Rightarrow> u32 \<Rightarrow> ('s, i32) sm" where
  "fuse_fs_mkdir fs path mode = fsi_mkdir fs path mode"

text \<open>The names passed to \<^verbatim>\<open>filler\<close>, in order, as C strings.\<close>

definition fuse_fs_readdir :: "'s filesystem_i \<Rightarrow> string \<Rightarrow> string list \<Rightarrow> ('s, i32 \<times> string list) sm" where
  "fuse_fs_readdir fs path filled =
    bind_m (fsi_readdir fs path []) (\<lambda>(result, names).
    return_m (result,
      if 0 = result
      then filled @ [''.''] @ [''..''] @ map c_str names
      else filled))"

definition fuse_fs_rmdir :: "'s filesystem_i \<Rightarrow> string \<Rightarrow> ('s, i32) sm" where
  "fuse_fs_rmdir fs path = fsi_rmdir fs path"

definition fuse_fs_statfs :: "'s filesystem_i \<Rightarrow> string \<Rightarrow> statvfs \<Rightarrow> ('s, i32 \<times> statvfs) sm" where
  "fuse_fs_statfs fs path buffer = fsi_statfs fs path buffer"

definition fuse_fs_utimes ::
    "'s filesystem_i \<Rightarrow> string \<Rightarrow> timespec \<times> timespec \<Rightarrow> fuse_file_info option \<Rightarrow> ('s, i32) sm" where
  "fuse_fs_utimes fs path tv info = fsi_utimens fs path tv (fs_get_handle info)"

subsection \<open>The table of callbacks\<close>

text \<open>The members of \<^verbatim>\<open>struct fuse_operations\<close> that \<^verbatim>\<open>fuse::run\<close> sets; all others are null.\<close>

record 's fuse_operations =
  op_access :: "string \<Rightarrow> i32 \<Rightarrow> ('s, i32) sm"
  op_getattr :: "string \<Rightarrow> stat \<Rightarrow> fuse_file_info option \<Rightarrow> ('s, i32 \<times> stat) sm"
  op_readlink :: "string \<Rightarrow> string \<Rightarrow> nat \<Rightarrow> ('s, i32 \<times> string) sm"
  op_symlink :: "string \<Rightarrow> string \<Rightarrow> ('s, i32) sm"
  op_link :: "string \<Rightarrow> string \<Rightarrow> ('s, i32) sm"
  op_rename :: "string \<Rightarrow> string \<Rightarrow> u32 \<Rightarrow> ('s, i32) sm"
  op_chmod :: "string \<Rightarrow> u32 \<Rightarrow> fuse_file_info option \<Rightarrow> ('s, i32) sm"
  op_chown :: "string \<Rightarrow> u32 \<Rightarrow> u32 \<Rightarrow> fuse_file_info option \<Rightarrow> ('s, i32) sm"
  op_truncate :: "string \<Rightarrow> u64 \<Rightarrow> fuse_file_info option \<Rightarrow> ('s, i32) sm"
  op_fsync :: "string \<Rightarrow> i32 \<Rightarrow> fuse_file_info option \<Rightarrow> ('s, i32) sm"
  op_open :: "string \<Rightarrow> fuse_file_info \<Rightarrow> ('s, i32 \<times> fuse_file_info) sm"
  op_mknod :: "string \<Rightarrow> u32 \<Rightarrow> u64 \<Rightarrow> ('s, i32) sm"
  op_create :: "string \<Rightarrow> u32 \<Rightarrow> fuse_file_info \<Rightarrow> ('s, i32 \<times> fuse_file_info) sm"
  op_release :: "string \<Rightarrow> fuse_file_info option \<Rightarrow> ('s, i32) sm"
  op_unlink :: "string \<Rightarrow> ('s, i32) sm"
  op_read :: "string \<Rightarrow> string \<Rightarrow> nat \<Rightarrow> u64 \<Rightarrow> fuse_file_info option \<Rightarrow> ('s, i32 \<times> string) sm"
  op_write :: "string \<Rightarrow> string \<Rightarrow> nat \<Rightarrow> u64 \<Rightarrow> fuse_file_info option \<Rightarrow> ('s, i32) sm"
  op_mkdir :: "string \<Rightarrow> u32 \<Rightarrow> ('s, i32) sm"
  op_readdir :: "string \<Rightarrow> string list \<Rightarrow> ('s, i32 \<times> string list) sm"
  op_rmdir :: "string \<Rightarrow> ('s, i32) sm"
  op_statfs :: "string \<Rightarrow> statvfs \<Rightarrow> ('s, i32 \<times> statvfs) sm"
  op_utimens :: "string \<Rightarrow> timespec \<times> timespec \<Rightarrow> fuse_file_info option \<Rightarrow> ('s, i32) sm"

definition fuse_operations_of :: "'s filesystem_i \<Rightarrow> 's fuse_operations" where
  "fuse_operations_of fs =
    \<lparr>op_access = fuse_fs_access fs,
     op_getattr = fuse_fs_getattr fs,
     op_readlink = fuse_fs_readlink fs,
     op_symlink = fuse_fs_symlink fs,
     op_link = fuse_fs_link fs,
     op_rename = fuse_fs_rename fs,
     op_chmod = fuse_fs_chmod fs,
     op_chown = fuse_fs_chown fs,
     op_truncate = fuse_fs_truncate fs,
     op_fsync = fuse_fs_fsync fs,
     op_open = fuse_fs_open fs,
     op_mknod = fuse_fs_mknod fs,
     op_create = fuse_fs_create fs,
     op_release = fuse_fs_release fs,
     op_unlink = fuse_fs_unlink fs,
     op_read = fuse_fs_read fs,
     op_write = fuse_fs_write fs,
     op_mkdir = fuse_fs_mkdir fs,
     op_readdir = fuse_fs_readdir fs,
     op_rmdir = fuse_fs_rmdir fs,
     op_statfs = fuse_fs_statfs fs,
     op_utimens = fuse_fs_utimes fs\<rparr>"

text \<open>
  \<^verbatim>\<open>fuse_main\<close> is an argument: it gets the command line and the table, \<open>None\<close> for a table of null pointers.
\<close>

type_synonym 's fuse_main = "string list \<Rightarrow> 's fuse_operations option \<Rightarrow> i32"

definition fuse_run :: "'s fuse_main \<Rightarrow> 's filesystem_i \<Rightarrow> string list \<Rightarrow> i32" where
  "fuse_run fuse_main fs argv = fuse_main argv (Some (fuse_operations_of fs))"

definition fuse_print_usage :: "'s fuse_main \<Rightarrow> i32" where
  "fuse_print_usage fuse_main = fuse_main [''webfuse'', ''--help''] None"

text \<open>\<^verbatim>\<open>fs_init\<close> turns caching off; the timeouts are in seconds.\<close>

record fuse_config =
  fc_use_ino :: bool
  fc_entry_timeout :: nat
  fc_attr_timeout :: nat
  fc_negative_timeout :: nat

definition fs_init :: "fuse_config \<Rightarrow> fuse_config" where
  "fs_init config =
    config\<lparr>fc_use_ino := True, fc_entry_timeout := 0, fc_attr_timeout := 0, fc_negative_timeout := 0\<rparr>"

subsection \<open>The service's file system as an object\<close>

text \<open>Class \<^verbatim>\<open>filesystem\<close> of \<^verbatim>\<open>filesystem.cpp\<close> as an implementation of the interface.\<close>

definition filesystem_object :: "nat \<Rightarrow> 'p perform \<Rightarrow> 'p filesystem_i" where
  "filesystem_object lws_pre perform =
    \<lparr>fsi_access = filesystem_access lws_pre perform,
     fsi_getattr = filesystem_getattr lws_pre perform,
     fsi_readlink = filesystem_readlink lws_pre perform,
     fsi_symlink = filesystem_symlink lws_pre perform,
     fsi_link = filesystem_link lws_pre perform,
     fsi_rename = filesystem_rename lws_pre perform,
     fsi_chmod = filesystem_chmod lws_pre perform,
     fsi_chown = filesystem_chown lws_pre perform,
     fsi_truncate = filesystem_truncate lws_pre perform,
     fsi_fsync = filesystem_fsync lws_pre perform,
     fsi_utimens = filesystem_utimens lws_pre perform,
     fsi_open = filesystem_open lws_pre perform,
     fsi_mknod = filesystem_mknod lws_pre perform,
     fsi_create = filesystem_create lws_pre perform,
     fsi_release = filesystem_release lws_pre perform,
     fsi_unlink = filesystem_unlink lws_pre perform,
     fsi_read = filesystem_read lws_pre perform,
     fsi_write = filesystem_write lws_pre perform,
     fsi_mkdir = filesystem_mkdir lws_pre perform,
     fsi_readdir = filesystem_readdir lws_pre perform,
     fsi_rmdir = filesystem_rmdir lws_pre perform,
     fsi_statfs = filesystem_statfs lws_pre perform,
     fsi_get_credentials = filesystem_get_credentials\<rparr>"

subsection \<open>Symbolic links\<close>

lemma snprintf_s_length: "n \<le> length buffer \<Longrightarrow> length (snprintf_s buffer n out) = length buffer"
  by (auto simp: snprintf_s_def copy_front_def Let_def)

lemma snprintf_s_terminated: "0 < n \<Longrightarrow> CHR 0x00 \<in> set (take n (snprintf_s buffer n out))"
  by (auto simp: snprintf_s_def copy_front_def Let_def take_Cons')

lemma drop_overwritten: "length s < n \<Longrightarrow> drop n (s @ c # drop (Suc (length s)) b) = drop n b"
  by (drule less_imp_Suc_add) (auto simp: ac_simps)

subsection \<open>Properties\<close>

text \<open>
  \<^verbatim>\<open>readlink\<close> never writes behind the buffer of the caller, and terminates what it writes; the text is the
  target, cut to the size of the buffer.
\<close>

theorem fuse_readlink_in_bounds:
  assumes "fuse_fs_readlink fs path buffer n s = (Inr (0, buffer'), s')"
    and "0 < n" and "n \<le> length buffer"
  shows "\<exists>out. length buffer' = length buffer \<and> drop n buffer' = drop n buffer \<and>
    c_str buffer' = take (n - 1) (c_str out) \<and>
    fsi_readlink fs path [] s = (Inr (0, out), s')"
proof -
  obtain out where out: "fsi_readlink fs path [] s = (Inr (0, out), s')" "buffer' = snprintf_s buffer n out"
    using assms(1)
    by (auto simp: fuse_fs_readlink_def bind_m_def return_apply split: prod.splits sum.splits if_splits)
  let ?s = "take (n - 1) (c_str out)"
  have eq: "buffer' = ?s @ CHR 0x00 # drop (Suc (length ?s)) buffer"
    using out(2) assms(2) by (simp add: snprintf_s_def copy_front_def Let_def)
  have "CHR 0x00 \<notin> set ?s"
    using c_str_no_null in_set_takeD by metis
  then have "c_str buffer' = ?s"
    unfolding eq by (rule c_str_append_null)
  moreover have "drop n buffer' = drop n buffer"
  proof -
    have "length ?s < n" using assms(2) by (auto simp: min_def)
    then show ?thesis unfolding eq by (rule drop_overwritten)
  qed
  ultimately show ?thesis
    using out assms(3) snprintf_s_length by blast
qed

theorem fuse_readlink_in_bounds_witness:
  "\<exists>buffer'. fuse_fs_readlink (empty_filesystem\<lparr>fsi_readlink := \<lambda>p out. return_m (0, ''target'')\<rparr>)
      ''/l'' ''xxxxxx'' 4 () = (Inr (0, buffer'), ()) \<and> length buffer' = 6 \<and> drop 4 buffer' = ''xx''"
  using fuse_readlink_in_bounds [of "empty_filesystem\<lparr>fsi_readlink := \<lambda>p out. return_m (0, ''target'')\<rparr>"
      "''/l''" "''xxxxxx''" 4 "()" "snprintf_s ''xxxxxx'' 4 ''target''" "()"]
  by (auto simp: fuse_fs_readlink_def return_apply)

end
