(* ===== verification/Config.thy ===== *)
theory Config
  imports Std_String
begin

text \<open>
  The command line of the service: \<^verbatim>\<open>commandline_reader\<close> and \<^verbatim>\<open>commandline_args\<close> (\<^verbatim>\<open>util/\<close>), \<^verbatim>\<open>ws_config\<close>
  (\<^verbatim>\<open>ws/config.cpp\<close>). The constructor of \<^verbatim>\<open>ws_config\<close> walks over
  \<^verbatim>\<open>argv\<close> with an index; the lemmas relate it to a recursion over the list of arguments.
\<close>

subsection \<open>commandline\_reader\<close>

record commandline_reader =
  cr_current :: nat
  cr_argv :: "string list"

definition commandline_reader_new :: "string list \<Rightarrow> commandline_reader" where
  "commandline_reader_new argv = \<lparr>cr_current = 0, cr_argv = argv\<rparr>"

definition reader_next :: "commandline_reader \<Rightarrow> bool \<times> commandline_reader" where
  "reader_next r =
    (let r = (if cr_current r < length (cr_argv r) then r\<lparr>cr_current := cr_current r + 1\<rparr> else r)
     in (cr_current r < length (cr_argv r), r))"

definition reader_current :: "commandline_reader \<Rightarrow> string" where
  "reader_current r = cr_argv r ! cr_current r"

subsection \<open>commandline\_args\<close>

record commandline_args =
  ca_capacity :: nat
  ca_argv :: "string list"

definition commandline_args_push :: "string \<Rightarrow> commandline_args \<Rightarrow> exn + commandline_args" where
  "commandline_args_push arg a =
    (if length (ca_argv a) < ca_capacity a then Inr (a\<lparr>ca_argv := ca_argv a @ [arg]\<rparr>)
     else Inl (Runtime_error ''capacity exceeded''))"

definition commandline_args_new :: "string \<Rightarrow> nat \<Rightarrow> exn + commandline_args" where
  "commandline_args_new prog_name capacity =
    (if capacity < 1 then Inl (Runtime_error ''too few commandline args'')
     else commandline_args_push prog_name \<lparr>ca_capacity = capacity, ca_argv = []\<rparr>)"

definition get_argc :: "commandline_args \<Rightarrow> nat" where
  "get_argc a = length (ca_argv a)"

definition get_argv :: "commandline_args \<Rightarrow> string list" where
  "get_argv a = ca_argv a"

text \<open>The destructor frees the strings one by one, then the array; it returns the strings it freed.\<close>

function free_args :: "nat \<Rightarrow> commandline_args \<Rightarrow> string list" where
  "free_args i a = (if i < get_argc a then get_argv a ! i # free_args (i + 1) a else [])"
  by pat_completeness auto
termination by (relation "measure (\<lambda>(i, a). get_argc a - i)") auto

declare free_args.simps [simp del]

definition commandline_args_destroy :: "commandline_args \<Rightarrow> string list" where
  "commandline_args_destroy a = free_args 0 a"

lemma free_args_eq: "free_args i a = drop i (ca_argv a)"
proof (induction i a rule: free_args.induct)
  case (1 i a)
  then show ?case by (subst free_args.simps) (simp add: get_argc_def get_argv_def Cons_nth_drop_Suc)
qed

lemma args_freed: "commandline_args_destroy a = ca_argv a"
  by (simp add: commandline_args_destroy_def free_args_eq)

subsection \<open>ws\_config\<close>

datatype command = Cmd_run | Cmd_print_version | Cmd_show_help

record ws_config =
  wc_exit_code :: i32
  wc_args :: commandline_args
  wc_cmd :: command
  wc_port :: u16
  wc_vhost_name :: string
  wc_docroot :: string
  wc_use_tls :: bool
  wc_cert_path :: string
  wc_key_path :: string
  wc_authenticator :: string
  wc_auth_header :: string
  wc_timeout_secs :: u64

definition EXIT_SUCCESS :: i32 where "EXIT_SUCCESS = 0"
definition EXIT_FAILURE :: i32 where "EXIT_FAILURE = 1"
definition default_port :: i32 where "default_port = 8081"
definition default_vhost_name :: string where "default_vhost_name = ''localhost''"
definition default_timeout_secs :: u64 where "default_timeout_secs = 10"

lemmas config_consts = EXIT_SUCCESS_def EXIT_FAILURE_def default_port_def default_vhost_name_def
  default_timeout_secs_def

definition verify :: "ws_config \<Rightarrow> ws_config" where
  "verify config =
    (if wc_cmd config = Cmd_run
     then (if wc_use_tls config \<and> (wc_key_path config = '''' \<or> wc_cert_path config = '''')
           then config\<lparr>wc_cmd := Cmd_show_help, wc_exit_code := EXIT_FAILURE\<rparr>
           else config)
     else config)"

text \<open>\<open>store\<close> assigns the value to the variable that \<^verbatim>\<open>get_arg\<close> gets by reference.\<close>

definition get_arg ::
    "(string \<Rightarrow> ws_config \<Rightarrow> exn + ws_config) \<Rightarrow> ws_config \<Rightarrow> commandline_reader \<Rightarrow>
      exn + (ws_config \<times> commandline_reader)" where
  "get_arg store config reader =
    (let (has_next, reader) = reader_next reader in
     if has_next
     then (case store (reader_current reader) config of
        Inl e \<Rightarrow> Inl e | Inr config \<Rightarrow> Inr (config, reader))
     else Inr (config\<lparr>wc_cmd := Cmd_show_help, wc_exit_code := EXIT_FAILURE\<rparr>, reader))"

text \<open>What each option with a value does with it.\<close>

definition store_port :: "string \<Rightarrow> ws_config \<Rightarrow> exn + ws_config" where
  "store_port value c = (case stoi value of Inl e \<Rightarrow> Inl e | Inr v \<Rightarrow> Inr (c\<lparr>wc_port := ucast v\<rparr>))"

definition store_timeout :: "string \<Rightarrow> ws_config \<Rightarrow> exn + ws_config" where
  "store_timeout value c = (case stoi value of Inl e \<Rightarrow> Inl e | Inr v \<Rightarrow> Inr (c\<lparr>wc_timeout_secs := scast v\<rparr>))"

definition option_store :: "string \<Rightarrow> (string \<Rightarrow> ws_config \<Rightarrow> exn + ws_config) option" where
  "option_store arg =
    (if arg = ''--wf-port'' then Some store_port
     else if arg = ''--wf-vhost'' then Some (\<lambda>v c. Inr (c\<lparr>wc_vhost_name := v\<rparr>))
     else if arg = ''--wf-key'' then Some (\<lambda>v c. Inr (c\<lparr>wc_key_path := v, wc_use_tls := True\<rparr>))
     else if arg = ''--wf-cert'' then Some (\<lambda>v c. Inr (c\<lparr>wc_cert_path := v, wc_use_tls := True\<rparr>))
     else if arg = ''--wf-authenticator'' then Some (\<lambda>v c. Inr (c\<lparr>wc_authenticator := v\<rparr>))
     else if arg = ''--wf-auth-header'' then Some (\<lambda>v c. Inr (c\<lparr>wc_auth_header := map tolower v\<rparr>))
     else if arg = ''--wf-timeout'' then Some store_timeout
     else if arg = ''--wf-docroot'' then Some (\<lambda>v c. Inr (c\<lparr>wc_docroot := v\<rparr>))
     else None)"

text \<open>The options without a value, and everything else, which is passed on to FUSE.\<close>

definition plain_arg :: "string \<Rightarrow> ws_config \<Rightarrow> exn + ws_config" where
  "plain_arg arg c =
    (if arg = ''-h'' \<or> arg = ''--help'' then Inr (c\<lparr>wc_cmd := Cmd_show_help\<rparr>)
     else if arg = ''--wf-version'' then Inr (c\<lparr>wc_cmd := Cmd_print_version\<rparr>)
     else (case commandline_args_push arg (wc_args c) of Inl e \<Rightarrow> Inl e | Inr a \<Rightarrow> Inr (c\<lparr>wc_args := a\<rparr>)))"

text \<open>One iteration of the loop, behind \<^verbatim>\<open>reader.next()\<close>.\<close>

definition config_step ::
    "ws_config \<Rightarrow> commandline_reader \<Rightarrow> exn + (ws_config \<times> commandline_reader)" where
  "config_step c r =
    (let arg = reader_current r in
     case option_store arg of
       Some store \<Rightarrow> get_arg store c r
     | None \<Rightarrow> (case plain_arg arg c of Inl e \<Rightarrow> Inl e | Inr c \<Rightarrow> Inr (c, r)))"

lemma reader_next_progress:
  "reader_next r = (True, r') \<Longrightarrow> cr_current r' = cr_current r + 1 \<and> cr_argv r' = cr_argv r \<and>
    cr_current r' < length (cr_argv r)"
  by (auto simp: reader_next_def Let_def split: if_splits)

lemma reader_next_mono:
  "reader_next r = (b, r') \<Longrightarrow> cr_current r \<le> cr_current r' \<and> cr_argv r' = cr_argv r"
  by (auto simp: reader_next_def Let_def split: if_splits)

lemma config_step_mono:
  "config_step c r = Inr (c', r') \<Longrightarrow> cr_current r \<le> cr_current r' \<and> cr_argv r' = cr_argv r"
  by (auto simp: config_step_def get_arg_def Let_def dest: reader_next_mono
      split: option.splits sum.splits prod.splits if_splits)

lemma config_progress:
  assumes "reader_next r = (True, r1)" and "config_step c r1 = Inr (c', r')"
  shows "length (cr_argv r') - cr_current r' < length (cr_argv r) - cr_current r"
  using reader_next_progress [OF assms(1)] config_step_mono [OF assms(2)] by auto

function config_loop :: "ws_config \<Rightarrow> commandline_reader \<Rightarrow> exn + ws_config" where
  "config_loop c r =
    (if wc_exit_code c = EXIT_SUCCESS
     then (case reader_next r of
        (False, _) \<Rightarrow> Inr c
      | (True, r) \<Rightarrow>
          (case config_step c r of Inl e \<Rightarrow> Inl e | Inr (c, r) \<Rightarrow> config_loop c r))
     else Inr c)"
  by pat_completeness auto
termination
  by (relation "measure (\<lambda>(c, r). length (cr_argv r) - cr_current r)")
    (auto intro: config_progress [OF sym])

declare config_loop.simps [simp del]

definition ws_config_new :: "string list \<Rightarrow> exn + ws_config" where
  "ws_config_new argv =
    (case commandline_args_new (hd argv) (length argv) of
      Inl e \<Rightarrow> Inl e
    | Inr args \<Rightarrow>
        (case config_loop
           \<lparr>wc_exit_code = EXIT_SUCCESS, wc_args = args, wc_cmd = Cmd_run, wc_port = ucast default_port,
            wc_vhost_name = default_vhost_name, wc_docroot = '''', wc_use_tls = False,
            wc_cert_path = '''', wc_key_path = '''', wc_authenticator = '''', wc_auth_header = '''',
            wc_timeout_secs = default_timeout_secs\<rparr>
           (commandline_reader_new argv) of
          Inl e \<Rightarrow> Inl e
        | Inr c \<Rightarrow> Inr (verify c)))"

subsection \<open>The configuration as a function of the argument list\<close>

fun parse_args :: "ws_config \<Rightarrow> string list \<Rightarrow> exn + ws_config" where
  "parse_args c [] = Inr c"
| "parse_args c (arg # rest) =
    (case option_store arg of
       Some store \<Rightarrow>
         (case rest of
            [] \<Rightarrow> Inr (c\<lparr>wc_cmd := Cmd_show_help, wc_exit_code := EXIT_FAILURE\<rparr>)
          | value # rest \<Rightarrow> (case store value c of Inl e \<Rightarrow> Inl e | Inr c \<Rightarrow> parse_args c rest))
     | None \<Rightarrow> (case plain_arg arg c of Inl e \<Rightarrow> Inl e | Inr c \<Rightarrow> parse_args c rest))"

lemma store_cases:
  assumes "option_store arg = Some store" and "store v c = Inr c'"
  shows "wc_exit_code c' = wc_exit_code c \<and> wc_args c' = wc_args c \<and> wc_cmd c' = wc_cmd c"
  using assms by (auto simp: option_store_def store_port_def store_timeout_def split: if_splits sum.splits)

lemma stoi_error: "stoi s = Inl e \<Longrightarrow> e = Invalid_argument ''stoi'' \<or> e = Out_of_range ''stoi''"
  by (auto simp: stoi_def Let_def split: if_splits)

lemma store_error:
  assumes "option_store arg = Some store" and "store v c = Inl e"
  shows "e = Invalid_argument ''stoi'' \<or> e = Out_of_range ''stoi''"
  using assms stoi_error
  by (auto simp: option_store_def store_port_def store_timeout_def split: if_splits sum.splits)

lemma plain_exit_code: "plain_arg arg c = Inr c' \<Longrightarrow> wc_exit_code c' = wc_exit_code c"
  by (auto simp: plain_arg_def split: if_splits sum.splits)

lemma reader_next_drop:
  assumes "cr_current r < length (cr_argv r)"
  shows "(case reader_next r of (b, r') \<Rightarrow>
    cr_argv r' = cr_argv r \<and> b = (drop (cr_current r + 1) (cr_argv r) \<noteq> []) \<and>
    (b \<longrightarrow> cr_current r' < length (cr_argv r') \<and>
      drop (cr_current r + 1) (cr_argv r) = reader_current r' # drop (cr_current r' + 1) (cr_argv r')))"
  using assms by (auto simp: reader_next_def reader_current_def Let_def Cons_nth_drop_Suc)

lemma config_loop_parse:
  "wc_exit_code c = EXIT_SUCCESS \<Longrightarrow> cr_current r < length (cr_argv r) \<Longrightarrow>
    config_loop c r = parse_args c (drop (cr_current r + 1) (cr_argv r))"
proof (induction c r rule: config_loop.induct)
  case (1 c r)
  obtain b r1 where n: "reader_next r = (b, r1)" by (cases "reader_next r")
  show ?case
  proof (cases b)
    case False
    then have "drop (cr_current r + 1) (cr_argv r) = []"
      using reader_next_drop [OF 1(3)] n by simp
    then show ?thesis using 1(2) n False by (simp add: config_loop.simps)
  next
    case True
    let ?arg = "reader_current r1" and ?rest = "drop (cr_current r1 + 1) (cr_argv r1)"
    have d: "drop (cr_current r + 1) (cr_argv r) = ?arg # ?rest" "cr_current r1 < length (cr_argv r1)"
      using reader_next_drop [OF 1(3)] n True by auto
    have IH: "config_loop c' r' = parse_args c' (drop (cr_current r' + 1) (cr_argv r'))"
      if "config_step c r1 = Inr (c', r')" "wc_exit_code c' = EXIT_SUCCESS"
        "cr_current r' < length (cr_argv r')" for c' r'
      using 1(1) [OF 1(2) n [symmetric] _ that(1) refl that(2,3)] True by simp
    have eq: "config_loop c r = (case config_step c r1 of Inl e \<Rightarrow> Inl e | Inr (c, r) \<Rightarrow> config_loop c r)"
      using 1(2) n True by (simp add: config_loop.simps [of c r])
    show ?thesis
    proof (cases "option_store ?arg")
      case None
      show ?thesis
      proof (cases "plain_arg ?arg c")
        case (Inr c')
        then have "config_step c r1 = Inr (c', r1)" using None by (simp add: config_step_def)
        moreover have "wc_exit_code c' = EXIT_SUCCESS" using plain_exit_code [OF Inr] 1(2) by simp
        ultimately show ?thesis using eq d None Inr IH by simp
      qed (use eq d None in \<open>simp add: config_step_def\<close>)
    next
      case (Some store)
      obtain b2 r2 where n2: "reader_next r1 = (b2, r2)" by (cases "reader_next r1")
      note d2 = reader_next_drop [OF d(2), unfolded n2 prod.case]
      show ?thesis
      proof (cases b2)
        case False
        then have "config_loop c r = Inr (c\<lparr>wc_cmd := Cmd_show_help, wc_exit_code := EXIT_FAILURE\<rparr>)"
          using eq Some n2 by (simp add: config_step_def get_arg_def config_loop.simps config_consts)
        then show ?thesis using d d2 False Some by simp
      next
        case True
        then have rest: "?rest = reader_current r2 # drop (cr_current r2 + 1) (cr_argv r2)"
          "cr_current r2 < length (cr_argv r2)" using d2 by auto
        show ?thesis
        proof (cases "store (reader_current r2) c")
          case (Inr c')
          then have "config_step c r1 = Inr (c', r2)"
            using Some n2 True by (simp add: config_step_def get_arg_def)
          moreover have "wc_exit_code c' = EXIT_SUCCESS" using store_cases [OF Some Inr] 1(2) by simp
          ultimately show ?thesis using eq d rest Some Inr IH by simp
        qed (use eq d rest Some n2 True in \<open>simp add: config_step_def get_arg_def\<close>)
      qed
    qed
  qed
qed

text \<open>
  What is passed on to FUSE: the options of the usage text and their values are not. Eight options have a value, as
  the usage documents them.
\<close>

definition value_options :: "string list" where
  "value_options = [''--wf-port'', ''--wf-vhost'', ''--wf-cert'', ''--wf-key'', ''--wf-authenticator'', ''--wf-auth-header'',
    ''--wf-docroot'', ''--wf-timeout'']"

fun forwarded :: "string list \<Rightarrow> string list" where
  "forwarded [] = []"
| "forwarded (arg # rest) =
    (if arg \<in> set value_options then (case rest of [] \<Rightarrow> [] | value # rest \<Rightarrow> forwarded rest)
     else if arg \<in> {''-h'', ''--help'', ''--wf-version''} then forwarded rest
     else arg # forwarded rest)"

lemma option_store_value_options: "option_store arg = None \<longleftrightarrow> arg \<notin> set value_options"
  by (simp add: option_store_def value_options_def)

lemma value_optionsI: "option_store arg = Some store \<Longrightarrow> arg \<in> set value_options"
  using option_store_value_options [of arg] by simp

definition initial_config :: "string list \<Rightarrow> ws_config" where
  "initial_config argv =
    \<lparr>wc_exit_code = EXIT_SUCCESS, wc_args = \<lparr>ca_capacity = length argv, ca_argv = [hd argv]\<rparr>,
     wc_cmd = Cmd_run, wc_port = ucast default_port, wc_vhost_name = default_vhost_name,
     wc_docroot = '''', wc_use_tls = False, wc_cert_path = '''', wc_key_path = '''',
     wc_authenticator = '''', wc_auth_header = '''', wc_timeout_secs = default_timeout_secs\<rparr>"

lemma ws_config_new_parse:
  assumes "argv \<noteq> []"
  shows "ws_config_new argv =
    (case parse_args (initial_config argv) (tl argv) of Inl e \<Rightarrow> Inl e | Inr c \<Rightarrow> Inr (verify c))"
proof -
  have "config_loop (initial_config argv) (commandline_reader_new argv) =
      parse_args (initial_config argv) (tl argv)"
    using config_loop_parse [of "initial_config argv" "commandline_reader_new argv"] assms
    by (simp add: initial_config_def commandline_reader_new_def drop_Suc)
  then show ?thesis
    using assms
    by (simp add: ws_config_new_def commandline_args_new_def commandline_args_push_def
        initial_config_def Suc_le_eq)
qed

definition room_for :: "string list \<Rightarrow> ws_config \<Rightarrow> bool" where
  "room_for args c \<longleftrightarrow> length (ca_argv (wc_args c)) + length args \<le> ca_capacity (wc_args c)"

lemma plain_arg_ok:
  assumes "room_for (arg # rest) c"
  shows "\<exists>c'. plain_arg arg c = Inr c' \<and> room_for rest c' \<and>
    ca_argv (wc_args c') = ca_argv (wc_args c) @
      (if arg \<in> {''-h'', ''--help'', ''--wf-version''} then [] else [arg])"
  using assms by (auto simp: plain_arg_def commandline_args_push_def room_for_def)

lemma parse_args_result:
  "room_for args c \<Longrightarrow>
    (case parse_args c args of
      Inl e \<Rightarrow> e = Invalid_argument ''stoi'' \<or> e = Out_of_range ''stoi''
    | Inr c' \<Rightarrow> ca_argv (wc_args c') = ca_argv (wc_args c) @ forwarded args)"
proof (induction c args rule: parse_args.induct)
  case (2 c arg rest)
  show ?case
  proof (cases "option_store arg")
    case None
    from plain_arg_ok [OF 2(3)] obtain c' where c': "plain_arg arg c = Inr c'" "room_for rest c'"
      "ca_argv (wc_args c') = ca_argv (wc_args c) @
        (if arg \<in> {''-h'', ''--help'', ''--wf-version''} then [] else [arg])" by blast
    from 2(1) [OF None c'(1,2)] show ?thesis
      using None c' option_store_value_options [of arg] by (auto split: sum.splits)
  next
    case (Some store)
    show ?thesis
    proof (cases rest)
      case (Cons v rest')
      show ?thesis
      proof (cases "store v c")
        case (Inl e)
        then show ?thesis using Some Cons store_error [OF Some Inl] by simp
      next
        case (Inr c')
        have "wc_args c' = wc_args c" using store_cases [OF Some Inr] by simp
        then have "room_for rest' c'" using 2(3) Cons by (simp add: room_for_def)
        from 2(2) [OF Some Cons Inr this] show ?thesis
          using Some value_optionsI [OF Some] Cons Inr \<open>wc_args c' = wc_args c\<close> by (auto split: sum.splits)
      qed
    qed (use Some value_optionsI [OF Some] in simp)
  qed
qed simp

text \<open>A configuration that runs with TLS has both key and certificate.\<close>

lemma ws_config_tls_complete:
  assumes "ws_config_new argv = Inr c" and "wc_cmd c = Cmd_run"
  shows "wc_use_tls c \<longrightarrow> wc_key_path c \<noteq> '''' \<and> wc_cert_path c \<noteq> ''''"
  using assms by (auto simp: ws_config_new_def verify_def split: sum.splits if_splits)

text \<open>
  The arguments that are not options of webfuse reach FUSE complete and in order, behind the program's
  name; the array that collects them never overflows, and the only exceptions are those of \<^verbatim>\<open>stoi\<close> for
  a port or timeout that is no number.
\<close>

lemma ws_config_forwards_arguments:
  assumes "argv \<noteq> []"
  shows "case ws_config_new argv of
      Inl e \<Rightarrow> e = Invalid_argument ''stoi'' \<or> e = Out_of_range ''stoi''
    | Inr c \<Rightarrow> ca_argv (wc_args c) = hd argv # forwarded (tl argv)"
proof -
  have "room_for (tl argv) (initial_config argv)"
    using assms by (cases argv) (simp_all add: room_for_def initial_config_def)
  from parse_args_result [OF this] show ?thesis
    unfolding ws_config_new_parse [OF assms]
    by (auto simp: initial_config_def verify_def split: sum.splits)
qed

subsection \<open>Properties\<close>

text \<open>
  The constructor of \<^verbatim>\<open>ws_config\<close>, with its index into \<^verbatim>\<open>argv\<close>, computes the recursion over the list of
  arguments: options with a value consume the next argument, and a missing value is an error.
\<close>

theorem ws_config_reads_arguments:
  assumes "argv \<noteq> []"
  shows "ws_config_new argv =
    (case parse_args (initial_config argv) (tl argv) of Inl e \<Rightarrow> Inl e | Inr c \<Rightarrow> Inr (verify c))"
  using assms by (rule ws_config_new_parse)

theorem ws_config_reads_arguments_witness:
  "ws_config_new [''webfuse'', ''--wf-vhost''] = Inr ((initial_config [''webfuse'', ''--wf-vhost''])
    \<lparr>wc_cmd := Cmd_show_help, wc_exit_code := 1\<rparr>)"
  using ws_config_reads_arguments [of "[''webfuse'', ''--wf-vhost'']"]
  by (simp add: option_store_def verify_def config_consts)

end
