(* ===== verification/Websocket_Setup.thy ===== *)
theory Websocket_Setup
  imports Config
begin

text \<open>
  What the constructors and destructors of \<^verbatim>\<open>ws_server::detail\<close> (\<^verbatim>\<open>ws/server.cpp\<close>) and \<^verbatim>\<open>ws_client::detail\<close>
  (\<^verbatim>\<open>ws/client.cpp\<close>) hand to libwebsockets: the tables of protocols, the mount of the HTTP server and the
  creation infos, in the order of the calls.
\<close>

datatype lws_option =
    LWS_SERVER_OPTION_HTTP_HEADERS_SECURITY_BEST_PRACTICES_ENFORCE
  | LWS_SERVER_OPTION_EXPLICIT_VHOSTS
  | LWS_SERVER_OPTION_DO_SSL_GLOBAL_INIT

datatype lws_callback_function = Lws_callback_http_dummy | Ws_server_callback | Webfuse_client_callback

record lws_protocols =
  lp_name :: string
  lp_callback :: lws_callback_function

record lws_http_mount =
  hm_mountpoint :: string
  hm_origin :: string
  hm_def :: string

text \<open>
  The members the code sets; \<open>None\<close> is the null pointer, and for the port \<^verbatim>\<open>CONTEXT_PORT_NO_LISTEN\<close>. The table of
  protocols ends before its terminating null entry.
\<close>

record lws_context_creation_info =
  li_port :: "u16 option"
  li_mounts :: "lws_http_mount option"
  li_protocols :: "lws_protocols list"
  li_vhost_name :: "string option"
  li_options :: "lws_option list"
  li_ssl_cert_filepath :: "string option"
  li_ssl_private_key_filepath :: "string option"
  li_client_ssl_ca_filepath :: "string option"

datatype setup_call =
    Lws_create_context lws_context_creation_info
  | Lws_create_vhost lws_context_creation_info
  | Lws_init_vhost_client_ssl lws_context_creation_info
  | Thread_start
  | Request_shutdown
  | Setup_cancel_service
  | Thread_join
  | Lws_context_destroy

subsection \<open>The server\<close>

definition http_mount :: "ws_config \<Rightarrow> lws_http_mount" where
  "http_mount config = \<lparr>hm_mountpoint = ''/'', hm_origin = c_str (wc_docroot config), hm_def = ''index.html''\<rparr>"

definition server_protocols :: "lws_protocols list" where
  "server_protocols = [\<lparr>lp_name = ''http'', lp_callback = Lws_callback_http_dummy\<rparr>,
    \<lparr>lp_name = ''webfuse2'', lp_callback = Ws_server_callback\<rparr>]"

definition server_info :: "ws_config \<Rightarrow> lws_context_creation_info" where
  "server_info config =
    (let info = \<lparr>li_port = Some (wc_port config),
           li_mounts = Some (http_mount config),
           li_protocols = (if wc_docroot config = '''' then drop 1 server_protocols else server_protocols),
           li_vhost_name = Some (c_str (wc_vhost_name config)),
           li_options = [LWS_SERVER_OPTION_HTTP_HEADERS_SECURITY_BEST_PRACTICES_ENFORCE, LWS_SERVER_OPTION_EXPLICIT_VHOSTS],
           li_ssl_cert_filepath = None, li_ssl_private_key_filepath = None, li_client_ssl_ca_filepath = None\<rparr>
     in if wc_use_tls config
        then info\<lparr>li_options := li_options info @ [LWS_SERVER_OPTION_DO_SSL_GLOBAL_INIT],
                  li_ssl_cert_filepath := Some (c_str (wc_cert_path config)),
                  li_ssl_private_key_filepath := Some (c_str (wc_key_path config))\<rparr>
        else info)"

definition ws_server_create :: "ws_config \<Rightarrow> setup_call list" where
  "ws_server_create config =
    [Lws_create_context (server_info config), Lws_create_vhost (server_info config), Thread_start]"

definition ws_server_destroy :: "setup_call list" where
  "ws_server_destroy = [Request_shutdown, Setup_cancel_service, Thread_join, Lws_context_destroy]"

subsection \<open>The client\<close>

text \<open>The context and the virtual host are made before the option for TLS is set.\<close>

definition client_info :: lws_context_creation_info where
  "client_info = \<lparr>li_port = None, li_mounts = None,
    li_protocols = [\<lparr>lp_name = ''webfuse2-client'', lp_callback = Webfuse_client_callback\<rparr>],
    li_vhost_name = None, li_options = [LWS_SERVER_OPTION_EXPLICIT_VHOSTS],
    li_ssl_cert_filepath = None, li_ssl_private_key_filepath = None, li_client_ssl_ca_filepath = None\<rparr>"

definition client_ssl_info :: "string \<Rightarrow> lws_context_creation_info" where
  "client_ssl_info ca_path =
    (let info = client_info\<lparr>li_options := li_options client_info @ [LWS_SERVER_OPTION_DO_SSL_GLOBAL_INIT]\<rparr>
     in if ca_path \<noteq> '''' then info\<lparr>li_client_ssl_ca_filepath := Some (c_str ca_path)\<rparr> else info)"

definition ws_client_create :: "string \<Rightarrow> setup_call list" where
  "ws_client_create ca_path =
    [Lws_create_context client_info, Lws_create_vhost client_info, Lws_init_vhost_client_ssl (client_ssl_info ca_path)]"

subsection \<open>Properties\<close>

text \<open>
  A service that starts offers the webfuse protocol with its own callback, and HTTP exactly with a document
  root; it uses TLS exactly when a key or a certificate was given, and then it has both.
\<close>

theorem server_offers:
  assumes "ws_config_new argv = Inr config" and "wc_cmd config = Cmd_run"
  shows "let info = server_info config in
    \<lparr>lp_name = ''webfuse2'', lp_callback = Ws_server_callback\<rparr> \<in> set (li_protocols info) \<and>
    (''http'' \<in> lp_name ` set (li_protocols info) \<longleftrightarrow> wc_docroot config \<noteq> '''') \<and>
    (LWS_SERVER_OPTION_DO_SSL_GLOBAL_INIT \<in> set (li_options info) \<longleftrightarrow> wc_use_tls config) \<and>
    (wc_use_tls config \<longrightarrow> wc_cert_path config \<noteq> '''' \<and> wc_key_path config \<noteq> '''' \<and>
      li_ssl_cert_filepath info = Some (c_str (wc_cert_path config)) \<and>
      li_ssl_private_key_filepath info = Some (c_str (wc_key_path config)))"
  using ws_config_tls_complete [OF assms(1)] assms(2)
  by (auto simp: server_info_def server_protocols_def Let_def)

theorem server_offers_witness:
  "\<exists>config. ws_config_new [''webfuse'', ''--wf-key'', ''k'', ''--wf-cert'', ''c''] = Inr config \<and>
    wc_cmd config = Cmd_run \<and> wc_use_tls config \<and>
    li_ssl_cert_filepath (server_info config) = Some (c_str (wc_cert_path config)) \<and> wc_cert_path config \<noteq> ''''"
proof -
  let ?argv = "[''webfuse'', ''--wf-key'', ''k'', ''--wf-cert'', ''c'']"
  obtain config where c: "ws_config_new ?argv = Inr config" "wc_cmd config = Cmd_run" "wc_use_tls config"
    using ws_config_new_parse [of ?argv] by (simp add: option_store_def initial_config_def verify_def)
  then show ?thesis using server_offers [OF c(1,2)] by (auto simp: Let_def)
qed

end
