(* ===== verification/App.thy ===== *)
theory App
  imports Fuse Websocket_Setup
begin

text \<open>
  The program \<^verbatim>\<open>webfuse\<close> (\<^verbatim>\<open>webfuse.cpp\<close>, \<^verbatim>\<open>main.cpp\<close>): \<^verbatim>\<open>app::run\<close> reads the command line, starts the server and runs
  FUSE on the file system that talks to it.
\<close>

text \<open>What the application does, in order.\<close>

datatype app_effect =
    App_setup setup_call
  | App_fuse "string list"
  | App_version
  | App_usage

text \<open>
  \<open>fuse_main\<close> is libfuse's main loop; \<open>perform\<close> is \<^verbatim>\<open>ws_server::perform\<close> of the server made from a configuration. The
  destructor of the server runs at the end of the block, after FUSE has returned.
\<close>

definition app_run ::
    "nat \<Rightarrow> 's fuse_main \<Rightarrow> (ws_config \<Rightarrow> 's perform) \<Rightarrow> string list \<Rightarrow> (exn + i32) \<times> app_effect list" where
  "app_run lws_pre fuse_main perform argv =
    (case ws_config_new argv of
      Inl e \<Rightarrow> (Inl e, [])
    | Inr config \<Rightarrow>
        (case wc_cmd config of
          Cmd_run \<Rightarrow>
            (let filesystem = filesystem_object lws_pre (perform config);
                 args = take (get_argc (wc_args config)) (get_argv (wc_args config));
                 config = config\<lparr>wc_exit_code := fuse_run fuse_main filesystem args\<rparr>
             in (Inr (wc_exit_code config),
                 map App_setup (ws_server_create config) @ [App_fuse args] @ map App_setup ws_server_destroy))
        | Cmd_print_version \<Rightarrow> (Inr (wc_exit_code config), [App_version])
        | Cmd_show_help \<Rightarrow> (Inr (wc_exit_code config), [App_usage])))"

text \<open>
  \<^verbatim>\<open>main\<close> returns what \<^verbatim>\<open>app::run\<close> returns; an exception that leaves it ends the program by \<^verbatim>\<open>std::terminate\<close>, here \<open>None\<close>.
\<close>

definition webfuse_main ::
    "nat \<Rightarrow> 's fuse_main \<Rightarrow> (ws_config \<Rightarrow> 's perform) \<Rightarrow> string list \<Rightarrow> i32 option \<times> app_effect list" where
  "webfuse_main lws_pre fuse_main perform argv =
    (case app_run lws_pre fuse_main perform argv of
      (Inl e, effects) \<Rightarrow> (None, effects)
    | (Inr code, effects) \<Rightarrow> (Some code, effects))"

lemma server_info_exit_code [simp]: "server_info (config\<lparr>wc_exit_code := n\<rparr>) = server_info config"
  by (simp add: server_info_def http_mount_def Let_def)

subsection \<open>Properties\<close>

text \<open>
  C26. The program runs FUSE with the arguments that are not its own, in order and behind the program's name, on the
  callbacks of the remote file system; the server exists exactly while FUSE runs, and the exit code is that of
  FUSE. The only exceptions that end the program are those of \<^verbatim>\<open>stoi\<close> for a port or timeout that is no number, and
  then nothing was started.
\<close>

theorem webfuse_main_serves:
  assumes "argv \<noteq> []"
  shows "case webfuse_main lws_pre fuse_main perform argv of
      (None, effects) \<Rightarrow> ws_config_new argv \<in> {Inl (Invalid_argument ''stoi''), Inl (Out_of_range ''stoi'')} \<and> effects = []
    | (Some code, effects) \<Rightarrow> \<exists>config. ws_config_new argv = Inr config \<and>
        (wc_cmd config = Cmd_run \<longrightarrow>
          code = fuse_main (hd argv # forwarded (tl argv))
            (Some (fuse_operations_of (filesystem_object lws_pre (perform config)))) \<and>
          effects = map App_setup (ws_server_create config) @ [App_fuse (hd argv # forwarded (tl argv))] @
            map App_setup ws_server_destroy) \<and>
        (wc_cmd config \<noteq> Cmd_run \<longrightarrow> code = wc_exit_code config \<and> (effects = [App_version] \<or> effects = [App_usage]))"
  using ws_config_forwards_arguments [OF assms]
  by (cases "ws_config_new argv")
    (auto simp: webfuse_main_def app_run_def fuse_run_def ws_server_create_def get_argc_def get_argv_def Let_def split: command.splits)

theorem webfuse_main_serves_witness:
  "\<exists>config. ws_config_new [''webfuse'', ''-f'', ''mnt''] = Inr config \<and>
    webfuse_main 16 (\<lambda>argv table. if argv = [''webfuse'', ''-f'', ''mnt''] \<and> table \<noteq> None then 3 else 4)
      (\<lambda>_ _. throw_m (Runtime_error ''timeout'') :: (unit, messagereader) sm) [''webfuse'', ''-f'', ''mnt''] =
     (Some 3, map App_setup (ws_server_create config) @ [App_fuse [''webfuse'', ''-f'', ''mnt'']] @
        map App_setup ws_server_destroy)"
proof -
  let ?argv = "[''webfuse'', ''-f'', ''mnt'']"
  let ?fuse_main = "\<lambda>argv table. if argv = ?argv \<and> table \<noteq> None then 3 else 4"
  let ?perform = "\<lambda>_ _. throw_m (Runtime_error ''timeout'') :: (unit, messagereader) sm"
  obtain config where config: "ws_config_new ?argv = Inr config" "wc_cmd config = Cmd_run"
    using ws_config_new_parse [of ?argv]
    by (simp add: option_store_def initial_config_def plain_arg_def commandline_args_push_def verify_def)
  have "forwarded (tl ?argv) = [''-f'', ''mnt'']" by (simp add: value_options_def)
  moreover obtain code effects where "webfuse_main 16 ?fuse_main ?perform ?argv = (Some code, effects)"
    using config by (simp add: webfuse_main_def app_run_def Let_def)
  ultimately show ?thesis
    using webfuse_main_serves [where argv = ?argv and lws_pre = 16 and fuse_main = ?fuse_main and perform = ?perform] config
    by auto
qed

end
