(* ===== verification/Ownership.thy ===== *)
theory Ownership
  imports Message_Reader
begin

text \<open>
  The classes \<^verbatim>\<open>provider\<close>, \<^verbatim>\<open>ws_client\<close>, \<^verbatim>\<open>ws_server\<close> and \<^verbatim>\<open>fuse\<close> own their implementation through a raw pointer
  \<^verbatim>\<open>detail * d\<close>, with the same constructor, destructor, move constructor and move assignment. The objects of
  one such class are numbered handles; a handle that exists holds a pointer, \<open>None\<close> for the null pointer. The heap
  maps the address of a \<^verbatim>\<open>detail\<close> to its contents. Addresses are not reused, so that \<open>ow_calls\<close> can record what
  each \<^verbatim>\<open>detail\<close> asked of the libraries: its constructor, its members and its destructor.
\<close>

record ('d, 'c) ownership =
  ow_next :: nat
  ow_heap :: "nat \<rightharpoonup> 'd"
  ow_handles :: "nat \<rightharpoonup> nat option"
  ow_calls :: "(nat \<times> 'c) list"

definition no_objects :: "('d, 'c) ownership" where
  "no_objects = \<lparr>ow_next = 0, ow_heap = Map.empty, ow_handles = Map.empty, ow_calls = []\<rparr>"

definition log_calls :: "nat \<Rightarrow> 'c list \<Rightarrow> ('d, 'c) ownership \<Rightarrow> ('d, 'c) ownership" where
  "log_calls a cs s = s\<lparr>ow_calls := ow_calls s @ map (Pair a) cs\<rparr>"

definition calls_on :: "nat \<Rightarrow> ('d, 'c) ownership \<Rightarrow> 'c list" where
  "calls_on a s = map snd (filter (\<lambda>(b, _). b = a) (ow_calls s))"

text \<open>
  \<^verbatim>\<open>delete\<close> of the null pointer does nothing; of an address that is not allocated it is undefined. Otherwise the
  destructor of the \<^verbatim>\<open>detail\<close> runs, which makes the calls \<open>dtor\<close>.
\<close>

definition delete_detail :: "'c list \<Rightarrow> nat option \<Rightarrow> (('d, 'c) ownership, unit) sm" where
  "delete_detail dtor d = (\<lambda>s. case d of
      None \<Rightarrow> (Inr (), s)
    | Some a \<Rightarrow>
        if a \<in> dom (ow_heap s) then (Inr (), log_calls a dtor (s\<lparr>ow_heap := (ow_heap s)(a := None)\<rparr>))
        else (Inl Undefined_behaviour, s))"

definition pimpl_construct :: "'c list \<Rightarrow> nat \<Rightarrow> 'd \<Rightarrow> (('d, 'c) ownership, unit) sm" where
  "pimpl_construct create this d = (\<lambda>s.
    (Inr (), log_calls (ow_next s) create (s\<lparr>ow_next := ow_next s + 1, ow_heap := (ow_heap s)(ow_next s \<mapsto> d),
               ow_handles := (ow_handles s)(this \<mapsto> Some (ow_next s))\<rparr>)))"

definition pimpl_destroy :: "'c list \<Rightarrow> nat \<Rightarrow> (('d, 'c) ownership, unit) sm" where
  "pimpl_destroy dtor this = (\<lambda>s.
    bind_m (delete_detail dtor (the (ow_handles s this)))
      (\<lambda>_ s. (Inr (), s\<lparr>ow_handles := (ow_handles s)(this := None)\<rparr>)) s)"

definition pimpl_move_construct :: "nat \<Rightarrow> nat \<Rightarrow> (('d, 'c) ownership, unit) sm" where
  "pimpl_move_construct this other = (\<lambda>s.
    (Inr (), s\<lparr>ow_handles := (ow_handles s)(this \<mapsto> the (ow_handles s other), other \<mapsto> None)\<rparr>))"

definition pimpl_move_assign :: "'c list \<Rightarrow> nat \<Rightarrow> nat \<Rightarrow> (('d, 'c) ownership, unit) sm" where
  "pimpl_move_assign dtor this other = (\<lambda>s.
    if this \<noteq> other
    then bind_m (delete_detail dtor (the (ow_handles s this)))
      (\<lambda>_ s. (Inr (), s\<lparr>ow_handles := (ow_handles s)(this \<mapsto> the (ow_handles s other), other \<mapsto> None)\<rparr>)) s
    else (Inr (), s))"

text \<open>
  A member function that forwards to \<^verbatim>\<open>d\<close>: undefined on the null pointer. The member \<open>f\<close> of the \<^verbatim>\<open>detail\<close> throws, or it
  makes calls and leaves the \<^verbatim>\<open>detail\<close> changed.
\<close>

definition pimpl_call :: "nat \<Rightarrow> ('d \<Rightarrow> exn + 'c list \<times> 'd) \<Rightarrow> (('d, 'c) ownership, unit) sm" where
  "pimpl_call this f = (\<lambda>s. case the (ow_handles s this) of
      None \<Rightarrow> (Inl Undefined_behaviour, s)
    | Some a \<Rightarrow>
        (case ow_heap s a of
          None \<Rightarrow> (Inl Undefined_behaviour, s)
        | Some d \<Rightarrow>
            (case f d of
              Inl e \<Rightarrow> (Inl e, s)
            | Inr (cs, d') \<Rightarrow> (Inr (), log_calls a cs (s\<lparr>ow_heap := (ow_heap s)(a \<mapsto> d')\<rparr>)))))"

subsection \<open>Programs that use the classes\<close>

text \<open>
  A constructor runs on a handle that does not exist yet, every other operation on handles that do; member functions
  are not called on a handle that was moved from. A class has the calls its constructors make, those its members make,
  and those of its destructor.
\<close>

definition member_ok :: "'c set \<Rightarrow> ('d \<Rightarrow> exn + 'c list \<times> 'd) \<Rightarrow> bool" where
  "member_ok uses f \<longleftrightarrow> (\<forall>d. case f d of Inl e \<Rightarrow> e \<noteq> Undefined_behaviour | Inr (cs, _) \<Rightarrow> set cs \<subseteq> uses)"

inductive pimpl_step ::
    "'c list set \<Rightarrow> 'c set \<Rightarrow> 'c list \<Rightarrow> ('d, 'c) ownership \<Rightarrow> exn + unit \<Rightarrow> ('d, 'c) ownership \<Rightarrow> bool"
  for creates uses dtor where
  construct: "create \<in> creates \<Longrightarrow> this \<notin> dom (ow_handles s) \<Longrightarrow> pimpl_construct create this d s = (r, s') \<Longrightarrow>
    pimpl_step creates uses dtor s r s'"
| destroy: "this \<in> dom (ow_handles s) \<Longrightarrow> pimpl_destroy dtor this s = (r, s') \<Longrightarrow> pimpl_step creates uses dtor s r s'"
| move_construct: "this \<notin> dom (ow_handles s) \<Longrightarrow> other \<in> dom (ow_handles s) \<Longrightarrow>
    pimpl_move_construct this other s = (r, s') \<Longrightarrow> pimpl_step creates uses dtor s r s'"
| move_assign: "this \<in> dom (ow_handles s) \<Longrightarrow> other \<in> dom (ow_handles s) \<Longrightarrow>
    pimpl_move_assign dtor this other s = (r, s') \<Longrightarrow> pimpl_step creates uses dtor s r s'"
| call: "ow_handles s this = Some (Some a) \<Longrightarrow> member_ok uses f \<Longrightarrow> pimpl_call this f s = (r, s') \<Longrightarrow>
    pimpl_step creates uses dtor s r s'"

inductive pimpl_reachable :: "'c list set \<Rightarrow> 'c set \<Rightarrow> 'c list \<Rightarrow> ('d, 'c) ownership \<Rightarrow> bool"
  for creates uses dtor where
  start: "pimpl_reachable creates uses dtor no_objects"
| step: "pimpl_reachable creates uses dtor s \<Longrightarrow> pimpl_step creates uses dtor s r s' \<Longrightarrow>
    pimpl_reachable creates uses dtor s'"

text \<open>Every allocated object is owned by exactly one handle, and every handle owns an allocated object or none.\<close>

definition owned :: "('d, 'c) ownership \<Rightarrow> bool" where
  "owned s \<longleftrightarrow>
    (\<forall>a. a \<in> dom (ow_heap s) \<longleftrightarrow> (\<exists>h. ow_handles s h = Some (Some a))) \<and>
    (\<forall>a h k. ow_handles s h = Some (Some a) \<longrightarrow> ow_handles s k = Some (Some a) \<longrightarrow> h = k) \<and>
    (\<forall>a \<in> dom (ow_heap s). a < ow_next s)"

lemma ownedD:
  assumes "owned s"
  shows "ow_handles s h = Some (Some a) \<Longrightarrow> a \<in> dom (ow_heap s)"
    and "a \<in> dom (ow_heap s) \<Longrightarrow> \<exists>h. ow_handles s h = Some (Some a)"
    and "ow_handles s h = Some (Some a) \<Longrightarrow> ow_handles s k = Some (Some a) \<Longrightarrow> h = k"
    and "a \<in> dom (ow_heap s) \<Longrightarrow> a < ow_next s"
  using assms unfolding owned_def by blast+

lemma ownedI:
  assumes "\<And>h a. ow_handles s h = Some (Some a) \<Longrightarrow> a \<in> dom (ow_heap s)"
    and "\<And>a. a \<in> dom (ow_heap s) \<Longrightarrow> \<exists>h. ow_handles s h = Some (Some a)"
    and "\<And>a h k. ow_handles s h = Some (Some a) \<Longrightarrow> ow_handles s k = Some (Some a) \<Longrightarrow> h = k"
    and "\<And>a. a \<in> dom (ow_heap s) \<Longrightarrow> a < ow_next s"
  shows "owned s"
  using assms unfolding owned_def by blast

lemma owned_construct:
  assumes "owned s" and "ow_handles s this = None"
  shows "owned (s\<lparr>ow_next := ow_next s + 1, ow_heap := (ow_heap s)(ow_next s \<mapsto> d),
    ow_handles := (ow_handles s)(this \<mapsto> Some (ow_next s))\<rparr>)"
    (is "owned ?s")
proof (rule ownedI)
  have new: "ow_handles s h \<noteq> Some (Some (ow_next s))" for h
    using ownedD(1,4) [OF assms(1)] by blast
  show "a \<in> dom (ow_heap ?s)" if "ow_handles ?s h = Some (Some a)" for h a
    using that ownedD(1) [OF assms(1)] by (cases "h = this") auto
  show "\<exists>h. ow_handles ?s h = Some (Some a)" if dom: "a \<in> dom (ow_heap ?s)" for a
  proof (cases "a = ow_next s")
    case True
    then show ?thesis by (intro exI [of _ this]) simp
  next
    case False
    then obtain h where "ow_handles s h = Some (Some a)"
      using dom ownedD(2) [OF assms(1), of a] by auto
    with assms(2) show ?thesis by (intro exI [of _ h]) auto
  qed
  show "h = k" if "ow_handles ?s h = Some (Some a)" "ow_handles ?s k = Some (Some a)" for a h k
    using that new ownedD(3) [OF assms(1), of h a k] by (cases "h = this"; cases "k = this") auto
  show "a < ow_next ?s" if "a \<in> dom (ow_heap ?s)" for a
    using that ownedD(4) [OF assms(1), of a] by (cases "a = ow_next s") (auto simp: less_Suc_eq)
qed

text \<open>Releasing what a handle owns; \<open>x\<close> is its new contents, none or the null pointer.\<close>

lemma owned_release:
  assumes "owned s" and "ow_handles s this = Some d" and "x = None \<or> x = Some None"
  shows "owned (s\<lparr>ow_heap := (case d of None \<Rightarrow> ow_heap s | Some a \<Rightarrow> (ow_heap s)(a := None)),
    ow_handles := (ow_handles s)(this := x)\<rparr>)"
    (is "owned ?s")
proof (rule ownedI)
  have heap: "a \<in> dom (ow_heap ?s) \<longleftrightarrow> a \<in> dom (ow_heap s) \<and> d \<noteq> Some a" for a
    by (cases d) auto
  have handles: "ow_handles ?s h = Some (Some a) \<longleftrightarrow> h \<noteq> this \<and> ow_handles s h = Some (Some a)" for h a
    using assms(3) by auto
  show "a \<in> dom (ow_heap ?s)" if "ow_handles ?s h = Some (Some a)" for h a
    using that ownedD(1,3) [OF assms(1)] assms(2) unfolding heap handles by metis
  show "\<exists>h. ow_handles ?s h = Some (Some a)" if "a \<in> dom (ow_heap ?s)" for a
    using that ownedD(2) [OF assms(1), of a] assms(2) unfolding heap handles by (metis option.inject)
  show "h = k" if "ow_handles ?s h = Some (Some a)" "ow_handles ?s k = Some (Some a)" for a h k
    using that ownedD(3) [OF assms(1)] unfolding handles by metis
  show "a < ow_next ?s" if "a \<in> dom (ow_heap ?s)" for a
    using that ownedD(4) [OF assms(1), of a] unfolding heap by simp
qed

lemma owned_transfer:
  assumes "owned s" and "ow_handles s this = None \<or> ow_handles s this = Some None" and "ow_handles s other = Some d"
    and "this \<noteq> other"
  shows "owned (s\<lparr>ow_handles := (ow_handles s)(this \<mapsto> d, other \<mapsto> None)\<rparr>)"
    (is "owned ?s")
proof (rule ownedI)
  have moved: "ow_handles ?s this = Some d" using assms(4) by simp
  have handles: "h \<noteq> this \<Longrightarrow> ow_handles ?s h = Some (Some a) \<longleftrightarrow> h \<noteq> other \<and> ow_handles s h = Some (Some a)" for h a
    by simp
  show "a \<in> dom (ow_heap ?s)" if "ow_handles ?s h = Some (Some a)" for h a
    using that ownedD(1) [OF assms(1)] assms(3,4) by (cases "h = this"; cases "h = other") auto
  show "\<exists>h. ow_handles ?s h = Some (Some a)" if dom: "a \<in> dom (ow_heap ?s)" for a
  proof -
    obtain h where h: "ow_handles s h = Some (Some a)"
      using dom ownedD(2) [OF assms(1), of a] by auto
    with assms(2) have "h \<noteq> this" by auto
    show ?thesis
      using h handles [OF \<open>h \<noteq> this\<close>] moved assms(3) by (cases "h = other") auto
  qed
  have old: "ow_handles s (if h = this then other else h) = Some (Some a) \<and> h \<noteq> other"
    if "ow_handles ?s h = Some (Some a)" for h a
    using that assms(3,4) by (cases "h = this") (auto split: if_splits)
  show "h = k" if "ow_handles ?s h = Some (Some a)" "ow_handles ?s k = Some (Some a)" for a h k
  proof -
    have "(if h = this then other else h) = (if k = this then other else k)"
      by (rule ownedD(3) [OF assms(1) conjunct1 [OF old [OF that(1)]] conjunct1 [OF old [OF that(2)]]])
    then show ?thesis
      using conjunct2 [OF old [OF that(1)]] conjunct2 [OF old [OF that(2)]] by (simp split: if_splits)
  qed
  show "a < ow_next ?s" if "a \<in> dom (ow_heap ?s)" for a
    using that ownedD(4) [OF assms(1), of a] by simp
qed

lemma owned_cong:
  "ow_next s = ow_next s' \<Longrightarrow> ow_heap s = ow_heap s' \<Longrightarrow> ow_handles s = ow_handles s' \<Longrightarrow> owned s = owned s'"
  by (simp add: owned_def)

text \<open>The state after \<^verbatim>\<open>delete d\<close> of an owned pointer.\<close>

definition released :: "'c list \<Rightarrow> nat option \<Rightarrow> ('d, 'c) ownership \<Rightarrow> ('d, 'c) ownership" where
  "released dtor d s = (case d of None \<Rightarrow> s | Some a \<Rightarrow> log_calls a dtor (s\<lparr>ow_heap := (ow_heap s)(a := None)\<rparr>))"

lemma log_calls_sel [simp]:
  "ow_next (log_calls a cs s) = ow_next s" "ow_heap (log_calls a cs s) = ow_heap s"
  "ow_handles (log_calls a cs s) = ow_handles s" "owned (log_calls a cs s) = owned s"
  by (simp_all add: log_calls_def owned_def)

lemma released_sel [simp]:
  "ow_next (released dtor d s) = ow_next s" "ow_handles (released dtor d s) = ow_handles s"
  "ow_heap (released dtor d s) = (case d of None \<Rightarrow> ow_heap s | Some a \<Rightarrow> (ow_heap s)(a := None))"
  by (simp_all add: released_def split: option.splits)

lemma delete_owned:
  assumes "owned s" and "ow_handles s h = Some d"
  shows "delete_detail dtor d s = (Inr (), released dtor d s)"
  using ownedD(1) [OF assms(1)] assms(2) by (auto simp: delete_detail_def released_def split: option.splits)

lemma pimpl_destroy_owned:
  assumes "owned s" and "ow_handles s this = Some d"
  shows "pimpl_destroy dtor this s = (Inr (), (released dtor d s)\<lparr>ow_handles := (ow_handles s)(this := None)\<rparr>)"
  using assms(2) by (simp add: pimpl_destroy_def bind_m_def delete_owned [OF assms])

lemma pimpl_move_assign_owned:
  assumes "owned s" and "ow_handles s this = Some d" and "ow_handles s other = Some e" and "this \<noteq> other"
  shows "pimpl_move_assign dtor this other s = (Inr (), (released dtor d s)
    \<lparr>ow_handles := (ow_handles s)(this \<mapsto> e, other \<mapsto> None)\<rparr>)"
  using assms(2-4) by (simp add: pimpl_move_assign_def bind_m_def delete_owned [OF assms(1,2)])

lemma owned_destroy:
  assumes "owned s" and "ow_handles s this = Some d"
  shows "owned ((released dtor d s)\<lparr>ow_handles := (ow_handles s)(this := None)\<rparr>)"
  using owned_release [OF assms, of None] by (rule iffD1 [OF owned_cong, rotated -1]) simp_all

lemma owned_move_assign:
  assumes "owned s" and "ow_handles s this = Some d" and "ow_handles s other = Some e" and "this \<noteq> other"
  shows "owned ((released dtor d s)\<lparr>ow_handles := (ow_handles s)(this \<mapsto> e, other \<mapsto> None)\<rparr>)"
proof -
  let ?s = "s\<lparr>ow_heap := (case d of None \<Rightarrow> ow_heap s | Some a \<Rightarrow> (ow_heap s)(a := None)),
    ow_handles := (ow_handles s)(this := Some None)\<rparr>"
  have "owned ?s" using owned_release [OF assms(1,2)] by blast
  then have "owned (?s\<lparr>ow_handles := (ow_handles ?s)(this \<mapsto> e, other \<mapsto> None)\<rparr>)"
    using assms(3,4) by (intro owned_transfer) auto
  then show ?thesis by (rule iffD1 [OF owned_cong, rotated -1]) simp_all
qed

lemma pimpl_call_owned:
  assumes "owned s" and "ow_handles s this = Some (Some a)"
  obtains d where "ow_heap s a = Some d"
    and "pimpl_call this f s = (case f d of Inl e \<Rightarrow> (Inl e, s)
      | Inr (cs, d') \<Rightarrow> (Inr (), log_calls a cs (s\<lparr>ow_heap := (ow_heap s)(a \<mapsto> d')\<rparr>)))"
  using ownedD(1) [OF assms] assms(2) by (auto simp: pimpl_call_def)

lemma owned_update:
  assumes "owned s" and "ow_heap s a = Some d"
  shows "owned (s\<lparr>ow_heap := (ow_heap s)(a \<mapsto> d')\<rparr>)"
proof -
  have "dom ((ow_heap s)(a \<mapsto> d')) = dom (ow_heap s)" using assms(2) by auto
  with assms(1) show ?thesis by (simp add: owned_def)
qed

subsection \<open>What an object asks of the libraries\<close>

lemma calls_on_log [simp]: "calls_on a (log_calls b cs s) = calls_on a s @ (if a = b then cs else [])"
  by (induction cs) (auto simp: calls_on_def log_calls_def)

lemma calls_on_update [simp]:
  "calls_on a (s\<lparr>ow_heap := h\<rparr>) = calls_on a s" "calls_on a (s\<lparr>ow_handles := hs\<rparr>) = calls_on a s"
  "calls_on a (s\<lparr>ow_next := k\<rparr>) = calls_on a s"
  by (simp_all add: calls_on_def)

text \<open>First the calls of a constructor, then those of members, and at the end those of the destructor, if it is gone.\<close>

definition lifetime :: "'c list set \<Rightarrow> 'c set \<Rightarrow> 'c list \<Rightarrow> bool \<Rightarrow> 'c list \<Rightarrow> bool" where
  "lifetime creates uses dtor gone cs \<longleftrightarrow>
    (\<exists>create \<in> creates. \<exists>us \<in> lists uses. cs = create @ us @ (if gone then dtor else []))"

definition traced :: "'c list set \<Rightarrow> 'c set \<Rightarrow> 'c list \<Rightarrow> ('d, 'c) ownership \<Rightarrow> bool" where
  "traced creates uses dtor s \<longleftrightarrow>
    (\<forall>a < ow_next s. lifetime creates uses dtor (a \<notin> dom (ow_heap s)) (calls_on a s)) \<and>
    (\<forall>a \<ge> ow_next s. calls_on a s = [])"

lemma tracedD:
  "traced creates uses dtor s \<Longrightarrow> a < ow_next s \<Longrightarrow> lifetime creates uses dtor (a \<notin> dom (ow_heap s)) (calls_on a s)"
  "traced creates uses dtor s \<Longrightarrow> ow_next s \<le> a \<Longrightarrow> calls_on a s = []"
  by (simp_all add: traced_def)

lemma traced_handles [simp]: "traced creates uses dtor (s\<lparr>ow_handles := hs\<rparr>) = traced creates uses dtor s"
  by (simp add: traced_def)

lemma traced_construct:
  assumes "traced creates uses dtor s" and "create \<in> creates"
  shows "traced creates uses dtor (log_calls (ow_next s) create
    (s\<lparr>ow_next := ow_next s + 1, ow_heap := (ow_heap s)(ow_next s \<mapsto> d), ow_handles := hs\<rparr>))"
proof -
  have "lifetime creates uses dtor False create" using assms(2) by (auto simp: lifetime_def)
  then show ?thesis using assms(1) by (simp add: traced_def less_Suc_eq)
qed

lemma traced_released:
  assumes "traced creates uses dtor s" and "owned s" and "ow_handles s this = Some d"
  shows "traced creates uses dtor (released dtor d s)"
proof (cases d)
  case (Some a)
  have dom: "a \<in> dom (ow_heap s)" using ownedD(1) [OF assms(2)] assms(3) Some by simp
  have a: "a < ow_next s" by (rule ownedD(4) [OF assms(2) dom])
  have "lifetime creates uses dtor True (calls_on a s @ dtor)"
    using tracedD(1) [OF assms(1) a] dom by (auto simp: lifetime_def)
  then show ?thesis using assms(1) a Some by (auto simp: traced_def released_def)
qed (use assms(1) in \<open>simp add: released_def\<close>)

lemma traced_call:
  assumes "traced creates uses dtor s" and "owned s" and "ow_heap s a = Some d" and "set cs \<subseteq> uses"
  shows "traced creates uses dtor (log_calls a cs (s\<lparr>ow_heap := (ow_heap s)(a \<mapsto> d')\<rparr>))"
proof -
  have a: "a < ow_next s" using ownedD(4) [OF assms(2)] assms(3) by blast
  have "lifetime creates uses dtor False (calls_on a s)" using tracedD(1) [OF assms(1) a] assms(3) by (simp add: domIff)
  then have "lifetime creates uses dtor False (calls_on a s @ cs)"
    using assms(4) by (force simp: lifetime_def)
  moreover have "dom ((ow_heap s)(a \<mapsto> d')) = dom (ow_heap s)" using assms(3) by auto
  ultimately show ?thesis using assms(1,3) a by (auto simp: traced_def domIff)
qed

subsection \<open>Every operation keeps both\<close>

lemma pimpl_step_safe:
  assumes "pimpl_step creates uses dtor s r s'" and "owned s" and "traced creates uses dtor s"
  shows "r \<noteq> Inl Undefined_behaviour \<and> owned s' \<and> traced creates uses dtor s'"
  using assms
proof (induction rule: pimpl_step.induct)
  case (construct create this s d r s')
  then show ?case
    using owned_construct [of s this d] traced_construct [of creates uses dtor s create]
    by (auto simp: pimpl_construct_def domIff)
next
  case (destroy this s r s')
  then obtain d where "ow_handles s this = Some d" by blast
  with destroy show ?case
    using pimpl_destroy_owned [of s this d dtor] owned_destroy [of s this d dtor] traced_released [of creates uses dtor s this d]
    by auto
next
  case (move_construct this s other r s')
  then obtain e where "ow_handles s other = Some e" "this \<noteq> other" by auto
  with move_construct show ?case
    using owned_transfer [of s this other e] by (auto simp: pimpl_move_construct_def domIff)
next
  case (move_assign this s other r s')
  then obtain d e where d: "ow_handles s this = Some d" "ow_handles s other = Some e" by blast
  show ?case
  proof (cases "this = other")
    case True
    with move_assign show ?thesis by (auto simp: pimpl_move_assign_def)
  next
    case False
    with move_assign d show ?thesis
      using pimpl_move_assign_owned [OF _ d False] owned_move_assign [OF _ d False]
        traced_released [of creates uses dtor s this d] by auto
  qed
next
  case (call s this a f r s')
  from pimpl_call_owned [OF call(4,1)] obtain d where d: "ow_heap s a = Some d"
      "pimpl_call this f s = (case f d of Inl e \<Rightarrow> (Inl e, s)
        | Inr (cs, d') \<Rightarrow> (Inr (), log_calls a cs (s\<lparr>ow_heap := (ow_heap s)(a \<mapsto> d')\<rparr>)))"
    by blast
  have f: "case f d of Inl e \<Rightarrow> e \<noteq> Undefined_behaviour | Inr (cs, _) \<Rightarrow> set cs \<subseteq> uses"
    using call(2) by (simp add: member_ok_def)
  show ?case
    using call(3-5) d f owned_update [OF call(4) d(1)] traced_call [OF call(5,4) d(1)] by (auto split: sum.splits)
qed

lemma pimpl_reachable_safe:
  "pimpl_reachable creates uses dtor s \<Longrightarrow> owned s \<and> traced creates uses dtor s"
proof (induction rule: pimpl_reachable.induct)
  case start
  show ?case by (simp add: owned_def traced_def no_objects_def calls_on_def)
qed (use pimpl_step_safe in blast)

text \<open>A member function of an object that was moved from is undefined.\<close>

lemma moved_from_undefined:
  "fst (pimpl_call other f (snd (pimpl_move_construct this other s))) = Inl Undefined_behaviour"
  by (simp add: pimpl_call_def pimpl_move_construct_def)

subsection \<open>Objects that own a resource\<close>

text \<open>A class whose destructor makes the call \<open>release\<close> once, which neither constructors nor members make.\<close>

locale resource_class =
  fixes creates :: "'c list set" and uses :: "'c set" and dtor :: "'c list" and release :: 'c
  assumes create_keeps: "create \<in> creates \<Longrightarrow> release \<notin> set create"
    and use_keeps: "release \<notin> uses"
    and dtor_releases: "count_list dtor release = 1"
begin

lemma lifetime_releases:
  assumes "lifetime creates uses dtor gone cs"
  shows "count_list cs release = (if gone then 1 else 0)"
proof -
  obtain create us where c: "create \<in> creates" "us \<in> lists uses" "cs = create @ us @ (if gone then dtor else [])"
    using assms by (auto simp: lifetime_def)
  then have "count_list create release = 0" "count_list us release = 0"
    using create_keeps use_keeps by (auto simp: count_list_0_iff)
  with c(3) dtor_releases show ?thesis by simp
qed

lemma released_once:
  assumes "pimpl_reachable creates uses dtor s" and "a < ow_next s"
  shows "count_list (calls_on a s) release = (if \<exists>h. ow_handles s h = Some (Some a) then 0 else 1)"
proof -
  have inv: "owned s" "traced creates uses dtor s" using pimpl_reachable_safe [OF assms(1)] by blast+
  then have "lifetime creates uses dtor (a \<notin> dom (ow_heap s)) (calls_on a s)"
    using assms(2) by (simp add: traced_def)
  from lifetime_releases [OF this] ownedD(1,2) [OF inv(1)] show ?thesis by (auto split: if_splits)
qed

end

subsection \<open>Messages\<close>

text \<open>Messages that are moved into a queue or out of a future arrive complete, and a self-assignment keeps them.\<close>

lemma messages_moved:
  assumes "st other = Some w" and "st' other = Some r" and "this \<noteq> other"
  shows "messagewriter_move_construct left this other st this = Some w"
    and "messagewriter_move_assign left this other st this = Some w"
    and "messagewriter_move_assign left other other st = st"
    and "messagereader_move_construct left this other st' this = Some r"
    and "messagereader_move_assign left this other st' this = Some r"
    and "messagereader_move_assign left other other st' = st'"
  using assms
  by (simp_all add: messagewriter_move_construct_def messagewriter_move_assign_def messagereader_move_construct_def
      messagereader_move_assign_def Let_def)

subsection \<open>Properties\<close>

text \<open>
  The implementation objects are neither freed twice nor leaked: no constructor, destructor, move construction, move
  assignment - self-assignment included - or member function is ever undefined; every object ever made has asked the
  libraries for what its constructor does, then for what its members do, and for what its destructor does exactly when no
  handle owns it any more; and when the last handle is gone, so is the last object.
\<close>

theorem details_freed_once:
  assumes "pimpl_reachable creates uses dtor s"
  shows "(\<forall>r s'. pimpl_step creates uses dtor s r s' \<longrightarrow> r \<noteq> Inl Undefined_behaviour) \<and>
    (\<forall>a < ow_next s. lifetime creates uses dtor (\<nexists>h. ow_handles s h = Some (Some a)) (calls_on a s)) \<and>
    (ow_handles s = Map.empty \<longrightarrow> ow_heap s = Map.empty) \<and>
    (\<forall>h k a. ow_handles s h = Some (Some a) \<and> ow_handles s k = Some (Some a) \<longrightarrow> h = k)"
proof -
  have inv: "owned s" "traced creates uses dtor s" using pimpl_reachable_safe [OF assms] by blast+
  have "r \<noteq> Inl Undefined_behaviour" if "pimpl_step creates uses dtor s r s'" for r s'
    using pimpl_step_safe [OF that inv] by blast
  moreover have "(\<nexists>h. ow_handles s h = Some (Some a)) \<longleftrightarrow> a \<notin> dom (ow_heap s)" for a
    using ownedD(1,2) [OF inv(1)] by blast
  then have "lifetime creates uses dtor (\<nexists>h. ow_handles s h = Some (Some a)) (calls_on a s)" if "a < ow_next s" for a
    using inv(2) that by (simp add: traced_def)
  moreover have "ow_heap s = Map.empty" if "ow_handles s = Map.empty"
    using ownedD(2) [OF inv(1)] that by (metis dom_eq_empty_conv ex_in_conv option.distinct(1))
  moreover have "h = k" if "ow_handles s h = Some (Some a) \<and> ow_handles s k = Some (Some a)" for h k a
    using ownedD(3) [OF inv(1)] that by blast
  ultimately show ?thesis by blast
qed

text \<open>An object with a constructor, a member and a destructor that make one call each is moved and used.\<close>

theorem details_freed_once_witness:
  "\<exists>s :: (bool, nat) ownership. pimpl_reachable {[0]} {1} [2] s \<and> ow_handles s 1 = Some (Some 0) \<and>
    ow_handles s 0 = Some None \<and> calls_on 0 s = [0, 1] \<and> lifetime {[0]} {1} [2] False (calls_on 0 s)"
proof -
  let ?s1 = "snd (pimpl_construct [0] 0 True (no_objects :: (bool, nat) ownership))"
  let ?s2 = "snd (pimpl_move_construct 1 0 ?s1)"
  let ?s3 = "snd (pimpl_call 1 (\<lambda>d. Inr ([1], \<not> d)) ?s2)"
  have "pimpl_reachable {[0]} {1} [2] ?s1"
    by (rule pimpl_reachable.step [OF pimpl_reachable.start pimpl_step.construct [OF _ _ surjective_pairing]])
      (simp_all add: no_objects_def)
  then have "pimpl_reachable {[0]} {1} [2] ?s2"
    by (rule pimpl_reachable.step [OF _ pimpl_step.move_construct [OF _ _ surjective_pairing]])
      (simp_all add: no_objects_def pimpl_construct_def)
  then have r: "pimpl_reachable {[0]} {1} [2] ?s3"
    by (rule pimpl_reachable.step [OF _ pimpl_step.call [OF _ _ surjective_pairing]])
      (simp_all add: no_objects_def pimpl_construct_def pimpl_move_construct_def member_ok_def)
  have s3: "ow_handles ?s3 1 = Some (Some 0)" "ow_handles ?s3 0 = Some None" "calls_on 0 ?s3 = [0, 1]" "0 < ow_next ?s3"
    by (simp_all add: no_objects_def pimpl_construct_def pimpl_move_construct_def pimpl_call_def calls_on_def log_calls_def)
  have "lifetime {[0]} {1} [2] (\<nexists>h. ow_handles ?s3 h = Some (Some 0)) (calls_on 0 ?s3)"
    using details_freed_once [OF r, THEN conjunct2, THEN conjunct1, rule_format, OF s3(4)] .
  moreover have "\<exists>h. ow_handles ?s3 h = Some (Some 0)" using s3(1) by (rule exI)
  ultimately have "lifetime {[0]} {1} [2] False (calls_on 0 ?s3)" by (simp only: not_True_eq_False)
  with r s3 show ?thesis by blast
qed

end
