(* ===== verification/Local_Filesystem.thy ===== *)
theory Local_Filesystem
  imports Fuse
begin

text \<open>
  Class \<^verbatim>\<open>filesystem\<close> of the provider program (\<^verbatim>\<open>provider_main.cpp\<close>), which serves a local directory by system
  calls.

  The operating system is the argument \<open>posix\<close>: one function per system call, over a state \<open>'o\<close> of
  the system, from which \<open>px_errno\<close> reads \<^verbatim>\<open>errno\<close>. A directory stream is the list of names it will
  deliver.
\<close>

subsection \<open>System calls\<close>

record 'o posix =
  px_errno :: "'o \<Rightarrow> i32"
  px_realpath :: "string \<Rightarrow> 'o \<Rightarrow> string option \<times> 'o"
  px_stat :: "string \<Rightarrow> stat \<Rightarrow> 'o \<Rightarrow> (i32 \<times> stat) \<times> 'o"
  px_access :: "string \<Rightarrow> i32 \<Rightarrow> 'o \<Rightarrow> i32 \<times> 'o"
  px_lstat :: "string \<Rightarrow> stat \<Rightarrow> 'o \<Rightarrow> (i32 \<times> stat) \<times> 'o"
  px_readlink :: "string \<Rightarrow> nat \<Rightarrow> 'o \<Rightarrow> (i32 \<times> string) \<times> 'o"
  px_symlink :: "string \<Rightarrow> string \<Rightarrow> 'o \<Rightarrow> i32 \<times> 'o"
  px_link :: "string \<Rightarrow> string \<Rightarrow> 'o \<Rightarrow> i32 \<times> 'o"
  px_renameat2 :: "string \<Rightarrow> string \<Rightarrow> i32 \<Rightarrow> 'o \<Rightarrow> i32 \<times> 'o"
  px_chmod :: "string \<Rightarrow> u32 \<Rightarrow> 'o \<Rightarrow> i32 \<times> 'o"
  px_chown :: "string \<Rightarrow> u32 \<Rightarrow> u32 \<Rightarrow> 'o \<Rightarrow> i32 \<times> 'o"
  px_truncate :: "string \<Rightarrow> u64 \<Rightarrow> 'o \<Rightarrow> i32 \<times> 'o"
  px_ftruncate :: "i32 \<Rightarrow> u64 \<Rightarrow> 'o \<Rightarrow> i32 \<times> 'o"
  px_fsync :: "i32 \<Rightarrow> 'o \<Rightarrow> i32 \<times> 'o"
  px_fdatasync :: "i32 \<Rightarrow> 'o \<Rightarrow> i32 \<times> 'o"
  px_utimensat :: "string \<Rightarrow> timespec \<times> timespec \<Rightarrow> 'o \<Rightarrow> i32 \<times> 'o"
  px_futimens :: "i32 \<Rightarrow> timespec \<times> timespec \<Rightarrow> 'o \<Rightarrow> i32 \<times> 'o"
  px_open :: "string \<Rightarrow> i32 \<Rightarrow> 'o \<Rightarrow> i32 \<times> 'o"
  px_mknod :: "string \<Rightarrow> u32 \<Rightarrow> u64 \<Rightarrow> 'o \<Rightarrow> i32 \<times> 'o"
  px_creat :: "string \<Rightarrow> u32 \<Rightarrow> 'o \<Rightarrow> i32 \<times> 'o"
  px_close :: "i32 \<Rightarrow> 'o \<Rightarrow> i32 \<times> 'o"
  px_unlink :: "string \<Rightarrow> 'o \<Rightarrow> i32 \<times> 'o"
  px_pread :: "i32 \<Rightarrow> string \<Rightarrow> nat \<Rightarrow> u64 \<Rightarrow> 'o \<Rightarrow> (u64 \<times> string) \<times> 'o"
  px_pwrite :: "i32 \<Rightarrow> string \<Rightarrow> nat \<Rightarrow> u64 \<Rightarrow> 'o \<Rightarrow> u64 \<times> 'o"
  px_mkdir :: "string \<Rightarrow> u32 \<Rightarrow> 'o \<Rightarrow> i32 \<times> 'o"
  px_opendir :: "string \<Rightarrow> 'o \<Rightarrow> string list option \<times> 'o"
  px_closedir :: "'o \<Rightarrow> 'o"
  px_rmdir :: "string \<Rightarrow> 'o \<Rightarrow> i32 \<times> 'o"
  px_statvfs :: "string \<Rightarrow> statvfs \<Rightarrow> 'o \<Rightarrow> (i32 \<times> statvfs) \<times> 'o"
  px_getpass :: "'o \<Rightarrow> string option \<times> 'o"

definition PATH_MAX :: nat where "PATH_MAX = 4096"

text \<open>A call of the system from an operation.\<close>

definition sys :: "('o \<Rightarrow> 'a \<times> 'o) \<Rightarrow> ('o, 'a) sm" where
  "sys f = (\<lambda>w. case f w of (a, w') \<Rightarrow> (Inr a, w'))"

definition get_errno :: "'o posix \<Rightarrow> ('o, i32) sm" where
  "get_errno px = (\<lambda>w. (Inr (px_errno px w), w))"

text \<open>\<^verbatim>\<open>return (result == 0) ? 0 : -errno;\<close>\<close>

definition status_of :: "'o posix \<Rightarrow> i32 \<Rightarrow> ('o, i32) sm" where
  "status_of px result = (if result = 0 then return_m 0 else bind_m (get_errno px) (\<lambda>e. return_m (- e)))"

text \<open>\<^verbatim>\<open>return (result >= 0) ? result : -errno;\<close>\<close>

definition count_of :: "'o posix \<Rightarrow> i32 \<Rightarrow> ('o, i32) sm" where
  "count_of px result =
    (if 0 \<le> sint result then return_m result else bind_m (get_errno px) (\<lambda>e. return_m (- e)))"

subsection \<open>The operations\<close>

definition get_full_path :: "string \<Rightarrow> string \<Rightarrow> string" where
  "get_full_path base path = base @ path"

text \<open>The constructor: \<open>un\<close> is the uninitialised \<^verbatim>\<open>struct stat\<close>; the result of \<^verbatim>\<open>stat\<close> is not tested.\<close>

definition localfs_new :: "'o posix \<Rightarrow> stat \<Rightarrow> string \<Rightarrow> ('o, string) sm" where
  "localfs_new px un base_path =
    bind_m (sys (px_realpath px (c_str base_path))) (\<lambda>resolved. case resolved of
      None \<Rightarrow> throw_m (Runtime_error ''failed to resolve path'')
    | Some resolved_path \<Rightarrow>
        bind_m (sys (px_stat px resolved_path un)) (\<lambda>(rc, info).
        if st_mode info AND S_IFMT \<noteq> S_IFDIR then throw_m (Runtime_error ''path is not a directory'')
        else return_m resolved_path))"

definition localfs_access :: "'o posix \<Rightarrow> string \<Rightarrow> string \<Rightarrow> i32 \<Rightarrow> ('o, i32) sm" where
  "localfs_access px base path mode =
    bind_m (sys (px_access px (c_str (get_full_path base path)) mode)) (status_of px)"

definition localfs_getattr :: "'o posix \<Rightarrow> string \<Rightarrow> string \<Rightarrow> stat \<Rightarrow> ('o, i32 \<times> stat) sm" where
  "localfs_getattr px base path attr =
    bind_m (sys (px_lstat px (c_str (get_full_path base path)) attr)) (\<lambda>(result, attr).
    bind_m (status_of px result) (\<lambda>status. return_m (status, attr)))"

text \<open>
  \<open>data\<close> are the characters the call put into the buffer; \<^verbatim>\<open>out = buffer\<close> takes them up to the first
  null character, at the latest the one stored behind them.
\<close>

definition localfs_readlink :: "'o posix \<Rightarrow> string \<Rightarrow> string \<Rightarrow> string \<Rightarrow> ('o, i32 \<times> string) sm" where
  "localfs_readlink px base path out =
    bind_m (sys (px_readlink px (c_str (get_full_path base path)) PATH_MAX)) (\<lambda>(result, data).
    let out = (if 0 \<le> sint result \<and> sint result < int PATH_MAX
          then c_str (take (unat result) data) else out)
    in if 0 \<le> sint result then return_m (0, out)
       else bind_m (get_errno px) (\<lambda>e. return_m (- e, out)))"

text \<open>\<^verbatim>\<open>from.at(0)\<close> throws on an empty string.\<close>

definition localfs_symlink :: "'o posix \<Rightarrow> string \<Rightarrow> string \<Rightarrow> string \<Rightarrow> ('o, i32) sm" where
  "localfs_symlink px base from to =
    (case from of
      [] \<Rightarrow> throw_m (Out_of_range ''basic_string::at'')
    | c # _ \<Rightarrow>
        (let full_from = (if CHR ''/'' = c then get_full_path base from else from);
             full_to = get_full_path base to
         in bind_m (sys (px_symlink px (c_str full_from) (c_str full_to))) (status_of px)))"

definition localfs_link :: "'o posix \<Rightarrow> string \<Rightarrow> string \<Rightarrow> string \<Rightarrow> ('o, i32) sm" where
  "localfs_link px base old_path new_path =
    bind_m (sys (px_link px (c_str (get_full_path base old_path)) (c_str (get_full_path base new_path)))) (status_of px)"

definition localfs_rename :: "'o posix \<Rightarrow> string \<Rightarrow> string \<Rightarrow> string \<Rightarrow> i32 \<Rightarrow> ('o, i32) sm" where
  "localfs_rename px base old_path new_path flags =
    bind_m (sys (px_renameat2 px (c_str (get_full_path base old_path)) (c_str (get_full_path base new_path)) flags))
      (status_of px)"

definition localfs_chmod :: "'o posix \<Rightarrow> string \<Rightarrow> string \<Rightarrow> u32 \<Rightarrow> ('o, i32) sm" where
  "localfs_chmod px base path mode =
    bind_m (sys (px_chmod px (c_str (get_full_path base path)) mode)) (status_of px)"

definition localfs_chown :: "'o posix \<Rightarrow> string \<Rightarrow> string \<Rightarrow> u32 \<Rightarrow> u32 \<Rightarrow> ('o, i32) sm" where
  "localfs_chown px base path uid gid =
    bind_m (sys (px_chown px (c_str (get_full_path base path)) uid gid)) (status_of px)"

text \<open>\<^verbatim>\<open>static_cast<int>(handle)\<close> keeps the lower 32 bits.\<close>

definition localfs_truncate :: "'o posix \<Rightarrow> string \<Rightarrow> string \<Rightarrow> u64 \<Rightarrow> u64 \<Rightarrow> ('o, i32) sm" where
  "localfs_truncate px base path len handle =
    bind_m (if handle = invalid_handle then sys (px_truncate px (c_str (get_full_path base path)) len)
            else sys (px_ftruncate px (ucast handle) len)) (status_of px)"

definition localfs_fsync :: "'o posix \<Rightarrow> string \<Rightarrow> string \<Rightarrow> bool \<Rightarrow> u64 \<Rightarrow> ('o, i32) sm" where
  "localfs_fsync px base path is_datasync handle =
    bind_m (if handle \<noteq> invalid_handle
            then (if \<not> is_datasync then sys (px_fsync px (ucast handle)) else sys (px_fdatasync px (ucast handle)))
            else return_m 0) (status_of px)"

definition localfs_utimens ::
    "'o posix \<Rightarrow> string \<Rightarrow> string \<Rightarrow> timespec \<times> timespec \<Rightarrow> u64 \<Rightarrow> ('o, i32) sm" where
  "localfs_utimens px base path tv handle =
    bind_m (if handle = invalid_handle then sys (px_utimensat px (c_str (get_full_path base path)) tv)
            else sys (px_futimens px (ucast handle) tv)) (status_of px)"

definition localfs_open :: "'o posix \<Rightarrow> string \<Rightarrow> string \<Rightarrow> i32 \<Rightarrow> u64 \<Rightarrow> ('o, i32 \<times> u64) sm" where
  "localfs_open px base path flags handle =
    bind_m (sys (px_open px (c_str (get_full_path base path)) flags)) (\<lambda>fd.
    if 0 \<le> sint fd then return_m (0, scast fd)
    else bind_m (get_errno px) (\<lambda>e. return_m (- e, handle)))"

definition localfs_mknod :: "'o posix \<Rightarrow> string \<Rightarrow> string \<Rightarrow> u32 \<Rightarrow> u64 \<Rightarrow> ('o, i32) sm" where
  "localfs_mknod px base path mode rdev =
    bind_m (sys (px_mknod px (c_str (get_full_path base path)) mode rdev)) (status_of px)"

definition localfs_create :: "'o posix \<Rightarrow> string \<Rightarrow> string \<Rightarrow> u32 \<Rightarrow> u64 \<Rightarrow> ('o, i32 \<times> u64) sm" where
  "localfs_create px base path mode handle =
    bind_m (sys (px_creat px (c_str (get_full_path base path)) mode)) (\<lambda>fd.
    if 0 \<le> sint fd then return_m (0, scast fd)
    else bind_m (get_errno px) (\<lambda>e. return_m (- e, handle)))"

definition localfs_release :: "'o posix \<Rightarrow> string \<Rightarrow> string \<Rightarrow> u64 \<Rightarrow> ('o, i32) sm" where
  "localfs_release px base path handle =
    bind_m (if handle \<noteq> invalid_handle then sys (px_close px (ucast handle)) else return_m 0)
      (status_of px)"

definition localfs_unlink :: "'o posix \<Rightarrow> string \<Rightarrow> string \<Rightarrow> ('o, i32) sm" where
  "localfs_unlink px base path = bind_m (sys (px_unlink px (c_str (get_full_path base path)))) (status_of px)"

text \<open>\<^verbatim>\<open>int result = ::pread(...)\<close> keeps the lower 32 bits of the 64-bit result.\<close>

definition localfs_read ::
    "'o posix \<Rightarrow> string \<Rightarrow> string \<Rightarrow> string \<Rightarrow> nat \<Rightarrow> u64 \<Rightarrow> u64 \<Rightarrow> ('o, i32 \<times> string) sm" where
  "localfs_read px base path buffer buffer_size offset handle =
    bind_m
      (if handle \<noteq> invalid_handle
       then bind_m (sys (px_open px (c_str (get_full_path base path)) O_RDONLY)) (\<lambda>fd.
         if 0 \<le> sint fd
         then bind_m (sys (px_pread px fd buffer buffer_size offset)) (\<lambda>(n, buffer).
           bind_m (sys (px_close px fd)) (\<lambda>_. return_m (ucast n, buffer)))
         else return_m (- 1, buffer))
       else bind_m (sys (px_pread px (ucast handle) buffer buffer_size offset)) (\<lambda>(n, buffer).
         return_m (ucast n, buffer)))
      (\<lambda>(result, buffer). bind_m (count_of px result) (\<lambda>status. return_m (status, buffer)))"

definition localfs_write ::
    "'o posix \<Rightarrow> string \<Rightarrow> string \<Rightarrow> string \<Rightarrow> nat \<Rightarrow> u64 \<Rightarrow> u64 \<Rightarrow> ('o, i32) sm" where
  "localfs_write px base path buffer buffer_size offset handle =
    bind_m
      (if handle = invalid_handle
       then bind_m (sys (px_open px (c_str (get_full_path base path)) O_WRONLY)) (\<lambda>fd.
         if 0 \<le> sint fd
         then bind_m (sys (px_pwrite px fd buffer buffer_size offset)) (\<lambda>n.
           bind_m (sys (px_close px fd)) (\<lambda>_. return_m (ucast n)))
         else return_m (- 1))
       else bind_m (sys (px_pwrite px (ucast handle) buffer buffer_size offset)) (\<lambda>n. return_m (ucast n)))
      (count_of px)"

definition localfs_mkdir :: "'o posix \<Rightarrow> string \<Rightarrow> string \<Rightarrow> u32 \<Rightarrow> ('o, i32) sm" where
  "localfs_mkdir px base path mode =
    bind_m (sys (px_mkdir px (c_str (get_full_path base path)) mode)) (status_of px)"

text \<open>The loop over the directory stream.\<close>

fun readdir_loop :: "string list \<Rightarrow> string list \<Rightarrow> string list" where
  "readdir_loop [] entries = entries"
| "readdir_loop (entry # stream) entries = readdir_loop stream (entries @ [entry])"

definition localfs_readdir :: "'o posix \<Rightarrow> string \<Rightarrow> string \<Rightarrow> string list \<Rightarrow> ('o, i32 \<times> string list) sm" where
  "localfs_readdir px base path entries =
    bind_m (sys (px_opendir px (c_str (get_full_path base path)))) (\<lambda>directory. case directory of
      Some stream \<Rightarrow>
        bind_m (sys (\<lambda>w. ((), px_closedir px w))) (\<lambda>_. return_m (0, readdir_loop stream entries))
    | None \<Rightarrow> bind_m (get_errno px) (\<lambda>e. return_m (- e, entries)))"

definition localfs_rmdir :: "'o posix \<Rightarrow> string \<Rightarrow> string \<Rightarrow> ('o, i32) sm" where
  "localfs_rmdir px base path = bind_m (sys (px_rmdir px (c_str (get_full_path base path)))) (status_of px)"

definition localfs_statfs :: "'o posix \<Rightarrow> string \<Rightarrow> string \<Rightarrow> statvfs \<Rightarrow> ('o, i32 \<times> statvfs) sm" where
  "localfs_statfs px base path statistics =
    bind_m (sys (px_statvfs px (c_str (get_full_path base path)) statistics)) (\<lambda>(result, statistics).
    bind_m (status_of px result) (\<lambda>status. return_m (status, statistics)))"

text \<open>Constructing a string from the null pointer that \<^verbatim>\<open>getpass\<close> returns on failure is undefined.\<close>

definition localfs_get_credentials :: "'o posix \<Rightarrow> string \<Rightarrow> ('o, string) sm" where
  "localfs_get_credentials px token =
    (if token \<noteq> '''' then return_m token
     else bind_m (sys (px_getpass px)) (\<lambda>password. case password of
       Some s \<Rightarrow> return_m s | None \<Rightarrow> throw_m Undefined_behaviour))"

definition local_filesystem :: "'o posix \<Rightarrow> string \<Rightarrow> string \<Rightarrow> 'o filesystem_i" where
  "local_filesystem px base token =
    \<lparr>fsi_access = localfs_access px base, fsi_getattr = localfs_getattr px base,
     fsi_readlink = localfs_readlink px base, fsi_symlink = localfs_symlink px base,
     fsi_link = localfs_link px base, fsi_rename = localfs_rename px base,
     fsi_chmod = localfs_chmod px base, fsi_chown = localfs_chown px base,
     fsi_truncate = localfs_truncate px base, fsi_fsync = localfs_fsync px base,
     fsi_utimens = localfs_utimens px base, fsi_open = localfs_open px base,
     fsi_mknod = localfs_mknod px base, fsi_create = localfs_create px base,
     fsi_release = localfs_release px base, fsi_unlink = localfs_unlink px base,
     fsi_read = localfs_read px base, fsi_write = localfs_write px base,
     fsi_mkdir = localfs_mkdir px base, fsi_readdir = localfs_readdir px base,
     fsi_rmdir = localfs_rmdir px base, fsi_statfs = localfs_statfs px base,
     fsi_get_credentials = localfs_get_credentials px token\<rparr>"

subsection \<open>What the mounted directory does\<close>

text \<open>The file system the service mounts when a provider serves a local directory to it.\<close>

definition mounted :: "nat \<Rightarrow> uninit \<Rightarrow> u32 \<Rightarrow> 'o posix \<Rightarrow> string \<Rightarrow> string \<Rightarrow> 'o filesystem_i" where
  "mounted lws_pre un i px base token =
    filesystem_object lws_pre (loopback lws_pre un (local_filesystem px base token) i)"

lemma readdir_loop_eq: "readdir_loop stream entries = entries @ stream"
  by (induction stream entries rule: readdir_loop.induct) simp_all

lemma try_catch_returns: "(\<And>s. \<exists>a s'. m s = (Inr a, s')) \<Longrightarrow> try_catch m h = m"
proof
  fix s assume "\<And>s. \<exists>a s'. m s = (Inr a, s')"
  then obtain a s' where "m s = (Inr a, s')" by blast
  then show "try_catch m h s = m s" by (simp add: try_catch_def)
qed

lemma sys_returns: "\<exists>a w'. sys f w = (Inr a, w')"
  by (simp add: sys_def split: prod.splits)

lemma bind_returns:
  assumes "\<And>s. \<exists>a s'. m s = (Inr a, s')" "\<And>a s. \<exists>b s'. f a s = (Inr b, s')"
  shows "\<exists>b s'. bind_m m f s = (Inr b, s')"
  using assms(1) [of s] assms(2) by (auto simp: bind_m_def)

lemma status_of_returns: "\<exists>a w'. status_of px r w = (Inr a, w')"
  by (simp add: status_of_def get_errno_def bind_m_def return_apply)

lemma sys_status_returns: "\<exists>a w'. bind_m (sys f) (status_of px) w = (Inr a, w')"
  by (rule bind_returns) (rule sys_returns, rule status_of_returns)

lemma try_catch_sys_status [simp]: "try_catch (bind_m (sys f) (status_of px)) h = bind_m (sys f) (status_of px)"
  by (rule try_catch_returns) (rule sys_status_returns)

lemma low32_valid: "low32 h \<noteq> invalid_handle"
proof
  assume "low32 h = invalid_handle"
  then have "bit (low32 h) 63 = bit (- 1 :: u64) 63" by (simp add: invalid_handle_def)
  then show False by (simp add: low32_def bit_take_bit_iff)
qed

lemma ucast_low32: "ucast (low32 h) = (ucast h :: i32)"
  by (rule bit_word_eqI) (auto simp: low32_def bit_take_bit_iff bit_unsigned_iff)

lemma ucast_scast_fd: "(ucast (scast (fd :: i32) :: u64) :: i32) = fd"
  by (rule bit_word_eqI) (auto simp: bit_unsigned_iff bit_signed_iff)

lemma low32_scast_fd: "0 \<le> sint fd \<Longrightarrow> low32 (scast (fd :: i32)) = scast fd"
  using bit_last_iff [of fd]
  by (intro bit_word_eqI) (auto simp: low32_def bit_take_bit_iff bit_signed_iff min_def)

lemmas mounted_simps = mounted_def filesystem_object_def local_filesystem_def fs_get_handle_def
  loop_fs.remote_truncate loop_fs.remote_fsync loop_fs.remote_release loop_fs.remote_utimens
  loop_fs.remote_open loop_fs.remote_read loop_fs.remote_readdir

lemma minus_one_descriptor: "(ucast (- 1 :: u64) :: i32) = - 1"
  by (rule bit_word_eqI) (simp add: bit_unsigned_iff)

lemma fuse_open_mounted:
  assumes "px_open px (c_str (get_full_path base (recv_str path)))
      (openflags_to_int (openflags_from_int (fi_flags info))) w = (fd, w')"
    and "0 \<le> sint fd"
  shows "fuse_fs_open (mounted lws_pre un i px base token) path info w =
    (Inr (0, info\<lparr>fi_fh := scast fd\<rparr>), w')"
  using assms
  by (simp add: fuse_fs_open_def mounted_simps localfs_open_def sys_def bind_m_def try_catch_def return_apply
      low32_scast_fd)

lemma fuse_descriptor_used:
  "fuse_fs_truncate (mounted lws_pre un i px base token) path len (Some (info\<lparr>fi_fh := scast fd\<rparr>)) =
     bind_m (sys (px_ftruncate px fd (low32 len))) (status_of px)"
  "fuse_fs_fsync (mounted lws_pre un i px base token) path datasync (Some (info\<lparr>fi_fh := scast fd\<rparr>)) =
     bind_m (sys (if datasync = 0 then px_fsync px fd else px_fdatasync px fd)) (status_of px)"
  "fuse_fs_release (mounted lws_pre un i px base token) path (Some (info\<lparr>fi_fh := scast fd\<rparr>)) =
     bind_m (sys (px_close px fd)) (status_of px)"
  "fuse_fs_utimes (mounted lws_pre un i px base token) path tv (Some (info\<lparr>fi_fh := scast fd\<rparr>)) =
     bind_m (sys (px_futimens px fd (recv_time (fst tv), recv_time (snd tv)))) (status_of px)"
  by (simp_all add: fuse_fs_truncate_def fuse_fs_fsync_def fuse_fs_release_def fuse_fs_utimes_def mounted_simps
   localfs_truncate_def localfs_fsync_def localfs_release_def localfs_utimens_def low32_valid ucast_low32 ucast_scast_fd)

lemma count_of_returns: "\<exists>a w'. count_of px r w = (Inr a, w')"
  by (simp add: count_of_def get_errno_def bind_m_def return_apply)

lemma bind_sys_return: "bind_m (bind_m (sys f) (\<lambda>n. return_m (g n))) k = bind_m (sys f) (\<lambda>n. k (g n))"
  by (simp add: bind_m_def sys_def return_apply fun_eq_iff split: prod.splits)

lemma try_catch_sys_count [simp]:
  "try_catch (bind_m (sys f) (\<lambda>n. count_of px (g n))) h = bind_m (sys f) (\<lambda>n. count_of px (g n))"
  by (intro try_catch_returns bind_returns sys_returns count_of_returns)

lemma fuse_write_descriptor:
  assumes "n \<le> length buffer"
  shows "fuse_fs_write (mounted lws_pre un i px base token) path buffer n offset (Some (info\<lparr>fi_fh := scast fd\<rparr>)) =
    bind_m (sys (px_pwrite px fd (take (n mod 2 ^ 32) buffer) (n mod 2 ^ 32) (low32 offset))) (\<lambda>n. count_of px (ucast n))"
  by (simp add: fuse_fs_write_def mounted_simps loop_fs.remote_write [OF assms] localfs_write_def low32_valid ucast_low32
      ucast_scast_fd bind_sys_return)

lemma recv_str_short: "length s < 2 ^ 32 \<Longrightarrow> recv_str s = s"
  by (simp add: recv_str_def)

lemma recv_names:
  assumes "length names < 2 ^ 32" "\<forall>s \<in> set names. length s < 2 ^ 32 \<and> CHR 0x00 \<notin> set s"
  shows "map c_str (recv_strings names) = names"
  using assms by (simp add: recv_strings_def map_idI recv_str_short c_str_id)

lemma fuse_readdir_mounted:
  assumes "px_opendir px (c_str (get_full_path base (recv_str path))) w = (Some stream, w')"
  shows "fuse_fs_readdir (mounted lws_pre un i px base token) path filled w =
    (Inr (0, filled @ [''.'', ''..''] @ map c_str (recv_strings stream)), px_closedir px w')"
  using assms
  by (simp add: fuse_fs_readdir_def mounted_simps localfs_readdir_def sys_def bind_m_def try_catch_def return_apply
      readdir_loop_eq)

lemma pread_count:
  assumes "n = - 1 \<or> unat (n :: u64) \<le> m" and "0 < sint (ucast n :: i32)"
  shows "unat (ucast n :: i32) \<le> m"
proof -
  have "n \<noteq> - 1" using assms(2) by (auto simp: minus_one_descriptor)
  moreover have "unat (ucast n :: i32) \<le> unat n" by (simp add: unsigned_ucast_eq)
  ultimately show ?thesis using assms(1) by linarith
qed

lemma negated_errno: "0 \<le> sint e \<Longrightarrow> \<not> 0 < sint (- e)" for e :: i32
proof
  assume *: "0 \<le> sint e" "0 < sint (- e)"
  have "sint (- e) = signed_take_bit 31 (- sint e)" by (simp add: sint_word_ariths)
  also have "\<dots> = - sint e"
    using sint_lt [of e] *(1) by (intro signed_take_bit_int_eq_self) auto
  finally show False using * by simp
qed

lemma count_of_positive:
  assumes "count_of px r w = (Inr result, w')" "0 < sint result" "\<And>w. 0 \<le> sint (px_errno px w)"
  shows "result = r"
  using assms negated_errno [of "px_errno px w"]
  by (auto simp: count_of_def get_errno_def bind_m_def return_apply split: if_splits)

lemma localfs_read_count:
  assumes "localfs_read px base path buffer n offset handle w = (Inr (result, buffer'), w')"
    and "0 < sint result" and errno: "\<And>w. 0 \<le> sint (px_errno px w)"
  shows "\<exists>fd r w1 w2. px_pread px fd buffer n offset w1 = ((r, buffer'), w2) \<and> result = ucast r"
proof -
  obtain r w1 w2 where c: "count_of px r w1 = (Inr result, w2)"
    and m: "(if handle \<noteq> invalid_handle
       then bind_m (sys (px_open px (c_str (get_full_path base path)) O_RDONLY)) (\<lambda>fd.
         if 0 \<le> sint fd
         then bind_m (sys (px_pread px fd buffer n offset)) (\<lambda>(n, buffer).
           bind_m (sys (px_close px fd)) (\<lambda>_. return_m (ucast n, buffer)))
         else return_m (- 1, buffer))
       else bind_m (sys (px_pread px (ucast handle) buffer n offset)) (\<lambda>(n, buffer).
         return_m (ucast n, buffer))) w = (Inr (r, buffer'), w1)"
    using assms(1) unfolding localfs_read_def
    by (auto simp: bind_m_def return_apply split: prod.splits sum.splits)
  have "r = result" using count_of_positive [OF c assms(2) errno] by simp
  with m assms(2) show ?thesis
    by (fastforce simp: bind_m_def sys_def return_apply split: prod.splits if_splits)
qed

lemma local_filesystem_contract:
  assumes pread: "\<And>fd buffer n offset w r buffer' w'.
      px_pread px fd buffer n offset w = ((r, buffer'), w') \<Longrightarrow>
      length buffer' = length buffer \<and> (r = - 1 \<or> unat r \<le> n)"
    and errno: "\<And>w. 0 \<le> sint (px_errno px w)"
  shows "filesystem_contract (local_filesystem px base token)"
proof
  fix path buffer n offset handle w result buffer' w'
  assume "fsi_read (local_filesystem px base token) path buffer n offset handle w = (Inr (result, buffer'), w')"
    and n: "n = length buffer" and pos: "0 < sint result"
  then have "\<exists>fd r w1 w2. px_pread px fd buffer n offset w1 = ((r, buffer'), w2) \<and> result = ucast r"
    using errno by (intro localfs_read_count) (auto simp: local_filesystem_def)
  then show "unat result \<le> length buffer'"
    using pread pread_count pos n by metis
qed

lemma localfs_read_returns: "\<exists>a w'. localfs_read px base path buffer n offset handle w = (Inr a, w')"
  unfolding localfs_read_def count_of_def get_errno_def
  by (auto simp: bind_m_def sys_def return_apply split: prod.splits)

context filesystem_contract
begin

lemma fetched_length:
  assumes "fsi_read fs path data k offset handle p = (Inr (result, data'), p1)" and "k = length data"
    and "n \<le> length buffer"
  shows "\<exists>result' buffer'. try_catch (fetched n buffer (result, data')) (return_m (r0, buffer)) p1 =
      (Inr (result', buffer'), p1) \<and> length buffer' = length buffer"
  using read_bound [OF assms(1,2)] assms(3)
  by (auto simp: fetched_def try_catch_def return_apply throw_apply copy_front_def)

lemma remote_read_safe:
  assumes returns: "\<And>path data k offset handle p. \<exists>a p'. fsi_read fs path data k offset handle p = (Inr a, p')"
    and "n \<le> length buffer"
  shows "\<exists>result buffer' p'. filesystem_read lws_pre (loopback lws_pre un fs i) path buffer n offset handle p =
    (Inr (result, buffer'), p') \<and> length buffer' = length buffer"
proof -
  let ?k = "n mod 2 ^ 32"
  obtain result data p1 where r: "fsi_read fs (recv_str path) (replicate ?k (CHR 0x00)) ?k
      (low32 offset) (low32 handle) p = (Inr (result, data), p1)"
    using returns by (metis surj_pair)
  then obtain result' buffer' where "try_catch (fetched n buffer (result, data))
      (return_m (empty_read path buffer n offset handle)) p1 = (Inr (result', buffer'), p1)"
      "length buffer' = length buffer"
    using fetched_length [OF r _ assms(2), of "- EBADF"] by (auto simp: empty_read_def)
  with r show ?thesis
    by (auto simp: loop_fs.remote_read try_catch_def bind_step)
qed

end

text \<open>An operating system in which every call fails.\<close>

definition null_posix :: "unit posix" where
  "null_posix =
    \<lparr>px_errno = \<lambda>_. EBADF,
     px_realpath = \<lambda>p w. (None, w),
     px_stat = \<lambda>p st w. ((- 1, st), w),
     px_access = \<lambda>p m w. (- 1, w),
     px_lstat = \<lambda>p st w. ((- 1, st), w),
     px_readlink = \<lambda>p n w. ((- 1, []), w),
     px_symlink = \<lambda>p q w. (- 1, w),
     px_link = \<lambda>p q w. (- 1, w),
     px_renameat2 = \<lambda>p q f w. (- 1, w),
     px_chmod = \<lambda>p m w. (- 1, w),
     px_chown = \<lambda>p u g w. (- 1, w),
     px_truncate = \<lambda>p n w. (- 1, w),
     px_ftruncate = \<lambda>fd n w. (- 1, w),
     px_fsync = \<lambda>fd w. (- 1, w),
     px_fdatasync = \<lambda>fd w. (- 1, w),
     px_utimensat = \<lambda>p tv w. (- 1, w),
     px_futimens = \<lambda>fd tv w. (- 1, w),
     px_open = \<lambda>p f w. (- 1, w),
     px_mknod = \<lambda>p m d w. (- 1, w),
     px_creat = \<lambda>p m w. (- 1, w),
     px_close = \<lambda>fd w. (- 1, w),
     px_unlink = \<lambda>p w. (- 1, w),
     px_pread = \<lambda>fd b n off w. ((- 1, b), w),
     px_pwrite = \<lambda>fd b n off w. (- 1, w),
     px_mkdir = \<lambda>p m w. (- 1, w),
     px_opendir = \<lambda>p w. (None, w),
     px_closedir = \<lambda>w. w,
     px_rmdir = \<lambda>p w. (- 1, w),
     px_statvfs = \<lambda>p st w. ((- 1, st), w),
     px_getpass = \<lambda>w. (None, w)\<rparr>"

subsection \<open>Properties\<close>

text \<open>
  C29. A read of a mounted file returns, whatever the provider's system does, with a buffer of the same
  length: nothing is written behind the caller's buffer, and the provider does not read behind its
  own, as long as \<^verbatim>\<open>pread\<close> reports at most as many bytes as it was asked for.
\<close>

theorem mounted_read_safe:
  assumes "\<And>fd buffer n offset w r buffer' w'.
      px_pread px fd buffer n offset w = ((r, buffer'), w') \<Longrightarrow>
      length buffer' = length buffer \<and> (r = - 1 \<or> unat r \<le> n)"
    and "\<And>w. 0 \<le> sint (px_errno px w)"
    and "n \<le> length buffer"
  shows "\<exists>result buffer' w'. fuse_fs_read (mounted lws_pre un i px base token) path buffer n offset info w =
    (Inr (result, buffer'), w') \<and> length buffer' = length buffer"
proof -
  have contract: "filesystem_contract (local_filesystem px base token)"
    using assms(1,2) by (rule local_filesystem_contract)
  have "\<And>path data k offset handle w. \<exists>a w'.
      fsi_read (local_filesystem px base token) path data k offset handle w = (Inr a, w')"
    unfolding local_filesystem_def using localfs_read_returns by simp
  from filesystem_contract.remote_read_safe [OF contract this assms(3)] show ?thesis
    by (simp add: fuse_fs_read_def mounted_def filesystem_object_def)
qed

theorem mounted_read_safe_witness:
  "\<exists>result buffer' w'. fuse_fs_read (mounted 16 uninit_zero 1 null_posix ''/srv'' ''t'') ''/f'' ''abcd'' 3 0 None () =
    (Inr (result, buffer'), w') \<and> length buffer' = length ''abcd''"
  by (rule mounted_read_safe) (simp_all add: null_posix_def errno_defs)

text \<open>
  C30. A descriptor the provider opened comes back unchanged: \<^verbatim>\<open>open\<close> stores it in the handle of the file, and the
  kernel's calls that truncate, synchronise, write, set the times of and release that file are \<^verbatim>\<open>ftruncate\<close>, \<^verbatim>\<open>fsync\<close> or
  \<^verbatim>\<open>fdatasync\<close>, \<^verbatim>\<open>pwrite\<close>, \<^verbatim>\<open>futimens\<close> and \<^verbatim>\<open>close\<close> on it and report their result. (A read does not use the descriptor, and
  \<^verbatim>\<open>getattr\<close> goes by the path.)
\<close>

theorem descriptor_end_to_end:
  assumes "px_open px (c_str (get_full_path base (recv_str path)))
      (openflags_to_int (openflags_from_int (fi_flags info))) w = (fd, w')"
    and "0 \<le> sint fd" and "n \<le> length buffer"
  shows "\<exists>info'. fuse_fs_open (mounted lws_pre un i px base token) path info w = (Inr (0, info'), w') \<and>
    fuse_fs_truncate (mounted lws_pre un i px base token) path len (Some info') =
      bind_m (sys (px_ftruncate px fd (low32 len))) (status_of px) \<and>
    fuse_fs_fsync (mounted lws_pre un i px base token) path datasync (Some info') =
      bind_m (sys (if datasync = 0 then px_fsync px fd else px_fdatasync px fd)) (status_of px) \<and>
    fuse_fs_write (mounted lws_pre un i px base token) path buffer n offset (Some info') =
      bind_m (sys (px_pwrite px fd (take (n mod 2 ^ 32) buffer) (n mod 2 ^ 32) (low32 offset)))
        (\<lambda>n. count_of px (ucast n)) \<and>
    fuse_fs_utimes (mounted lws_pre un i px base token) path tv (Some info') =
      bind_m (sys (px_futimens px fd (recv_time (fst tv), recv_time (snd tv)))) (status_of px) \<and>
    fuse_fs_release (mounted lws_pre un i px base token) path (Some info') =
      bind_m (sys (px_close px fd)) (status_of px)"
  by (intro exI [of _ "info\<lparr>fi_fh := scast fd\<rparr>"] conjI)
    (rule fuse_open_mounted [OF assms(1,2)] fuse_descriptor_used fuse_write_descriptor [OF assms(3)])+

theorem descriptor_end_to_end_witness:
  "\<exists>info'. fuse_fs_open (mounted 16 uninit_zero 1 (null_posix\<lparr>px_open := \<lambda>p f w. (7, w)\<rparr>) ''/srv'' ''t'') ''/f''
      \<lparr>fi_flags = 0, fi_fh = 0\<rparr> () = (Inr (0, info'), ()) \<and>
    fuse_fs_release (mounted 16 uninit_zero 1 (null_posix\<lparr>px_open := \<lambda>p f w. (7, w)\<rparr>) ''/srv'' ''t'') ''/f''
      (Some info') () = (Inr (- EBADF), ())"
proof -
  let ?px = "null_posix\<lparr>px_open := \<lambda>p f w. (7, w)\<rparr>"
  have "\<exists>info'. fuse_fs_open (mounted 16 uninit_zero 1 ?px ''/srv'' ''t'') ''/f'' \<lparr>fi_flags = 0, fi_fh = 0\<rparr> () =
      (Inr (0, info'), ()) \<and>
    fuse_fs_release (mounted 16 uninit_zero 1 ?px ''/srv'' ''t'') ''/f'' (Some info') =
      bind_m (sys (px_close ?px 7)) (status_of ?px)"
    using descriptor_end_to_end [of ?px "''/srv''" "''/f''" "\<lparr>fi_flags = 0, fi_fh = 0\<rparr>" "()" 7 "()" 0 "''''"
        16 uninit_zero 1 "''t''"] by fastforce
  then show ?thesis
    by (auto simp: null_posix_def sys_def bind_m_def status_of_def get_errno_def return_apply)
qed

text \<open>
  C31. A directory listing of the mount is the provider's directory stream, in order, behind the two entries
  \<^verbatim>\<open>.\<close> and \<^verbatim>\<open>..\<close> that the service adds. Since the stream of \<^verbatim>\<open>readdir\<close> has these two itself, both appear twice.
\<close>

theorem mounted_readdir:
  assumes "px_opendir px (c_str (get_full_path base (recv_str path))) w = (Some stream, w')"
    and "length stream < 2 ^ 32"
    and "\<forall>name \<in> set stream. length name < 2 ^ 32 \<and> CHR 0x00 \<notin> set name"
  shows "fuse_fs_readdir (mounted lws_pre un i px base token) path filled w =
    (Inr (0, filled @ [''.'', ''..''] @ stream), px_closedir px w')"
  using assms(2,3) by (simp add: fuse_readdir_mounted [OF assms(1)] recv_names)

theorem mounted_readdir_witness:
  "fuse_fs_readdir (mounted 16 uninit_zero 1
      (null_posix\<lparr>px_opendir := \<lambda>p w. (Some [''.'', ''..'', ''a''], w)\<rparr>) ''/srv'' ''t'') ''/'' [] () =
    (Inr (0, [''.'', ''..'', ''.'', ''..'', ''a'']), ())"
  using mounted_readdir [of "null_posix\<lparr>px_opendir := \<lambda>p w. (Some [''.'', ''..'', ''a''], w)\<rparr>" "''/srv''" "''/''"
      "()" "[''.'', ''..'', ''a'']" "()" 16 uninit_zero 1 "''t''" "[]"]
  by (simp add: null_posix_def)

text \<open>
  C40. A truncation of a file that is not open never reaches \<^verbatim>\<open>truncate\<close>: the provider calls \<^verbatim>\<open>ftruncate\<close> on the
  descriptor -1.
\<close>

theorem truncate_unopened_fails:
  "fuse_fs_truncate (mounted lws_pre un i px base token) path len None =
    bind_m (sys (px_ftruncate px (- 1) (low32 len))) (status_of px)"
  by (simp add: fuse_fs_truncate_def mounted_simps localfs_truncate_def low32_valid ucast_low32 minus_one_descriptor)

text \<open>
  The descriptor of an open file is never used for reading: a read gives the same result and has the
  same effects for every handle, because the provider opens the file by its path each time.
\<close>

theorem read_ignores_handle:
  "fuse_fs_read (mounted lws_pre un i px base token) path buffer n offset info =
   fuse_fs_read (mounted lws_pre un i px base token) path buffer n offset info'"
  by (simp add: fuse_fs_read_def mounted_simps localfs_read_def low32_valid empty_read_def)

end
