(* ===== verification/Url.thy ===== *)
theory Url
  imports Std_String
begin

text \<open>
  Class \<^verbatim>\<open>ws_url\<close> (\<^verbatim>\<open>ws/url.cpp\<close>) and the connection parameters that \<^verbatim>\<open>ws_client::connect\<close>
  (\<^verbatim>\<open>ws/client.cpp\<close>) makes of a URL.
\<close>

record ws_url =
  wu_use_tls :: bool
  wu_hostname :: string
  wu_port :: u16
  wu_path :: string

definition ws_port :: u16 where "ws_port = 80"
definition wss_port :: u16 where "wss_port = 443"

definition starts_with :: "string \<Rightarrow> string \<Rightarrow> bool" where
  "starts_with value pre \<longleftrightarrow> Some 0 = find_str pre value"

definition parse_protocol :: "string \<Rightarrow> exn + (bool \<times> string)" where
  "parse_protocol url =
    (if starts_with url ''ws://'' then Inr (False, drop (length ''ws://'') url)
     else if starts_with url ''wss://'' then Inr (True, drop (length ''wss://'') url)
     else Inl (Runtime_error ''unknown protocol''))"

text \<open>The path, and the remainder without it.\<close>

definition split_path :: "string \<Rightarrow> string \<times> string" where
  "split_path remainder =
    (case find_char (CHR ''/'') remainder of
      Some path_start \<Rightarrow> (drop path_start remainder, take path_start remainder)
    | None \<Rightarrow> (''/'', remainder))"

definition ws_url_new :: "string \<Rightarrow> exn + ws_url" where
  "ws_url_new url =
    (case parse_protocol url of
      Inl e \<Rightarrow> Inl e
    | Inr (use_tls, remainder) \<Rightarrow>
        (let (path, remainder) = split_path remainder
         in case find_char (CHR '':'') remainder of
              Some port_start \<Rightarrow>
                (case stoi (drop (port_start + 1) remainder) of
                  Inl e \<Rightarrow> Inl e
                | Inr v \<Rightarrow> Inr \<lparr>wu_use_tls = use_tls, wu_hostname = take port_start remainder,
                    wu_port = ucast v, wu_path = path\<rparr>)
            | None \<Rightarrow> Inr \<lparr>wu_use_tls = use_tls, wu_hostname = remainder,
                wu_port = (if use_tls then wss_port else ws_port), wu_path = path\<rparr>))"

text \<open>The members of \<^verbatim>\<open>lws_client_connect_info\<close> that \<^verbatim>\<open>connect\<close> sets from the URL.\<close>

record lws_client_connect_info =
  ci_port :: i32
  ci_address :: string
  ci_host :: string
  ci_path :: string
  ci_origin :: string
  ci_use_ssl :: bool
  ci_protocol :: string
  ci_local_protocol_name :: string

definition client_connect_info :: "string \<Rightarrow> exn + lws_client_connect_info" where
  "client_connect_info url =
    (case ws_url_new url of
      Inl e \<Rightarrow> Inl e
    | Inr parsed_url \<Rightarrow> Inr \<lparr>ci_port = ucast (wu_port parsed_url), ci_address = wu_hostname parsed_url,
        ci_host = wu_hostname parsed_url, ci_path = wu_path parsed_url,
        ci_origin = wu_hostname parsed_url, ci_use_ssl = wu_use_tls parsed_url,
        ci_protocol = ''webfuse2'', ci_local_protocol_name = ''webfuse2-client''\<rparr>)"

subsection \<open>Printing\<close>

definition url_scheme :: "bool \<Rightarrow> string" where
  "url_scheme use_tls = (if use_tls then ''wss://'' else ''ws://'')"

definition print_url :: "bool \<Rightarrow> string \<Rightarrow> nat option \<Rightarrow> string \<Rightarrow> string" where
  "print_url use_tls host port path =
    url_scheme use_tls @ host @ (case port of Some n \<Rightarrow> CHR '':'' # decimal n | None \<Rightarrow> []) @ path"

lemma parse_protocol_print: "parse_protocol (url_scheme tls @ rest) = Inr (tls, rest)"
proof (cases tls)
  case True
  then have "\<not> starts_with (url_scheme tls @ rest) ''ws://''"
    by (auto simp: starts_with_def url_scheme_def dest!: sym [of "Some 0"])
  moreover have "starts_with (url_scheme tls @ rest) ''wss://''"
    using True by (simp add: starts_with_def url_scheme_def)
  ultimately show ?thesis using True by (simp add: parse_protocol_def url_scheme_def)
next
  case False
  then have "starts_with (url_scheme tls @ rest) ''ws://''"
    by (simp add: starts_with_def url_scheme_def)
  then show ?thesis using False by (simp add: parse_protocol_def url_scheme_def)
qed

lemma decimal_no_slash: "CHR ''/'' \<notin> set (decimal n)"
  using decimal_digits [of n] by (auto simp: list_all_iff is_digit_def)

lemma split_path_append:
  assumes "CHR ''/'' \<notin> set host" and "path = [] \<or> hd path = CHR ''/''"
  shows "split_path (host @ path) = (if path = [] then ''/'' else path, host)"
  using assms by (cases path) (simp_all add: split_path_def find_char_append find_char_prefix)

subsection \<open>Properties\<close>

text \<open>
  C36. Parsing inverts printing: scheme, host, port (the default of the scheme when there is none) and path
  (\<^verbatim>\<open>/\<close> when there is none) of a printed URL are recovered, for a host without slash and colon and
  a path that is empty or starts with a slash.
\<close>

theorem ws_url_roundtrip:
  assumes "CHR ''/'' \<notin> set host" and "CHR '':'' \<notin> set host"
    and "path = [] \<or> hd path = CHR ''/''"
    and "\<forall>n. port = Some n \<longrightarrow> n < 2 ^ 16"
  shows "ws_url_new (print_url use_tls host port path) = Inr
    \<lparr>wu_use_tls = use_tls, wu_hostname = host,
     wu_port = (case port of Some n \<Rightarrow> word_of_nat n | None \<Rightarrow> if use_tls then 443 else 80),
     wu_path = (if path = [] then ''/'' else path)\<rparr>"
proof (cases port)
  case None
  then show ?thesis
    using assms split_path_append [OF assms(1,3)]
    by (simp add: ws_url_new_def print_url_def parse_protocol_print find_char_prefix ws_port_def wss_port_def)
next
  case (Some n)
  let ?host = "host @ CHR '':'' # decimal n"
  have "CHR ''/'' \<notin> set ?host" using assms(1) decimal_no_slash by simp
  then have "split_path (host @ CHR '':'' # decimal n @ path) = (if path = [] then ''/'' else path, ?host)"
    using split_path_append [of ?host path] assms(3) by simp
  moreover have "stoi (decimal n) = Inr (word_of_nat n)"
    using stoi_decimal [of n "[]"] assms(4) Some by simp
  moreover have "(ucast (word_of_nat n :: i32) :: u16) = word_of_nat n"
    by (rule bit_word_eqI) (simp add: bit_unsigned_iff bit_of_nat_iff bit_simps)
  ultimately show ?thesis
    using Some find_char_append [OF assms(2), of "decimal n"]
    by (simp add: ws_url_new_def print_url_def parse_protocol_print)
qed

theorem ws_url_roundtrip_witness:
  "ws_url_new (print_url True ''localhost'' (Some 8443) ''/fs'') = Inr
    \<lparr>wu_use_tls = True, wu_hostname = ''localhost'', wu_port = 8443, wu_path = ''/fs''\<rparr>"
  using ws_url_roundtrip [of "''localhost''" "''/fs''" "Some 8443" True] by simp

end
