(* ===== verification/Provider_Main.thy ===== *)
theory Provider_Main
  imports Client Local_Filesystem Provider_Safety Url Service_Loop
begin

text \<open>
  The program \<^verbatim>\<open>webfuse_provider\<close> (\<^verbatim>\<open>provider_main.cpp\<close>): its option parser \<^verbatim>\<open>context\<close>, and \<^verbatim>\<open>main\<close> with its loop,
  which serves requests until the connection is gone or a signal arrives.
\<close>

subsection \<open>The option parser of the provider\<close>

text \<open>
  Class \<^verbatim>\<open>context\<close>. \<open>options\<close> are the values \<^verbatim>\<open>getopt_long\<close> returns one after the other, each with
  \<^verbatim>\<open>optarg\<close>, up to the first -1 (the end of the list); a character other than the options of the
  program stands for one it rejects. \<open>webfuse_token\<close> is the environment variable, \<open>None\<close> when it is
  not set.
\<close>

datatype provider_command = Pcmd_run | Pcmd_show_help | Pcmd_show_version

record provider_context =
  ctx_base_path :: string
  ctx_url :: string
  ctx_ca_path :: string
  ctx_token :: string
  ctx_cmd :: provider_command
  ctx_exit_code :: i32

fun context_loop :: "(char \<times> string) list \<Rightarrow> provider_context \<Rightarrow> provider_context" where
  "context_loop [] ctx = ctx"
| "context_loop ((c, optarg) # options) ctx =
    (if c = CHR ''p'' then context_loop options (ctx\<lparr>ctx_base_path := optarg\<rparr>)
     else if c = CHR ''u'' then context_loop options (ctx\<lparr>ctx_url := optarg\<rparr>)
     else if c = CHR ''a'' then context_loop options (ctx\<lparr>ctx_ca_path := optarg\<rparr>)
     else if c = CHR ''t'' then context_loop options (ctx\<lparr>ctx_token := optarg\<rparr>)
     else if c = CHR ''h'' then context_loop options (ctx\<lparr>ctx_cmd := Pcmd_show_help\<rparr>)
     else if c = CHR ''v'' then context_loop options (ctx\<lparr>ctx_cmd := Pcmd_show_version\<rparr>)
     else ctx\<lparr>ctx_cmd := Pcmd_show_help, ctx_exit_code := 1\<rparr>)"

definition context_new :: "string option \<Rightarrow> (char \<times> string) list \<Rightarrow> provider_context" where
  "context_new webfuse_token options =
    (let ctx = \<lparr>ctx_base_path = ''.'', ctx_url = '''', ctx_ca_path = '''',
                ctx_token = (case webfuse_token of Some token \<Rightarrow> token | None \<Rightarrow> ''''),
                ctx_cmd = Pcmd_run, ctx_exit_code = 0\<rparr>;
         ctx = context_loop options ctx
     in if ctx_cmd ctx = Pcmd_run \<and> ctx_url ctx = ''''
        then ctx\<lparr>ctx_cmd := Pcmd_show_help, ctx_exit_code := 1\<rparr>
        else ctx)"

subsection \<open>The main loop\<close>

definition on_signal :: "bool \<Rightarrow> bool" where
  "on_signal shutdown_requested = True"

text \<open>The connection listener \<^verbatim>\<open>main\<close> installs.\<close>

definition main_listener :: "bool \<Rightarrow> bool \<Rightarrow> bool" where
  "main_listener connected shutdown_requested = (if \<not> connected then True else shutdown_requested)"

record 's main_state =
  pm_shutdown_requested :: bool
  pm_client :: "'s client"
  pm_outcome :: "exn + unit"

text \<open>
  One call of \<^verbatim>\<open>provider.service()\<close>, that is of \<^verbatim>\<open>lws_service\<close>: the library delivers events to the callback; a
  signal may arrive meanwhile.
\<close>

type_synonym service_round = "client_event list \<times> bool"

fun deliver_events :: "nat \<Rightarrow> 's client_handler \<Rightarrow> wsi \<Rightarrow> client_event list \<Rightarrow> ('s client, unit) sm" where
  "deliver_events lws_pre handler w [] = return_m ()"
| "deliver_events lws_pre handler w (e # es) =
    bind_m (webfuse_client_callback lws_pre handler w e) (\<lambda>_. deliver_events lws_pre handler w es)"

definition provider_service ::
    "nat \<Rightarrow> 's client_handler \<Rightarrow> wsi \<Rightarrow> service_round \<Rightarrow> 's main_state \<Rightarrow> 's main_state" where
  "provider_service lws_pre handler w = (\<lambda>(events, signal) st.
    case deliver_events lws_pre handler w events (pm_client st) of (r, cl) \<Rightarrow>
    let calls = drop (length (cl_listener_calls (pm_client st))) (cl_listener_calls cl);
        shutdown_requested = fold main_listener calls (pm_shutdown_requested st);
        shutdown_requested = (if signal then on_signal shutdown_requested else shutdown_requested)
    in \<lparr>pm_shutdown_requested = shutdown_requested, pm_client = cl, pm_outcome = r\<rparr>)"

text \<open>The loop ends on request, or with undefined behaviour of a callback, after which nothing is known.\<close>

definition main_ended :: "'s main_state \<Rightarrow> bool" where
  "main_ended st \<longleftrightarrow> pm_shutdown_requested st \<or> pm_outcome st \<noteq> Inr ()"

text \<open>
  \<^verbatim>\<open>main\<close>: the exit code, or \<open>None\<close> when it runs forever. \<open>signalled\<close> says whether a signal arrived before the
  loop started; \<open>w\<close> is the connection.
\<close>

definition provider_main ::
    "nat \<Rightarrow> uninit \<Rightarrow> 'o posix \<Rightarrow> wsi \<Rightarrow> bool \<Rightarrow> (nat \<Rightarrow> service_round) \<Rightarrow> provider_context \<Rightarrow> 'o \<Rightarrow> (exn + i32) option" where
  "provider_main lws_pre un px w signalled rounds ctx os =
    (case ctx_cmd ctx of
       Pcmd_run \<Rightarrow>
         (case localfs_new px (un_stat un) (ctx_base_path ctx) os of
            (Inl e, _) \<Rightarrow> Some (Inr 1)
          | (Inr base, os') \<Rightarrow>
              (case client_connect_info (ctx_url ctx) of
                 Inl e \<Rightarrow> Some (Inr 1)
               | Inr info \<Rightarrow>
                   map_option (\<lambda>(n, st). case pm_outcome st of Inl e \<Rightarrow> Inl e | Inr _ \<Rightarrow> Inr (ctx_exit_code ctx))
                     (service_loop main_ended
                       (provider_service lws_pre (on_message lws_pre un (local_filesystem px base (ctx_token ctx))) w)
                       rounds
                       \<lparr>pm_shutdown_requested = signalled, pm_client = client_new os', pm_outcome = Inr ()\<rparr>)))
     | Pcmd_show_version \<Rightarrow> Some (Inr (ctx_exit_code ctx))
     | Pcmd_show_help \<Rightarrow> Some (Inr (ctx_exit_code ctx)))"

subsection \<open>Options\<close>

lemma context_loop_exit:
  "ctx_exit_code (context_loop options ctx) = ctx_exit_code ctx \<or>
    ctx_cmd (context_loop options ctx) = Pcmd_show_help \<and> ctx_exit_code (context_loop options ctx) = 1"
  by (induction options ctx rule: context_loop.induct) simp_all

lemma context_loop_token:
  "\<forall>(c, a) \<in> set options. c \<in> set ''puatvh'' \<Longrightarrow>
    ctx_token (context_loop options ctx) =
      (case filter (\<lambda>(c, a). c = CHR ''t'') options of [] \<Rightarrow> ctx_token ctx | ts \<Rightarrow> snd (last ts))"
  by (induction options ctx rule: context_loop.induct) (auto split: list.splits)

lemma provider_context_run:
  "let ctx = context_new webfuse_token options in
    (ctx_cmd ctx = Pcmd_run \<longrightarrow> ctx_url ctx \<noteq> '''' \<and> ctx_exit_code ctx = 0) \<and>
    (ctx_exit_code ctx \<noteq> 0 \<longrightarrow> ctx_cmd ctx = Pcmd_show_help \<and> ctx_exit_code ctx = 1)"
proof -
  let ?ctx = "context_loop options \<lparr>ctx_base_path = ''.'', ctx_url = '''', ctx_ca_path = '''',
    ctx_token = (case webfuse_token of Some token \<Rightarrow> token | None \<Rightarrow> ''''), ctx_cmd = Pcmd_run, ctx_exit_code = 0\<rparr>"
  have "ctx_exit_code ?ctx = 0 \<or> ctx_cmd ?ctx = Pcmd_show_help \<and> ctx_exit_code ?ctx = 1"
    using context_loop_exit [of options] by (metis provider_context.select_convs(6))
  then show ?thesis
    unfolding context_new_def Let_def by (auto simp del: context_loop.simps)
qed

subsection \<open>Events\<close>

text \<open>What an event tells the connection listener.\<close>

definition event_listener_calls :: "client_event \<Rightarrow> bool list" where
  "event_listener_calls e = (case e of
      Cl_established \<Rightarrow> [True] | Cl_connection_error \<Rightarrow> [False] | Cl_closed \<Rightarrow> [False] | _ \<Rightarrow> [])"

definition ends_main :: "service_round \<Rightarrow> bool" where
  "ends_main = (\<lambda>(events, signal). signal \<or> Cl_closed \<in> set events \<or> Cl_connection_error \<in> set events)"

lemma callback_listener:
  assumes "never_undefined handler"
  shows "\<exists>s'. webfuse_client_callback lws_pre handler w e s = (Inr (), s') \<and>
    cl_listener_calls s' = cl_listener_calls s @ event_listener_calls e"
proof (cases e)
  case (Cl_receive fragment is_final)
  obtain r fs rd where h: "handler (cl_fs s, messagereader_new (cl_current_message s @ fragment)) = (r, fs, rd)"
    by (metis prod_cases3)
  have "r \<noteq> Inl Undefined_behaviour"
    using assms h unfolding never_undefined_def by (metis fst_conv)
  with h Cl_receive show ?thesis
    by (auto simp: webfuse_client_callback_def client_receive_def Let_def client_lws_def event_listener_calls_def
        split: sum.splits)
qed (auto simp: webfuse_client_callback_def connection_listener_def client_disconnected_def client_writeable_def
    client_lws_def event_listener_calls_def Let_def split: list.splits)

lemma deliver_listener:
  assumes "never_undefined handler"
  shows "\<exists>s'. deliver_events lws_pre handler w es s = (Inr (), s') \<and>
    cl_listener_calls s' = cl_listener_calls s @ concat (map event_listener_calls es)"
proof (induction es arbitrary: s)
  case (Cons e es)
  obtain s1 where s1: "webfuse_client_callback lws_pre handler w e s = (Inr (), s1)"
    "cl_listener_calls s1 = cl_listener_calls s @ event_listener_calls e"
    using callback_listener [OF assms] by blast
  with Cons.IH [of s1] show ?case by (auto simp: bind_step)
qed (simp add: return_apply)

lemma fold_main_listener: "fold main_listener calls b \<longleftrightarrow> b \<or> False \<in> set calls"
  by (induction calls arbitrary: b) (auto simp: main_listener_def)

lemma listener_told: "False \<in> set (event_listener_calls e) \<longleftrightarrow> e = Cl_closed \<or> e = Cl_connection_error"
  by (cases e) (simp_all add: event_listener_calls_def)

text \<open>The round of the main loop keeps the contract of a stoppable service.\<close>

interpretation main_service: stoppable_service
  "\<lambda>st. pm_outcome st = Inr () \<and> never_undefined handler" main_ended "provider_service lws_pre handler w" ends_main
  for lws_pre handler w
proof
  fix st :: "'a main_state" and round :: service_round
  assume inv: "pm_outcome st = Inr () \<and> never_undefined handler"
  obtain events signal where round: "round = (events, signal)" by (cases round)
  obtain cl where cl: "deliver_events lws_pre handler w events (pm_client st) = (Inr (), cl)"
    "cl_listener_calls cl = cl_listener_calls (pm_client st) @ concat (map event_listener_calls events)"
    using deliver_listener inv by blast
  then show "pm_outcome (provider_service lws_pre handler w round st) = Inr () \<and> never_undefined handler"
    using inv by (simp add: round provider_service_def Let_def)
  show "main_ended (provider_service lws_pre handler w round st) \<longleftrightarrow> main_ended st \<or> ends_main round"
    using cl inv
    by (auto simp: round provider_service_def Let_def main_ended_def ends_main_def on_signal_def
        fold_main_listener listener_told)
qed

subsection \<open>The local file system is free of undefined behaviour\<close>

lemma never_undefined_sys: "never_undefined (sys f)"
  by (simp add: never_undefined_def sys_def split: prod.splits)

lemma never_undefined_errno: "never_undefined (get_errno px)"
  by (simp add: never_undefined_def get_errno_def)

lemma never_undefined_status_of: "never_undefined (status_of px r)"
  unfolding status_of_def by (rule never_undefined_rules never_undefined_errno)+

lemma never_undefined_count_of: "never_undefined (count_of px r)"
  unfolding count_of_def by (rule never_undefined_rules never_undefined_errno)+

lemma never_undefined_out_of_range: "never_undefined (throw_m (Out_of_range m))"
  by (simp add: never_undefined_def throw_apply)

lemma never_undefined_option:
  "never_undefined m \<Longrightarrow> (\<And>a. never_undefined (f a)) \<Longrightarrow>
    never_undefined (case x of None \<Rightarrow> m | Some a \<Rightarrow> f a)"
  by (cases x) simp_all

lemma never_undefined_list:
  "never_undefined m \<Longrightarrow> (\<And>a as. never_undefined (f a as)) \<Longrightarrow>
    never_undefined (case x of [] \<Rightarrow> m | a # as \<Rightarrow> f a as)"
  by (cases x) simp_all

lemmas localfs_defined = never_undefined_return never_undefined_bind never_undefined_if never_undefined_split
  never_undefined_sys never_undefined_errno never_undefined_status_of never_undefined_count_of
  never_undefined_out_of_range never_undefined_option never_undefined_list

lemmas localfs_defs = localfs_access_def localfs_getattr_def localfs_readlink_def localfs_symlink_def
  localfs_link_def localfs_rename_def localfs_chmod_def localfs_chown_def localfs_truncate_def localfs_fsync_def
  localfs_utimens_def localfs_open_def localfs_mknod_def localfs_create_def localfs_release_def localfs_unlink_def
  localfs_read_def localfs_write_def localfs_mkdir_def localfs_readdir_def localfs_rmdir_def localfs_statfs_def

text \<open>The credentials are the token, or what \<^verbatim>\<open>getpass\<close> reads; without a token \<^verbatim>\<open>getpass\<close> must not return \<^verbatim>\<open>NULL\<close>.\<close>

lemma get_credentials_defined:
  assumes "token \<noteq> '''' \<or> (\<forall>w. fst (px_getpass px w) \<noteq> None)"
  shows "never_undefined (localfs_get_credentials px token)"
  unfolding never_undefined_def
proof
  fix w
  obtain password w' where "px_getpass px w = (password, w')" by (cases "px_getpass px w")
  moreover from this have "token \<noteq> '''' \<or> password \<noteq> None" using assms by (metis fst_conv)
  ultimately show "fst (localfs_get_credentials px token w) \<noteq> Inl Undefined_behaviour"
    by (auto simp: localfs_get_credentials_def bind_m_def sys_def return_apply)
qed

lemma local_filesystem_defined:
  assumes "\<And>fd buffer n offset w r buffer' w'.
      px_pread px fd buffer n offset w = ((r, buffer'), w') \<Longrightarrow>
      length buffer' = length buffer \<and> (r = - 1 \<or> unat r \<le> n)"
    and "\<And>w. 0 \<le> sint (px_errno px w)"
    and "token \<noteq> '''' \<or> (\<forall>w. fst (px_getpass px w) \<noteq> None)"
  shows "defined_filesystem (local_filesystem px base token)"
proof (intro defined_filesystem.intro defined_filesystem_axioms.intro)
  show "filesystem_contract (local_filesystem px base token)"
    using assms(1,2) by (rule local_filesystem_contract)
  show "never_undefined (fsi_get_credentials (local_filesystem px base token))"
    using assms(3) by (simp add: local_filesystem_def get_credentials_defined)
qed (unfold local_filesystem_def filesystem_i.select_convs localfs_defs Let_def, (rule localfs_defined)+)

lemma localfs_new_defined: "never_undefined (localfs_new px un base)"
  unfolding localfs_new_def
  by (rule localfs_defined never_undefined_throw)+

text \<open>A system in which the served directory exists, somebody types a password, and nothing else works.\<close>

definition dir_posix :: "unit posix" where
  "dir_posix = null_posix\<lparr>px_realpath := \<lambda>p w. (Some ''/srv'', w),
    px_stat := \<lambda>p st w. ((0, st\<lparr>st_mode := S_IFDIR\<rparr>), w), px_getpass := \<lambda>w. (Some ''secret'', w)\<rparr>"

lemma dir_posix_new: "localfs_new dir_posix un base () = (Inr ''/srv'', ())"
  by (simp add: localfs_new_def dir_posix_def sys_def bind_m_def return_apply S_IFDIR_def S_IFMT_def)

subsection \<open>Properties\<close>

text \<open>
  C21. The provider serves until it is told to stop, and then stops: with a valid directory and url, \<^verbatim>\<open>main\<close> returns if and only
  if the connection is lost or a signal arrives in some round, and then with the exit code 0 - whatever requests
  arrived before, well-formed or not. It is assumed that \<^verbatim>\<open>pread\<close> reports at most as many bytes as it was asked for, that
  \<^verbatim>\<open>errno\<close> is not negative, and that the provider has a token, by \<^verbatim>\<open>-t\<close> or the environment, or \<^verbatim>\<open>getpass\<close> never returns
  \<^verbatim>\<open>NULL\<close> (the provider constructs a string from its result without a test).
\<close>

theorem provider_main_stops:
  assumes "\<And>fd buffer n offset w r buffer' w'.
      px_pread px fd buffer n offset w = ((r, buffer'), w') \<Longrightarrow>
      length buffer' = length buffer \<and> (r = - 1 \<or> unat r \<le> n)"
    and "\<And>w. 0 \<le> sint (px_errno px w)"
    and "ctx = context_new webfuse_token options" and "ctx_cmd ctx = Pcmd_run"
    and "ctx_token ctx \<noteq> '''' \<or> (\<forall>w. fst (px_getpass px w) \<noteq> None)"
    and "localfs_new px (un_stat un) (ctx_base_path ctx) os = (Inr base, os')"
    and "client_connect_info (ctx_url ctx) = Inr info"
  shows "provider_main lws_pre un px w False rounds ctx os =
    (if \<exists>n. Cl_closed \<in> set (fst (rounds n)) \<or> Cl_connection_error \<in> set (fst (rounds n)) \<or> snd (rounds n)
     then Some (Inr 0) else None)"
proof -
  let ?fs = "local_filesystem px base (ctx_token ctx)"
  let ?handler = "on_message lws_pre un ?fs"
  let ?s = "\<lparr>pm_shutdown_requested = False, pm_client = client_new os', pm_outcome = Inr ()\<rparr>"
  have "defined_filesystem ?fs"
    using assms(1,2,5) by (rule local_filesystem_defined)
  then have inv: "pm_outcome ?s = Inr () \<and> never_undefined ?handler"
    by (simp add: defined_filesystem.on_message_defined)
  have run: "\<not> main_ended ?s" by (simp add: main_ended_def)
  have ends: "(\<exists>n. Cl_closed \<in> set (fst (rounds n)) \<or> Cl_connection_error \<in> set (fst (rounds n)) \<or> snd (rounds n)) \<longleftrightarrow>
      (\<exists>n. ends_main (rounds n))"
    by (auto simp: ends_main_def case_prod_unfold)
  have exit: "ctx_exit_code ctx = 0"
    using provider_context_run [of webfuse_token options] assms(3,4) by (simp add: Let_def)
  show ?thesis
  proof (cases "\<exists>n. ends_main (rounds n)")
    case True
    then obtain k where
      "service_loop main_ended (provider_service lws_pre ?handler w) rounds ?s =
        Some (Suc k, after_rounds (provider_service lws_pre ?handler w) rounds (Suc k) ?s)"
      using main_service.loop_ends [OF inv run] by blast
    moreover have "pm_outcome (after_rounds (provider_service lws_pre ?handler w) rounds (Suc k) ?s) = Inr ()"
      using main_service.inv_after [OF inv] by blast
    ultimately show ?thesis
      using True exit assms(4,6,7) by (simp add: provider_main_def ends)
  next
    case False
    then have "service_loop main_ended (provider_service lws_pre ?handler w) rounds ?s = None"
      using main_service.loop_runs_forever [OF inv run] by blast
    then show ?thesis
      using False assms(4,6,7) by (simp add: provider_main_def ends)
  qed
qed

text \<open>A provider without a token.\<close>

theorem provider_main_stops_witness:
  "provider_main 16 uninit_zero dir_posix 3 False
      (\<lambda>n. if n = 0 then ([Cl_established], False) else ([Cl_receive [1, 2] True, Cl_closed], False))
      (context_new None [(CHR ''u'', ''ws://h/'')]) () = Some (Inr 0)"
proof -
  let ?ctx = "context_new None [(CHR ''u'', ''ws://h/'')]"
  let ?rounds = "\<lambda>n :: nat. if n = 0 then ([Cl_established], False) else ([Cl_receive [1, 2] True, Cl_closed], False)"
  have url: "\<exists>info. client_connect_info (ctx_url ?ctx) = Inr info"
    by (simp add: context_new_def client_connect_info_def ws_url_new_def parse_protocol_def starts_with_def split_path_def)
  have "provider_main 16 uninit_zero dir_posix 3 False ?rounds ?ctx () =
    (if \<exists>n. Cl_closed \<in> set (fst (?rounds n)) \<or> Cl_connection_error \<in> set (fst (?rounds n)) \<or> snd (?rounds n)
     then Some (Inr 0) else None)"
    by (rule exE [OF url], rule provider_main_stops [OF _ _ refl _ _ dir_posix_new])
      (simp_all add: dir_posix_def null_posix_def errno_defs context_new_def)
  moreover have "Cl_closed \<in> set (fst (?rounds 1))" by simp
  ultimately show ?thesis by (metis (no_types, lifting))
qed

text \<open>
  The provider runs only with a url and without an error; every other outcome shows the help or the
  version, and the exit code is 0 or 1.
\<close>

theorem provider_runs_with_url:
  "let ctx = context_new webfuse_token options in
    (ctx_cmd ctx = Pcmd_run \<longrightarrow> ctx_url ctx \<noteq> '''' \<and> ctx_exit_code ctx = 0) \<and>
    (ctx_exit_code ctx \<noteq> 0 \<longrightarrow> ctx_cmd ctx = Pcmd_show_help \<and> ctx_exit_code ctx = 1)"
  by (rule provider_context_run)

theorem provider_runs_with_url_witness:
  "(let ctx = context_new None [(CHR ''u'', ''ws://h/'')] in
     ctx_cmd ctx = Pcmd_run \<and> ctx_url ctx \<noteq> '''' \<and> ctx_exit_code ctx = 0) \<and>
   (let ctx = context_new None [(CHR ''x'', '''')] in
     ctx_exit_code ctx \<noteq> 0 \<and> ctx_cmd ctx = Pcmd_show_help \<and> ctx_exit_code ctx = 1)"
  using provider_runs_with_url [of None "[(CHR ''u'', ''ws://h/'')]"]
    provider_runs_with_url [of None "[(CHR ''x'', '''')]"]
  by (simp add: context_new_def)

text \<open>
  An option \<^verbatim>\<open>-t\<close> takes precedence over the environment variable \<^verbatim>\<open>WEBFUSE_TOKEN\<close>, which is used only
  without one; the last \<^verbatim>\<open>-t\<close> wins.
\<close>

theorem provider_token_precedence:
  assumes "\<forall>(c, a) \<in> set options. c \<in> set ''puatvh''"
  shows "ctx_token (context_new webfuse_token options) =
    (case filter (\<lambda>(c, a). c = CHR ''t'') options of
      [] \<Rightarrow> (case webfuse_token of Some token \<Rightarrow> token | None \<Rightarrow> '''')
    | ts \<Rightarrow> snd (last ts))"
  using context_loop_token [OF assms] by (simp add: context_new_def Let_def split: list.splits)

theorem provider_token_precedence_witness:
  "ctx_token (context_new (Some ''env'') [(CHR ''u'', ''ws://h/''), (CHR ''t'', ''opt'')]) = ''opt''"
  using provider_token_precedence [of "[(CHR ''u'', ''ws://h/''), (CHR ''t'', ''opt'')]" "Some ''env''"]
  by simp

end
