(* ===== verification/Objects.thy ===== *)
theory Objects
  imports App Ownership Provider_Main Server_Handler "HOL-Library.Sublist"
begin

text \<open>
  The objects of the classes \<^verbatim>\<open>ws_client\<close>, \<^verbatim>\<open>provider\<close>, \<^verbatim>\<open>ws_server\<close> and \<^verbatim>\<open>fuse\<close>: what their \<^verbatim>\<open>detail\<close> contains,
  what its constructor, its members and its destructor ask of the libraries, and the members of the class that
  forward to it. The lemmas show that every context of libwebsockets is destroyed exactly once, and that a
  connection is answered by the file system its provider was made with, however the objects are moved.
\<close>

datatype object_call =
    Call_setup setup_call
  | Call_connect lws_client_connect_info
  | Call_service
  | Call_cancel_service

type_synonym 'd member = "'d \<Rightarrow> exn + object_call list \<times> 'd"

type_synonym 'd object_op = "(('d, object_call) ownership, unit) sm"

subsection \<open>ws\_client\<close>

text \<open>
  The handler and the connection listener, both function objects; \<open>'w\<close> is the state the listener changes. The rest of
  \<^verbatim>\<open>user_data\<close> is the record \<open>client\<close>.
\<close>

record ('h, 'w) client_detail =
  cd_handler :: 'h
  cd_listener :: "bool \<Rightarrow> 'w \<Rightarrow> 'w"

definition client_detail_new :: "'h \<Rightarrow> ('h, 'w) client_detail" where
  "client_detail_new handler = \<lparr>cd_handler = handler, cd_listener = \<lambda>_ w. w\<rparr>"

definition client_detail_destroy :: "object_call list" where
  "client_detail_destroy = [Call_setup Lws_context_destroy]"

definition client_detail_connect :: "string \<Rightarrow> ('h, 'w) client_detail member" where
  "client_detail_connect url d =
    (case client_connect_info url of Inl e \<Rightarrow> Inl e | Inr info \<Rightarrow> Inr ([Call_connect info], d))"

definition client_detail_service :: "('h, 'w) client_detail member" where
  "client_detail_service d = Inr ([Call_service], d)"

definition client_detail_interrupt :: "('h, 'w) client_detail member" where
  "client_detail_interrupt d = Inr ([Call_cancel_service], d)"

definition client_detail_set_connection_listener :: "(bool \<Rightarrow> 'w \<Rightarrow> 'w) \<Rightarrow> ('h, 'w) client_detail member" where
  "client_detail_set_connection_listener listener d = Inr ([], d\<lparr>cd_listener := listener\<rparr>)"

definition ws_client_new :: "string \<Rightarrow> 'h \<Rightarrow> nat \<Rightarrow> ('h, 'w) client_detail object_op" where
  "ws_client_new ca_path handler this =
    pimpl_construct (map Call_setup (ws_client_create ca_path)) this (client_detail_new handler)"

definition ws_client_destroy :: "nat \<Rightarrow> ('h, 'w) client_detail object_op" where
  "ws_client_destroy this = pimpl_destroy client_detail_destroy this"

definition ws_client_move_construct :: "nat \<Rightarrow> nat \<Rightarrow> ('h, 'w) client_detail object_op" where
  "ws_client_move_construct this other = pimpl_move_construct this other"

definition ws_client_move_assign :: "nat \<Rightarrow> nat \<Rightarrow> ('h, 'w) client_detail object_op" where
  "ws_client_move_assign this other = pimpl_move_assign client_detail_destroy this other"

definition ws_client_connect :: "nat \<Rightarrow> string \<Rightarrow> ('h, 'w) client_detail object_op" where
  "ws_client_connect this url = pimpl_call this (client_detail_connect url)"

definition ws_client_service :: "nat \<Rightarrow> ('h, 'w) client_detail object_op" where
  "ws_client_service this = pimpl_call this client_detail_service"

definition ws_client_interrupt :: "nat \<Rightarrow> ('h, 'w) client_detail object_op" where
  "ws_client_interrupt this = pimpl_call this client_detail_interrupt"

definition ws_client_set_connection_listener :: "nat \<Rightarrow> (bool \<Rightarrow> 'w \<Rightarrow> 'w) \<Rightarrow> ('h, 'w) client_detail object_op" where
  "ws_client_set_connection_listener this listener = pimpl_call this (client_detail_set_connection_listener listener)"

subsection \<open>provider\<close>

text \<open>
  The reference to the file system and the client, whose handler is \<^verbatim>\<open>on_message\<close> of this very \<^verbatim>\<open>detail\<close>. The client is a
  member that nobody moves, so its own \<^verbatim>\<open>detail\<close> lives and dies with it and is part of the record.
\<close>

record ('s, 'w) provider_detail =
  pd_fs :: "'s filesystem_i"
  pd_client :: "('s client_handler, 'w) client_detail"

definition provider_detail_new :: "nat \<Rightarrow> uninit \<Rightarrow> 's filesystem_i \<Rightarrow> ('s, 'w) provider_detail" where
  "provider_detail_new lws_pre un fs = \<lparr>pd_fs = fs, pd_client = client_detail_new (on_message lws_pre un fs)\<rparr>"

definition provider_detail_destroy :: "object_call list" where
  "provider_detail_destroy = client_detail_destroy"

text \<open>The members of \<^verbatim>\<open>detail\<close> call those of the client.\<close>

definition on_client :: "('s client_handler, 'w) client_detail member \<Rightarrow> ('s, 'w) provider_detail member" where
  "on_client f d = (case f (pd_client d) of Inl e \<Rightarrow> Inl e | Inr (calls, c) \<Rightarrow> Inr (calls, d\<lparr>pd_client := c\<rparr>))"

definition provider_detail_connect :: "string \<Rightarrow> ('s, 'w) provider_detail member" where
  "provider_detail_connect url = on_client (client_detail_connect url)"

definition provider_detail_service :: "('s, 'w) provider_detail member" where
  "provider_detail_service = on_client client_detail_service"

definition provider_detail_interrupt :: "('s, 'w) provider_detail member" where
  "provider_detail_interrupt = on_client client_detail_interrupt"

definition provider_detail_set_connection_listener :: "(bool \<Rightarrow> 'w \<Rightarrow> 'w) \<Rightarrow> ('s, 'w) provider_detail member" where
  "provider_detail_set_connection_listener listener = on_client (client_detail_set_connection_listener listener)"

definition provider_new ::
    "nat \<Rightarrow> uninit \<Rightarrow> 's filesystem_i \<Rightarrow> string \<Rightarrow> nat \<Rightarrow> ('s, 'w) provider_detail object_op" where
  "provider_new lws_pre un fs ca_path this =
    pimpl_construct (map Call_setup (ws_client_create ca_path)) this (provider_detail_new lws_pre un fs)"

definition provider_destroy :: "nat \<Rightarrow> ('s, 'w) provider_detail object_op" where
  "provider_destroy this = pimpl_destroy provider_detail_destroy this"

definition provider_move_construct :: "nat \<Rightarrow> nat \<Rightarrow> ('s, 'w) provider_detail object_op" where
  "provider_move_construct this other = pimpl_move_construct this other"

definition provider_move_assign :: "nat \<Rightarrow> nat \<Rightarrow> ('s, 'w) provider_detail object_op" where
  "provider_move_assign this other = pimpl_move_assign provider_detail_destroy this other"

definition provider_connect :: "nat \<Rightarrow> string \<Rightarrow> ('s, 'w) provider_detail object_op" where
  "provider_connect this url = pimpl_call this (provider_detail_connect url)"

definition provider_service_once :: "nat \<Rightarrow> ('s, 'w) provider_detail object_op" where
  "provider_service_once this = pimpl_call this provider_detail_service"

definition provider_interrupt :: "nat \<Rightarrow> ('s, 'w) provider_detail object_op" where
  "provider_interrupt this = pimpl_call this provider_detail_interrupt"

definition provider_set_connection_listener :: "nat \<Rightarrow> (bool \<Rightarrow> 'w \<Rightarrow> 'w) \<Rightarrow> ('s, 'w) provider_detail object_op" where
  "provider_set_connection_listener this listener = pimpl_call this (provider_detail_set_connection_listener listener)"

subsection \<open>ws\_server and fuse\<close>

record server_detail =
  sd_data :: server
  sd_timeout_secs :: u64

definition server_detail_new :: "ws_config \<Rightarrow> server_detail" where
  "server_detail_new config =
    \<lparr>sd_data = server_new (wc_authenticator config) (wc_auth_header config), sd_timeout_secs = wc_timeout_secs config\<rparr>"

definition server_detail_destroy :: "object_call list" where
  "server_detail_destroy = map Call_setup ws_server_destroy"

text \<open>The part of \<^verbatim>\<open>perform\<close> before it waits for the future.\<close>

definition server_detail_perform :: "nat \<Rightarrow> messagewriter \<Rightarrow> server_detail member" where
  "server_detail_perform lws_pre writer d =
    Inr ([Call_cancel_service], d\<lparr>sd_data := snd (handler_perform lws_pre writer (sd_data d))\<rparr>)"

definition ws_server_new :: "ws_config \<Rightarrow> nat \<Rightarrow> server_detail object_op" where
  "ws_server_new config this = pimpl_construct (map Call_setup (ws_server_create config)) this (server_detail_new config)"

definition ws_server_delete :: "nat \<Rightarrow> server_detail object_op" where
  "ws_server_delete this = pimpl_destroy server_detail_destroy this"

definition ws_server_move_construct :: "nat \<Rightarrow> nat \<Rightarrow> server_detail object_op" where
  "ws_server_move_construct this other = pimpl_move_construct this other"

definition ws_server_move_assign :: "nat \<Rightarrow> nat \<Rightarrow> server_detail object_op" where
  "ws_server_move_assign this other = pimpl_move_assign server_detail_destroy this other"

definition ws_server_send :: "nat \<Rightarrow> nat \<Rightarrow> messagewriter \<Rightarrow> server_detail object_op" where
  "ws_server_send lws_pre this writer = pimpl_call this (server_detail_perform lws_pre writer)"

text \<open>The \<^verbatim>\<open>detail\<close> of \<^verbatim>\<open>fuse\<close> is the reference to the file system; it makes no calls.\<close>

definition fuse_new :: "'s filesystem_i \<Rightarrow> nat \<Rightarrow> 's filesystem_i object_op" where
  "fuse_new fs this = pimpl_construct [] this fs"

definition fuse_destroy :: "nat \<Rightarrow> 's filesystem_i object_op" where
  "fuse_destroy this = pimpl_destroy [] this"

definition fuse_move_construct :: "nat \<Rightarrow> nat \<Rightarrow> 's filesystem_i object_op" where
  "fuse_move_construct this other = pimpl_move_construct this other"

definition fuse_move_assign :: "nat \<Rightarrow> nat \<Rightarrow> 's filesystem_i object_op" where
  "fuse_move_assign this other = pimpl_move_assign [] this other"

subsection \<open>Programs over these classes\<close>

text \<open>What a program can do with the providers it has; members are not called on an object that was moved from.\<close>

inductive provider_step ::
    "nat \<Rightarrow> uninit \<Rightarrow> (('s, 'w) provider_detail, object_call) ownership \<Rightarrow> exn + unit \<Rightarrow>
      (('s, 'w) provider_detail, object_call) ownership \<Rightarrow> bool"
  for lws_pre un where
  construct: "this \<notin> dom (ow_handles s) \<Longrightarrow> provider_new lws_pre un fs ca_path this s = (r, s') \<Longrightarrow>
    provider_step lws_pre un s r s'"
| destroy: "this \<in> dom (ow_handles s) \<Longrightarrow> provider_destroy this s = (r, s') \<Longrightarrow> provider_step lws_pre un s r s'"
| move_construct: "this \<notin> dom (ow_handles s) \<Longrightarrow> other \<in> dom (ow_handles s) \<Longrightarrow>
    provider_move_construct this other s = (r, s') \<Longrightarrow> provider_step lws_pre un s r s'"
| move_assign: "this \<in> dom (ow_handles s) \<Longrightarrow> other \<in> dom (ow_handles s) \<Longrightarrow>
    provider_move_assign this other s = (r, s') \<Longrightarrow> provider_step lws_pre un s r s'"
| connect: "ow_handles s this = Some (Some a) \<Longrightarrow> provider_connect this url s = (r, s') \<Longrightarrow> provider_step lws_pre un s r s'"
| service: "ow_handles s this = Some (Some a) \<Longrightarrow> provider_service_once this s = (r, s') \<Longrightarrow> provider_step lws_pre un s r s'"
| interrupt: "ow_handles s this = Some (Some a) \<Longrightarrow> provider_interrupt this s = (r, s') \<Longrightarrow> provider_step lws_pre un s r s'"
| listen: "ow_handles s this = Some (Some a) \<Longrightarrow> provider_set_connection_listener this listener s = (r, s') \<Longrightarrow>
    provider_step lws_pre un s r s'"

inductive provider_reachable :: "nat \<Rightarrow> uninit \<Rightarrow> (('s, 'w) provider_detail, object_call) ownership \<Rightarrow> bool"
  for lws_pre un where
  start: "provider_reachable lws_pre un no_objects"
| step: "provider_reachable lws_pre un s \<Longrightarrow> provider_step lws_pre un s r s' \<Longrightarrow> provider_reachable lws_pre un s'"

inductive server_object_step ::
    "nat \<Rightarrow> (server_detail, object_call) ownership \<Rightarrow> exn + unit \<Rightarrow> (server_detail, object_call) ownership \<Rightarrow> bool"
  for lws_pre where
  construct: "this \<notin> dom (ow_handles s) \<Longrightarrow> ws_server_new config this s = (r, s') \<Longrightarrow> server_object_step lws_pre s r s'"
| destroy: "this \<in> dom (ow_handles s) \<Longrightarrow> ws_server_delete this s = (r, s') \<Longrightarrow> server_object_step lws_pre s r s'"
| move_construct: "this \<notin> dom (ow_handles s) \<Longrightarrow> other \<in> dom (ow_handles s) \<Longrightarrow>
    ws_server_move_construct this other s = (r, s') \<Longrightarrow> server_object_step lws_pre s r s'"
| move_assign: "this \<in> dom (ow_handles s) \<Longrightarrow> other \<in> dom (ow_handles s) \<Longrightarrow>
    ws_server_move_assign this other s = (r, s') \<Longrightarrow> server_object_step lws_pre s r s'"
| send: "ow_handles s this = Some (Some a) \<Longrightarrow> ws_server_send lws_pre this writer s = (r, s') \<Longrightarrow>
    server_object_step lws_pre s r s'"

inductive server_object_reachable :: "nat \<Rightarrow> (server_detail, object_call) ownership \<Rightarrow> bool"
  for lws_pre where
  start: "server_object_reachable lws_pre no_objects"
| step: "server_object_reachable lws_pre s \<Longrightarrow> server_object_step lws_pre s r s' \<Longrightarrow> server_object_reachable lws_pre s'"

subsection \<open>The calls of the classes\<close>

definition client_creates :: "object_call list set" where
  "client_creates = range (\<lambda>ca_path. map Call_setup (ws_client_create ca_path))"

definition client_uses :: "object_call set" where
  "client_uses = {Call_service, Call_cancel_service} \<union> range Call_connect"

definition server_creates :: "object_call list set" where
  "server_creates = range (\<lambda>config. map Call_setup (ws_server_create config))"

interpretation client_context: resource_class client_creates client_uses client_detail_destroy "Call_setup Lws_context_destroy"
  by unfold_locales (auto simp: client_creates_def client_uses_def client_detail_destroy_def ws_client_create_def)

interpretation server_context: resource_class server_creates "{Call_cancel_service}" server_detail_destroy
  "Call_setup Lws_context_destroy"
  by unfold_locales (auto simp: server_creates_def server_detail_destroy_def ws_server_create_def ws_server_destroy_def)

lemma connect_info_defined: "client_connect_info url \<noteq> Inl Undefined_behaviour"
  by (auto simp: client_connect_info_def ws_url_new_def parse_protocol_def split: sum.splits prod.splits option.splits if_splits
      dest!: stoi_error)

text \<open>The operations of the classes are those of the general pattern.\<close>

lemma on_client_ok: "member_ok uses f \<Longrightarrow> member_ok uses (on_client f)"
  by (fastforce simp: member_ok_def on_client_def split: sum.splits prod.splits)

lemma client_members_ok:
  "member_ok client_uses (client_detail_connect url)" "member_ok client_uses client_detail_service"
  "member_ok client_uses client_detail_interrupt" "member_ok client_uses (client_detail_set_connection_listener listener)"
  using connect_info_defined [of url]
  by (auto simp: member_ok_def client_uses_def client_detail_connect_def client_detail_service_def client_detail_interrupt_def
      client_detail_set_connection_listener_def split: sum.splits)

lemmas provider_ops = provider_new_def provider_destroy_def provider_move_construct_def provider_move_assign_def
  provider_connect_def provider_service_once_def provider_interrupt_def provider_set_connection_listener_def
  provider_detail_connect_def provider_detail_service_def provider_detail_interrupt_def
  provider_detail_set_connection_listener_def provider_detail_destroy_def

lemma provider_step_pimpl:
  "provider_step lws_pre un s r s' \<Longrightarrow> pimpl_step client_creates client_uses client_detail_destroy s r s'"
proof (induction rule: provider_step.induct)
  case (construct this s fs ca_path r s')
  then show ?case
    by (intro pimpl_step.construct [of "map Call_setup (ws_client_create ca_path)"]) (auto simp: provider_ops client_creates_def)
qed (auto simp: provider_ops intro: pimpl_step.intros on_client_ok client_members_ok)

lemma server_step_pimpl:
  "server_object_step lws_pre s r s' \<Longrightarrow> pimpl_step server_creates {Call_cancel_service} server_detail_destroy s r s'"
proof (induction rule: server_object_step.induct)
  case (construct this s config r s')
  then show ?case
    by (intro pimpl_step.construct [of "map Call_setup (ws_server_create config)"]) (auto simp: ws_server_new_def server_creates_def)
next
  case (send s this a writer r s')
  have "member_ok {Call_cancel_service} (server_detail_perform lws_pre writer)"
    by (simp add: member_ok_def server_detail_perform_def)
  with send show ?case by (auto simp: ws_server_send_def intro: pimpl_step.call)
qed (auto simp: ws_server_delete_def ws_server_move_construct_def ws_server_move_assign_def intro: pimpl_step.intros)

lemma provider_reachable_pimpl:
  "provider_reachable lws_pre un s \<Longrightarrow> pimpl_reachable client_creates client_uses client_detail_destroy s"
  by (induction rule: provider_reachable.induct) (auto intro: pimpl_reachable.intros provider_step_pimpl)

lemma server_reachable_pimpl:
  "server_object_reachable lws_pre s \<Longrightarrow> pimpl_reachable server_creates {Call_cancel_service} server_detail_destroy s"
  by (induction rule: server_object_reachable.induct) (auto intro: pimpl_reachable.intros server_step_pimpl)

text \<open>No operation but the constructor makes a \<^verbatim>\<open>detail\<close>, and members keep file system and handler.\<close>

definition own_handler :: "nat \<Rightarrow> uninit \<Rightarrow> ('s, 'w) provider_detail \<Rightarrow> bool" where
  "own_handler lws_pre un d \<longleftrightarrow> cd_handler (pd_client d) = on_message lws_pre un (pd_fs d)"

lemma heap_delete: "delete_detail dtor d s = (r, s') \<Longrightarrow> ran (ow_heap s') \<subseteq> ran (ow_heap s)"
  by (auto simp: delete_detail_def ran_def split: option.splits if_splits)

lemma heap_shrinks:
  "pimpl_destroy dtor this s = (r, s') \<Longrightarrow> ran (ow_heap s') \<subseteq> ran (ow_heap s)"
  "pimpl_move_construct this other s = (r, s') \<Longrightarrow> ran (ow_heap s') \<subseteq> ran (ow_heap s)"
  "pimpl_move_assign dtor this other s = (r, s') \<Longrightarrow> ran (ow_heap s') \<subseteq> ran (ow_heap s)"
  by (auto simp: pimpl_destroy_def pimpl_move_construct_def pimpl_move_assign_def bind_m_def dest!: heap_delete
      split: prod.splits sum.splits if_splits)

lemma ran_update: "ran (m(a \<mapsto> b)) \<subseteq> insert b (ran m)"
  by (auto simp: ran_def split: if_splits)

lemma heap_call:
  assumes "pimpl_call this f s = (r, s')" and "\<And>d cs d'. P d \<Longrightarrow> f d = Inr (cs, d') \<Longrightarrow> P d'"
    and "\<forall>d \<in> ran (ow_heap s). P d"
  shows "\<forall>d \<in> ran (ow_heap s'). P d"
proof (cases "\<exists>a d cs d'. the (ow_handles s this) = Some a \<and> ow_heap s a = Some d \<and> f d = Inr (cs, d')")
  case True
  then obtain a d cs d' where c: "the (ow_handles s this) = Some a" "ow_heap s a = Some d" "f d = Inr (cs, d')" by blast
  then have heap: "ow_heap s' = (ow_heap s)(a \<mapsto> d')" using assms(1) by (auto simp: pimpl_call_def)
  have "P d'" using assms(2) [OF _ c(3)] assms(3) c(2) by (auto simp: ran_def)
  with heap ran_update [of "ow_heap s" a d'] assms(3) show ?thesis by auto
next
  case False
  then have "ow_heap s' = ow_heap s" using assms(1) by (auto simp: pimpl_call_def split: option.splits sum.splits)
  with assms(3) show ?thesis by simp
qed

definition keeps_handler :: "('h, 'w) client_detail member \<Rightarrow> bool" where
  "keeps_handler f \<longleftrightarrow> (\<forall>c cs c'. f c = Inr (cs, c') \<longrightarrow> cd_handler c' = cd_handler c)"

lemma members_keep_handler:
  "keeps_handler (client_detail_connect url)" "keeps_handler client_detail_service"
  "keeps_handler client_detail_interrupt" "keeps_handler (client_detail_set_connection_listener listener)"
  by (auto simp: keeps_handler_def client_detail_connect_def client_detail_service_def client_detail_interrupt_def
      client_detail_set_connection_listener_def split: sum.splits)

lemma handler_call:
  assumes "pimpl_call this (on_client f) s = (r, s')" and "keeps_handler f"
    and "\<forall>d \<in> ran (ow_heap s). own_handler lws_pre un d"
  shows "\<forall>d \<in> ran (ow_heap s'). own_handler lws_pre un d"
  using assms(2)
  by (intro heap_call [OF assms(1) _ assms(3)])
    (auto simp: keeps_handler_def own_handler_def on_client_def split: sum.splits prod.splits)

lemma own_handler_step:
  assumes "provider_step lws_pre un s r s'" and "\<forall>d \<in> ran (ow_heap s). own_handler lws_pre un d"
  shows "\<forall>d \<in> ran (ow_heap s'). own_handler lws_pre un d"
  using assms
proof (induction rule: provider_step.induct)
  case (construct this s fs ca_path r s')
  then have "ow_heap s' = (ow_heap s)(ow_next s \<mapsto> provider_detail_new lws_pre un fs)"
    by (auto simp: provider_new_def pimpl_construct_def)
  then have "ran (ow_heap s') \<subseteq> insert (provider_detail_new lws_pre un fs) (ran (ow_heap s))"
    by (simp only: ran_update)
  moreover have "own_handler lws_pre un (provider_detail_new lws_pre un fs)"
    by (simp add: own_handler_def provider_detail_new_def client_detail_new_def)
  ultimately show ?case using construct.prems by blast
next
  case (destroy this s r s')
  then show ?case using heap_shrinks(1) unfolding provider_ops by blast
next
  case (move_construct this s other r s')
  then show ?case using heap_shrinks(2) unfolding provider_ops by blast
next
  case (move_assign this s other r s')
  then show ?case using heap_shrinks(3) unfolding provider_ops by blast
qed (unfold provider_ops, (erule handler_call, rule members_keep_handler, assumption)+)

lemma own_handler_reachable:
  "provider_reachable lws_pre un s \<Longrightarrow> \<forall>d \<in> ran (ow_heap s). own_handler lws_pre un d"
  by (induction rule: provider_reachable.induct) (simp add: no_objects_def, rule own_handler_step)

subsection \<open>Contexts and threads\<close>

lemma provider_step_defined:
  assumes "provider_reachable lws_pre un s" and "provider_step lws_pre un s r s'"
  shows "r \<noteq> Inl Undefined_behaviour"
  using pimpl_step_safe [OF provider_step_pimpl [OF assms(2)]] pimpl_reachable_safe [OF provider_reachable_pimpl [OF assms(1)]]
  by blast

lemma server_step_defined:
  assumes "server_object_reachable lws_pre s" and "server_object_step lws_pre s r s'"
  shows "r \<noteq> Inl Undefined_behaviour"
  using pimpl_step_safe [OF server_step_pimpl [OF assms(2)]] pimpl_reachable_safe [OF server_reachable_pimpl [OF assms(1)]]
  by blast

text \<open>A server that is gone has requested its shutdown, woken and joined its thread and destroyed its context, in this order.\<close>

lemma server_shut_down:
  assumes "server_object_reachable lws_pre s" and "a < ow_next s" and "\<nexists>h. ow_handles s h = Some (Some a)"
  shows "suffix server_detail_destroy (calls_on a s)"
proof -
  have inv: "owned s" "traced server_creates {Call_cancel_service} server_detail_destroy s"
    using pimpl_reachable_safe [OF server_reachable_pimpl [OF assms(1)]] by blast+
  have "a \<notin> dom (ow_heap s)" using ownedD(2) [OF inv(1)] assms(3) by blast
  with tracedD(1) [OF inv(2) assms(2)] show ?thesis by (auto simp: lifetime_def suffix_def)
qed

subsection \<open>Properties\<close>

text \<open>
  C25. However a program creates, moves, assigns, uses and destroys providers and servers: no operation is undefined, the
  context of libwebsockets behind each of them is destroyed exactly once, when no object owns it any more, the thread of
  a server is joined before that, and as long as a provider exists its connection is answered by its own file system.
\<close>

theorem contexts_destroyed_once:
  assumes "provider_reachable lws_pre un ps" and "server_object_reachable lws_pre ss"
  shows "(\<forall>r s'. provider_step lws_pre un ps r s' \<longrightarrow> r \<noteq> Inl Undefined_behaviour) \<and>
    (\<forall>r s'. server_object_step lws_pre ss r s' \<longrightarrow> r \<noteq> Inl Undefined_behaviour) \<and>
    (\<forall>a. a < ow_next ps \<longrightarrow> count_list (calls_on a ps) (Call_setup Lws_context_destroy) =
      (if \<exists>h. ow_handles ps h = Some (Some a) then 0 else 1)) \<and>
    (\<forall>a. a < ow_next ss \<longrightarrow> count_list (calls_on a ss) (Call_setup Lws_context_destroy) =
      (if \<exists>h. ow_handles ss h = Some (Some a) then 0 else 1)) \<and>
    (\<forall>a. a < ow_next ss \<longrightarrow> (\<nexists>h. ow_handles ss h = Some (Some a)) \<longrightarrow>
      suffix (map Call_setup [Request_shutdown, Setup_cancel_service, Thread_join, Lws_context_destroy]) (calls_on a ss)) \<and>
    (\<forall>a d. ow_heap ps a = Some d \<longrightarrow> cd_handler (pd_client d) = on_message lws_pre un (pd_fs d))"
proof (intro conjI allI impI)
  show "cd_handler (pd_client d) = on_message lws_pre un (pd_fs d)" if "ow_heap ps a = Some d" for a d
    using own_handler_reachable [OF assms(1)] that by (auto simp: own_handler_def ran_def)
  show "suffix (map Call_setup [Request_shutdown, Setup_cancel_service, Thread_join, Lws_context_destroy]) (calls_on a ss)"
    if "a < ow_next ss" "\<nexists>h. ow_handles ss h = Some (Some a)" for a
    using server_shut_down [OF assms(2) that] by (simp add: server_detail_destroy_def ws_server_destroy_def)
qed (rule provider_step_defined [OF assms(1)] server_step_defined [OF assms(2)]
    client_context.released_once [OF provider_reachable_pimpl [OF assms(1)]]
    server_context.released_once [OF server_reachable_pimpl [OF assms(2)]]; assumption)+

text \<open>A provider is moved and connects; a server is made and destroyed.\<close>

theorem contexts_destroyed_once_witness:
  "\<exists>(ps :: ((unit, bool) provider_detail, object_call) ownership) ss.
    provider_reachable 16 uninit_zero ps \<and> ow_handles ps 1 = Some (Some 0) \<and> ow_handles ps 0 = Some None \<and>
    count_list (calls_on 0 ps) (Call_setup Lws_context_destroy) = 0 \<and>
    server_object_reachable 16 ss \<and> ow_handles ss 0 = None \<and> ow_next ss = 1 \<and>
    count_list (calls_on 0 ss) (Call_setup Lws_context_destroy) = 1"
proof -
  let ?p1 = "snd (provider_new 16 uninit_zero empty_filesystem '''' 0 no_objects)
    :: ((unit, bool) provider_detail, object_call) ownership"
  let ?p2 = "snd (provider_move_construct 1 0 ?p1)"
  have "provider_reachable 16 uninit_zero ?p1"
    by (rule provider_reachable.step [OF provider_reachable.start provider_step.construct [OF _ surjective_pairing]])
      (simp add: no_objects_def)
  then have p: "provider_reachable 16 uninit_zero ?p2"
    by (rule provider_reachable.step [OF _ provider_step.move_construct [OF _ _ surjective_pairing]])
      (simp_all add: no_objects_def provider_new_def pimpl_construct_def)
  have p2: "ow_handles ?p2 1 = Some (Some 0)" "ow_handles ?p2 0 = Some None" "0 < ow_next ?p2"
    by (simp_all add: no_objects_def provider_new_def provider_move_construct_def pimpl_construct_def pimpl_move_construct_def)
  let ?s1 = "snd (ws_server_new (initial_config [''webfuse'']) 0 no_objects)"
  let ?s2 = "snd (ws_server_delete 0 ?s1)"
  have "server_object_reachable 16 ?s1"
    by (rule server_object_reachable.step [OF server_object_reachable.start server_object_step.construct [OF _ surjective_pairing]])
      (simp add: no_objects_def)
  then have s: "server_object_reachable 16 ?s2"
    by (rule server_object_reachable.step [OF _ server_object_step.destroy [OF _ surjective_pairing]])
      (simp add: no_objects_def ws_server_new_def pimpl_construct_def)
  have s2: "ow_handles ?s2 = Map.empty" "ow_next ?s2 = 1"
    by (simp_all add: no_objects_def ws_server_new_def ws_server_delete_def pimpl_construct_def pimpl_destroy_def
        delete_detail_def bind_m_def)
  note once = contexts_destroyed_once [OF p s, THEN conjunct2, THEN conjunct2]
  have "\<exists>h. ow_handles ?p2 h = Some (Some 0)" using p2(1) by (rule exI)
  then have "count_list (calls_on 0 ?p2) (Call_setup Lws_context_destroy) = 0"
    using once [THEN conjunct1, rule_format, OF p2(3)] by (simp only: if_True)
  moreover have "count_list (calls_on 0 ?s2) (Call_setup Lws_context_destroy) = 1"
    using once [THEN conjunct2, THEN conjunct1, rule_format, of 0] s2 by simp
  ultimately show ?thesis using p s p2 s2 by (intro exI [of _ ?p2] exI [of _ ?s2]) simp
qed

end
