(* ===== verification/Spec2Isabelle.thy ===== *)
theory Spec2Isabelle
  imports Connection_Loss Protocol Pam_Authenticator Objects
begin

text \<open>
  \<^bold>\<open>webfuse\<close> mounts a remote directory. Two programs take part. The \<^emph>\<open>service\<close> (\<^verbatim>\<open>webfuse\<close>) is a FUSE file
  system and a websocket server; the \<^emph>\<open>provider\<close> (\<^verbatim>\<open>webfuse_provider\<close>) owns the directory and connects to the
  service. A FUSE call becomes a request message, is sent to the provider, executed there, and answered by a
  response message; a client may have to authenticate first, by a token that an external program judges. The
  sources are under \<^verbatim>\<open>src/src/\<close>, the PAM authenticator under \<^verbatim>\<open>src/example/authenticator/pam/src/\<close>.

  \<^bold>\<open>Foundations.\<close>
  \<^item> \<open>Prelude\<close>: machine integers, exceptions, the state-and-exception monad \<open>sm\<close> in which member functions
    are written, C strings. \<open>Std_String\<close>: what is used of \<^verbatim>\<open>std::string\<close> and \<^verbatim>\<open>std::stoi\<close>.
  \<^item> \<open>Service_Loop\<close>: loops of the form \<^verbatim>\<open>while (!shutdown_requested)\<close> over a sequence of rounds, with the locale
    \<open>stoppable_service\<close>, interpreted on the provider's main loop.
  \<^item> \<open>Websocket\<close>: connections and calls of libwebsockets, with the locale \<open>write_queue\<close> for a queue that the
    writable callback empties, interpreted on the client and on the server.
  \<^item> \<open>Ownership\<close>: the raw pointer \<^verbatim>\<open>detail * d\<close> of \<^verbatim>\<open>provider\<close>, \<^verbatim>\<open>ws_client\<close>, \<^verbatim>\<open>ws_server\<close> and \<^verbatim>\<open>fuse\<close>, whose constructors,
    destructors and moves are the same code, with the calls each object makes into the libraries and the locale
    \<open>resource_class\<close> for classes whose destructor releases something.

  \<^bold>\<open>Messages.\<close>
  \<^item> \<open>Fs_Values\<close> (\<^verbatim>\<open>filesystem/status\<close>, \<^verbatim>\<open>accessmode\<close>, \<^verbatim>\<open>filemode\<close>, \<^verbatim>\<open>openflags\<close>, \<^verbatim>\<open>filesystem_statistics\<close>): the values of the
    protocol and their conversion from and to those of the platform.
  \<^item> \<open>Message_Types\<close> (\<^verbatim>\<open>request_type\<close>, \<^verbatim>\<open>response_type\<close>), \<open>Message_Writer\<close> (\<^verbatim>\<open>ws/messagewriter.cpp\<close>), \<open>Message_Reader\<close>
    (\<^verbatim>\<open>ws/messagereader.cpp\<close>): the wire format. \<open>Message_Codec\<close> has no code of its own: it relates writer and
    reader by a calculus of encodings, with locales for values that can be written and read.

  \<^bold>\<open>The file system across the connection.\<close>
  \<^item> \<open>Filesystem_Interface\<close> (\<^verbatim>\<open>filesystem/filesystem_i.hpp\<close>, \<^verbatim>\<open>empty_filesystem.cpp\<close>): the abstract class as a record
    of operations over a state, the fallback implementation, and the locale \<open>filesystem_contract\<close>.
  \<^item> \<open>Provider\<close> (\<^verbatim>\<open>provider.cpp\<close>): the handler of a request, \<open>on_message\<close>, with one definition per request type.
    \<open>Provider_Safety\<close>: the locale \<open>defined_filesystem\<close>, under which the handler is free of undefined behaviour.
  \<^item> \<open>Filesystem_Proxy\<close> (\<^verbatim>\<open>filesystem.cpp\<close>): the service's file system, over an argument \<open>perform\<close>. The locales
    \<open>transport\<close> and \<open>remote_filesystem\<close> state what it needs of \<open>perform\<close> and of the remote side; they are
    interpreted on \<open>loopback\<close>, which hands the message to the provider's handler.
  \<^item> \<open>Server_Handler\<close> (\<^verbatim>\<open>ws/server_handler.cpp\<close>, \<^verbatim>\<open>ws/server.cpp\<close>), \<open>Client\<close> (\<^verbatim>\<open>ws/client.cpp\<close>): the event handlers of
    both ends, with the calls of libwebsockets as a log and futures and promises as a list of cells; the
    interleavings of the server's threads as the step relation \<open>server_step\<close>, in which \<^verbatim>\<open>on_established\<close> can be interrupted
    after it reset the id without the lock, and the reset can race with \<^verbatim>\<open>next_id\<close>. \<open>Server_Loop\<close> (\<^verbatim>\<open>ws/server.cpp\<close>): the
    service thread, the destructor and the calls of \<^verbatim>\<open>ws_server::perform\<close> as the step relation \<open>loop_step\<close>.
    \<open>Server_Correlation\<close>: \<open>server_step\<close> with the history of the ids that were sent.
  \<^item> \<open>Protocol\<close> (\<^verbatim>\<open>doc/protocol.md\<close>): the fields of requests and responses as a check on bytes.
  \<^item> \<open>System\<close>: both programs with the network between them, one request at a time. \<open>Concurrent_System\<close>: the same with
    any number of calls at once, as the step relation \<open>network_step\<close> over the threads of both programs and the two
    directions of the network. \<open>Handshake\<close>: how a connection gets there. \<open>Connection_Loss\<close>: how it breaks, as the step
    relation \<open>loss_step\<close>, in which each end closes at a time of its own and messages to a closed end are lost.
  \<^item> \<open>Fuse\<close> (\<^verbatim>\<open>fuse.cpp\<close>): the callbacks and their table. \<open>Local_Filesystem\<close> (\<^verbatim>\<open>provider_main.cpp\<close>): the provider's
    file system by system calls.

  \<^bold>\<open>The programs.\<close>
  \<^item> \<open>Url\<close> (\<^verbatim>\<open>ws/url.cpp\<close>), \<open>Config\<close> (\<^verbatim>\<open>ws/config.cpp\<close>, \<^verbatim>\<open>util/commandline_*\<close>), \<open>Websocket_Setup\<close> (constructors and destructors
    in \<^verbatim>\<open>ws/server.cpp\<close> and \<^verbatim>\<open>ws/client.cpp\<close>), \<open>App\<close> (\<^verbatim>\<open>webfuse.cpp\<close>, \<^verbatim>\<open>main.cpp\<close>), \<open>Provider_Main\<close> (\<^verbatim>\<open>provider_main.cpp\<close>:
    options and \<^verbatim>\<open>main\<close>). \<open>Objects\<close>: constructors, destructors, moves and forwarding members of \<^verbatim>\<open>provider\<close>, \<^verbatim>\<open>ws_client\<close>,
    \<^verbatim>\<open>ws_server\<close> and \<^verbatim>\<open>fuse\<close>, with interpretations of \<open>resource_class\<close> for the contexts of libwebsockets.
  \<^item> \<open>Authenticator\<close> (\<^verbatim>\<open>util/authenticator.cpp\<close>), \<open>Pam_Authenticator\<close> (the example program and its token tools).

  \<^bold>\<open>What is shown.\<close>
  \<^item> Codecs: value conversions and wire format round-trip as far as the code does; a truncated message is
    refused with an exception, and no message is read behind its end.
  \<^item> Refinement: every operation of the service's file system is, over the whole stack, the same operation of the
    provider's file system on the arguments as they arrive (\<open>recv_...\<close>, \<open>low32\<close>), and lets no exception escape. The
    theorem of this theory carries this, for eight operations on paths, from the kernel's call to the system call on the
    provider's machine; \<open>Local_Filesystem\<close> follows an open file.
  \<^item> The server keeps a promise unsatisfied while it is pending, satisfies it at most once, delivers a response to
    the request with its id and never to a caller that sent another id, sends nothing but the request for credentials as
    long as no authentication succeeds, writes requests in order; its thread sleeps neither on a queued request nor when
    the destructor waits for it. The client reassembles fragments, never forgets a queued response, and the
    provider's \<^verbatim>\<open>main\<close> returns exactly when the connection is lost or a signal arrives.
  \<^item> Concurrent calls are linearizable in the order in which they take the server's lock, for fewer than 2^32 requests
    on a connection; none is lost or stuck. A handshake ends in such a session or in a closed connection. When the
    connection breaks, at whatever moment, the provider has executed a prefix of the requests, each once and in order,
    and a caller gets the answer its request had, a broken promise, or nothing until its timeout.
  \<^item> Types: the service sends exactly the fields of a request type; the provider accepts exactly the messages that begin
    with them, ignores what follows, rejects everything else before it acts, and answers with the fields of the type.
  \<^item> Ownership: implementation objects are neither freed twice nor leaked; every context of libwebsockets is destroyed
    exactly once, after the thread that uses it was joined.
  \<^item> Command lines, urls, TLS set-up, authenticator and PAM program do what their options and tokens say.
  \<^item> Several theorems state behaviour the authors hardly intended: the loss of the upper half of 64-bit values, its
    consequence for files that are not open, the device number of \<^verbatim>\<open>mknod\<close>, reads that ignore the open file, an
    authenticator that crashes, a second client, a reconnection with requests pending, a request with the id 0 by the
    race of a reconnection with \<^verbatim>\<open>perform\<close>, callers that nobody wakes after a loss, requests that are sent to the next
    client before it is authenticated.

  \<^bold>\<open>Bounds.\<close> Integers have the width of the code; sizes of buffers in memory are natural numbers. Loops are
  structural recursions over the data they consume, or have a measure; the provider's main loop uses \<open>while_option\<close>, so
  that not returning is the value \<open>None\<close>; the server's thread is a step relation. There is no fuel.

  \<^bold>\<open>Parameters.\<close> Headers of libwebsockets and the authenticator's verdict (\<open>server_env\<close>), the operating system
  (\<open>posix\<close>, \<open>auth_os\<close>), PAM and base64, \<^verbatim>\<open>getopt_long\<close>, \<^verbatim>\<open>fuse_main\<close>, the events of each round of the provider's loop, when
  \<^verbatim>\<open>lws_service\<close> returns (\<open>lws_returns\<close>), and the contents of uninitialised memory (\<open>uninit\<close>) are arguments of the definitions.

  \<^bold>\<open>Not modelled.\<close> The version string, which the build generates; log and usage texts; the library internals behind the
  parameters; the reuse of an address by the allocator. The step relations over the whole system follow one connection
  from its handshake to its loss, and \<open>service_recovers\<close> leads from there to the next one if nothing of the old one is
  left; what a second connection finds otherwise is stated for the server alone, where the ids no longer identify a
  request.
\<close>

subsection \<open>From the kernel to the directory\<close>

lemma mounted_directory_status:
  "filesystem_access lws_pre (loopback lws_pre un (local_filesystem px base token) i) path mode =
     bind_m (sys (px_access px (c_str (base @ recv_str path)) (mode AND 7))) (status_of px)"
  "filesystem_link lws_pre (loopback lws_pre un (local_filesystem px base token) i) old_path new_path =
     bind_m (sys (px_link px (c_str (base @ recv_str old_path)) (c_str (base @ recv_str new_path)))) (status_of px)"
  "filesystem_rename lws_pre (loopback lws_pre un (local_filesystem px base token) i) old_path new_path flags =
     bind_m (sys (px_renameat2 px (c_str (base @ recv_str old_path)) (c_str (base @ recv_str new_path)) (flags AND 3)))
       (status_of px)"
  "filesystem_chmod lws_pre (loopback lws_pre un (local_filesystem px base token) i) path fmode =
     bind_m (sys (px_chmod px (c_str (base @ recv_str path)) (filemode_from_mode fmode))) (status_of px)"
  "filesystem_chown lws_pre (loopback lws_pre un (local_filesystem px base token) i) path uid gid =
     bind_m (sys (px_chown px (c_str (base @ recv_str path)) uid gid)) (status_of px)"
  "filesystem_unlink lws_pre (loopback lws_pre un (local_filesystem px base token) i) path =
     bind_m (sys (px_unlink px (c_str (base @ recv_str path)))) (status_of px)"
  "filesystem_mkdir lws_pre (loopback lws_pre un (local_filesystem px base token) i) path fmode =
     bind_m (sys (px_mkdir px (c_str (base @ recv_str path)) (filemode_from_mode fmode))) (status_of px)"
  "filesystem_rmdir lws_pre (loopback lws_pre un (local_filesystem px base token) i) path =
     bind_m (sys (px_rmdir px (c_str (base @ recv_str path)))) (status_of px)"
  by (simp_all add: loop_fs.remote_access loop_fs.remote_link loop_fs.remote_rename loop_fs.remote_chmod
      loop_fs.remote_chown loop_fs.remote_unlink loop_fs.remote_mkdir loop_fs.remote_rmdir
      local_filesystem_def localfs_access_def localfs_link_def localfs_rename_def localfs_chmod_def localfs_chown_def
      localfs_unlink_def localfs_mkdir_def localfs_rmdir_def get_full_path_def)

subsection \<open>Properties\<close>

text \<open>
  C2. The whole stack, for eight operations on paths: a call of the kernel to access, link, rename, chmod, chown, unlink,
  mkdir or rmdir on a mount whose provider serves the directory \<open>base\<close>, on a connected, authenticated and idle system,
  is the system call on the path behind \<open>base\<close> on the provider's machine, reports its status and has no other effect there.
\<close>

theorem kernel_call_reaches_directory:
  assumes "idle ws st"
    and "mount = fuse_operations_of (filesystem_object lws_pre
      (system_perform lws_pre (on_message lws_pre un (local_filesystem px base token)) env ws wc))"
    and "\<pi> = (\<lambda>st. cl_fs (sys_client st))"
  shows "same_answer \<pi> st (op_access mount path mode)
      (bind_m (sys (px_access px (c_str (base @ recv_str path)) (mode AND 7))) (status_of px)) \<and>
    same_answer \<pi> st (op_link mount old_path new_path)
      (bind_m (sys (px_link px (c_str (base @ recv_str old_path)) (c_str (base @ recv_str new_path)))) (status_of px)) \<and>
    same_answer \<pi> st (op_rename mount old_path new_path flags)
      (bind_m (sys (px_renameat2 px (c_str (base @ recv_str old_path)) (c_str (base @ recv_str new_path)) (flags AND 3)))
        (status_of px)) \<and>
    same_answer \<pi> st (op_chmod mount path fmode info)
      (bind_m (sys (px_chmod px (c_str (base @ recv_str path)) (filemode_from_mode fmode))) (status_of px)) \<and>
    same_answer \<pi> st (op_chown mount path uid gid info)
      (bind_m (sys (px_chown px (c_str (base @ recv_str path)) uid gid)) (status_of px)) \<and>
    same_answer \<pi> st (op_unlink mount path)
      (bind_m (sys (px_unlink px (c_str (base @ recv_str path)))) (status_of px)) \<and>
    same_answer \<pi> st (op_mkdir mount path fmode)
      (bind_m (sys (px_mkdir px (c_str (base @ recv_str path)) (filemode_from_mode fmode))) (status_of px)) \<and>
    same_answer \<pi> st (op_rmdir mount path)
      (bind_m (sys (px_rmdir px (c_str (base @ recv_str path)))) (status_of px))"
  unfolding assms(2,3) fuse_operations_of_def fuse_operations.select_convs filesystem_object_def fuse_fs_access_def fuse_fs_link_def fuse_fs_rename_def fuse_fs_chmod_def
    fuse_fs_chown_def fuse_fs_unlink_def fuse_fs_mkdir_def fuse_fs_rmdir_def filesystem_i.select_convs
    mounted_directory_status [symmetric, where lws_pre = lws_pre and un = un and token = token and
      i = "fst (next_id (sys_server st))"]
  by (intro conjI filesystem_same_answer [where n = 0 and data = "[]"] system_same_answer assms(1) le0)

theorem kernel_call_reaches_directory_witness:
  "idle 5 sample_system \<and>
   same_answer (\<lambda>st. cl_fs (sys_client st)) sample_system
    (op_unlink (fuse_operations_of (filesystem_object 16 (system_perform 16
      (on_message 16 uninit_zero (local_filesystem null_posix ''/srv'' ''t'')) null_env 5 3))) ''/x'')
    (\<lambda>w. (Inr (- EBADF), w))"
proof -
  have "(\<lambda>w. (Inr (- EBADF), w)) =
      bind_m (sys (px_unlink null_posix (c_str (''/srv'' @ recv_str ''/x'')))) (status_of null_posix)"
    by (simp add: fun_eq_iff null_posix_def sys_def bind_m_def status_of_def get_errno_def return_apply)
  then show ?thesis
    using kernel_call_reaches_directory [OF sample_system_idle refl refl, of 16 uninit_zero null_posix
        "''/srv''" "''t''" null_env 3]
    by (simp add: sample_system_idle)
qed

end
